(* ===== verification/Prelude.thy ===== *)
theory Prelude
  imports Main "HOL-Library.Word" "HOL-Library.Monad_Syntax" "HOL-Library.AList"
begin

text \<open>
  Shared vocabulary of the development.

  \<^item> Machine integers: \<open>u8\<close>, \<open>u16\<close>, \<open>u32\<close> are words of the C++ widths; a
    \<^verbatim>\<open>std::vector<uint8_t>\<close> is a list of bytes; a \<^verbatim>\<open>std::string\<close> is a HOL
    \<open>string\<close> (a list of 8-bit characters, embedded NUL allowed); \<^verbatim>\<open>size_t\<close> is
    \<open>nat\<close> (every sum the code forms is below \<open>2 ^ 34\<close>, so nothing wraps on the
    64-bit targets); millisecond clocks (\<^verbatim>\<open>int64_t\<close>) are \<open>int\<close>.
  \<^item> Memory safety: a read through a raw pointer or an index is a partial operation of
    type \<open>'a option\<close>. The outermost \<open>None\<close> of a routine means that it left its
    buffer (undefined behaviour in C++), so that safety is a theorem \<open>f x \<noteq> None\<close>.
  \<^item> \<^verbatim>\<open>std::unordered_map\<close> is an association list (\<open>map_of\<close>, \<open>AList.update\<close>,
    \<open>AList.delete\<close>); its iteration order is the list order, over which all theorems
    quantify.
\<close>

unbundle bit_operations_syntax

type_synonym u8 = "8 word"
type_synonym u16 = "16 word"
type_synonym u32 = "32 word"
type_synonym bytes = "u8 list"

named_theorems codec_simps \<open>unfolding of the frame encoders and of the big-endian writers\<close>
named_theorems safe_reads \<open>when a read leaves its buffer\<close>


section \<open>Byte strings\<close>

text \<open>\<^verbatim>\<open>reinterpret_cast<const char*>\<close> and back, one character at a time.\<close>

definition char_of_byte :: "u8 \<Rightarrow> char" where
  "char_of_byte b = char_of (unat b)"

definition byte_of_char :: "char \<Rightarrow> u8" where
  "byte_of_char c = word_of_nat (of_char c)"

lemma char_of_byte_of_char [simp]: "char_of_byte (byte_of_char c) = c"
  by (simp add: char_of_byte_def byte_of_char_def unat_of_nat)

lemma byte_of_char_of_byte [simp]: "byte_of_char (char_of_byte b) = b"
proof -
  have "unat b < 256" by (rule order_less_le_trans [OF unsigned_less]) simp
  then show ?thesis by (simp add: char_of_byte_def byte_of_char_def)
qed

abbreviation str_of_bytes :: "bytes \<Rightarrow> string" where
  "str_of_bytes \<equiv> map char_of_byte"

abbreviation bytes_of_str :: "string \<Rightarrow> bytes" where
  "bytes_of_str \<equiv> map byte_of_char"

lemma char_byte_inverse [simp]:
  "char_of_byte \<circ> byte_of_char = id" "byte_of_char \<circ> char_of_byte = id"
  by auto

lemma str_of_bytes_of_str [simp]: "str_of_bytes (bytes_of_str s) = s"
  by (simp add: comp_def)

lemma bytes_of_str_of_bytes [simp]: "bytes_of_str (str_of_bytes xs) = xs"
  by (simp add: comp_def)

text \<open>\<^verbatim>\<open>s.c_str()\<close> read as a C string: everything before the first NUL.\<close>

definition c_str :: "string \<Rightarrow> string" where
  "c_str s = takeWhile (\<lambda>c. c \<noteq> CHR 0x00) s"

lemma c_str_id: "CHR 0x00 \<notin> set s \<Longrightarrow> c_str s = s"
  unfolding c_str_def by (induction s) auto

lemma c_str_no_nul: "CHR 0x00 \<notin> set (c_str s)"
  unfolding c_str_def using set_takeWhileD by force


section \<open>Reads that can leave the buffer\<close>

definition byte_at :: "bytes \<Rightarrow> nat \<Rightarrow> u8 option" where
  "byte_at xs i = (if i < length xs then Some (xs ! i) else None)"

definition slice_at :: "bytes \<Rightarrow> nat \<Rightarrow> nat \<Rightarrow> bytes option" where
  "slice_at xs off n = (if off + n \<le> length xs then Some (take n (drop off xs)) else None)"

lemma byte_at_safe [simp]: "i < length xs \<Longrightarrow> byte_at xs i = Some (xs ! i)"
  by (simp add: byte_at_def)

lemma slice_at_safe [simp]:
  "off + n \<le> length xs \<Longrightarrow> slice_at xs off n = Some (take n (drop off xs))"
  by (simp add: slice_at_def)

lemma slice_at_SomeD:
  assumes "slice_at xs i n = Some ys"
  shows "drop i xs = ys @ drop (i + n) xs" and "length ys = n"
  using assms append_take_drop_id [of n "drop i xs"]
  by (auto simp: slice_at_def add.commute split: if_splits)

lemma byte_at_append: "i < length xs \<Longrightarrow> byte_at (xs @ ys) i = Some (xs ! i)"
  by (simp add: byte_at_def nth_append)


section \<open>Words and their bytes\<close>

lemma word_u16_split:
  fixes v :: u16
  shows "push_bit 8 (ucast (ucast (drop_bit 8 v) :: u8)) OR ucast (ucast v :: u8) = v"
  by (rule bit_word_eqI) (auto simp: bit_simps)

lemma u8_high_bits: "8 \<le> n \<Longrightarrow> \<not> bit (w :: u8) n"
  using bit_imp_le_length [of w n] by auto

lemma word_u32_split:
  fixes v :: u32
  shows "push_bit 24 (ucast (ucast (drop_bit 24 v) :: u8)) OR
         push_bit 16 (ucast (ucast (drop_bit 16 v) :: u8)) OR
         push_bit 8 (ucast (ucast (drop_bit 8 v) :: u8)) OR
         ucast (ucast v :: u8) = v"
proof (rule bit_word_eqI)
  fix n assume "n < LENGTH(32)"
  then consider "n < 8" | "8 \<le> n \<and> n < 16" | "16 \<le> n \<and> n < 24" | "24 \<le> n \<and> n < 32"
    by fastforce
  then show "bit (push_bit 24 (ucast (ucast (drop_bit 24 v) :: u8)) OR
         push_bit 16 (ucast (ucast (drop_bit 16 v) :: u8)) OR
         push_bit 8 (ucast (ucast (drop_bit 8 v) :: u8)) OR
         ucast (ucast v :: u8) :: u32) n = bit v n"
    by cases (auto simp: bit_simps)
qed

lemma u16_bytes_back:
  fixes a b :: u8 and v :: u16
  assumes "v = push_bit 8 (ucast a) OR ucast b"
  shows "ucast (drop_bit 8 v) = a" and "ucast v = b"
  using assms by (auto intro!: bit_word_eqI simp: bit_simps u8_high_bits)

lemma u32_bytes_back:
  fixes a b c d :: u8 and v :: u32
  assumes "v = push_bit 24 (ucast a) OR push_bit 16 (ucast b) OR push_bit 8 (ucast c) OR ucast d"
  shows "ucast (drop_bit 24 v) = a" and "ucast (drop_bit 16 v) = b"
    and "ucast (drop_bit 8 v) = c" and "ucast v = d"
  using assms by (auto intro!: bit_word_eqI simp: bit_simps u8_high_bits)

lemma unat_of_nat_u16 [simp]: "n < 65536 \<Longrightarrow> unat (word_of_nat n :: u16) = n"
  by (simp add: unat_of_nat)

lemma unat_of_nat_u32 [simp]: "n < 4294967296 \<Longrightarrow> unat (word_of_nat n :: u32) = n"
  by (simp add: unat_of_nat)

lemma unat_u16_bound: "unat (v :: u16) < 65536"
  by (rule order_less_le_trans [OF unsigned_less]) simp

lemma unat_u32_bound: "unat (v :: u32) < 4294967296"
  by (rule order_less_le_trans [OF unsigned_less]) simp


section \<open>Association lists as unordered maps\<close>

abbreviation keys :: "('k \<times> 'v) list \<Rightarrow> 'k list" where
  "keys \<equiv> map fst"

lemma map_of_AList_update [simp]: "map_of (AList.update k v al) = (map_of al)(k \<mapsto> v)"
  by (rule update_conv')

lemma map_of_AList_delete [simp]: "map_of (AList.delete k al) = (map_of al)(k := None)"
  by (rule delete_conv')

lemma distinct_keys_update: "distinct (keys al) \<Longrightarrow> distinct (keys (AList.update k v al))"
  by (rule distinct_update)

lemma distinct_keys_delete: "distinct (keys al) \<Longrightarrow> distinct (keys (AList.delete k al))"
  by (rule distinct_delete)

lemma map_of_filter_snd:
  assumes "distinct (keys al)"
  shows "map_of (filter (\<lambda>(k, v). P k v) al) k =
    (case map_of al k of None \<Rightarrow> None | Some v \<Rightarrow> if P k v then Some v else None)"
  using assms
  by (induction al) (auto split: option.splits dest: map_of_SomeD simp: rev_image_eqI)




lemma length_filter_update_existing:
  "map_of al k = Some w \<Longrightarrow> P (k, v) = P (k, w) \<Longrightarrow> length (filter P (AList.update k v al)) = length (filter P al)"
  by (induction al) (auto split: if_splits)

lemma nth_list_update_if: "j < length xs \<Longrightarrow> xs[i := x] ! j = (if j = i then x else xs ! j)"
  by (cases "i < length xs") (auto simp: nth_list_update)


section \<open>Splitting into chunks\<close>

text \<open>Both ends cut a byte stream into pieces of at most \<open>k\<close> bytes.\<close>

function chunks :: "nat \<Rightarrow> 'a list \<Rightarrow> 'a list list" where
  "chunks k xs = (if k = 0 \<or> xs = [] then [] else take k xs # chunks k (drop k xs))"
  by pat_completeness auto
termination by (relation "measure (length \<circ> snd)") auto

declare chunks.simps [simp del]

lemma chunks_Nil [simp]: "chunks k [] = []"
  by (simp add: chunks.simps)

lemma chunks_step: "0 < k \<Longrightarrow> xs \<noteq> [] \<Longrightarrow> chunks k xs = take k xs # chunks k (drop k xs)"
  by (simp add: chunks.simps [of k xs])

lemma concat_chunks: "0 < k \<Longrightarrow> concat (chunks k xs) = xs"
  by (induction k xs rule: chunks.induct) (subst chunks.simps, simp)

lemma chunks_bounds: "0 < k \<Longrightarrow> ch \<in> set (chunks k xs) \<Longrightarrow> ch \<noteq> [] \<and> length ch \<le> k"
proof (induction k xs rule: chunks.induct)
  case (1 k xs)
  then show ?case by (subst (asm) (2) chunks.simps) (auto split: if_splits)
qed


section \<open>Searching\<close>

text \<open>\<^verbatim>\<open>std::string::find\<close>: the first occurrence of \<open>needle\<close> at or after \<open>from\<close>.\<close>

fun find_str :: "'a list \<Rightarrow> 'a list \<Rightarrow> nat option" where
  "find_str needle [] = (if needle = [] then Some 0 else None)"
| "find_str needle (c # s) =
     (if take (length needle) (c # s) = needle then Some 0 else map_option Suc (find_str needle s))"

definition find_from :: "'a list \<Rightarrow> 'a list \<Rightarrow> nat \<Rightarrow> nat option" where
  "find_from needle s from = (if from > length s then None else map_option (\<lambda>i. from + i) (find_str needle (drop from s)))"


section \<open>Decimal printing\<close>

text \<open>\<^verbatim>\<open>std::to_string\<close> of an unsigned value.\<close>

definition digit_char :: "nat \<Rightarrow> char" where
  "digit_char d = char_of (48 + d)"

fun to_string :: "nat \<Rightarrow> string" where
  "to_string n = (if n < 10 then [digit_char n] else to_string (n div 10) @ [digit_char (n mod 10)])"

declare to_string.simps [simp del]

definition is_digit :: "char \<Rightarrow> bool" where
  "is_digit c \<longleftrightarrow> 48 \<le> (of_char c :: nat) \<and> (of_char c :: nat) \<le> 57"

lemma of_digit_char [simp]: "d < 10 \<Longrightarrow> (of_char (digit_char d) :: nat) = 48 + d"
  by (simp add: digit_char_def)

lemma is_digit_char: "d < 10 \<Longrightarrow> is_digit (digit_char d)"
  by (simp add: is_digit_def)

lemma to_string_digits: "\<forall>c \<in> set (to_string n). is_digit c"
proof (induction n rule: to_string.induct)
  case (1 n)
  then show ?case
    by (subst to_string.simps) (auto simp: is_digit_char)
qed

lemma to_string_nonempty [simp]: "to_string n \<noteq> []"
  by (subst to_string.simps) simp

text \<open>Reading the digits back, as \<^verbatim>\<open>std::stoul\<close> does (without its range check).\<close>

definition digits_value :: "string \<Rightarrow> nat" where
  "digits_value s = foldl (\<lambda>acc c. acc * 10 + (of_char c - 48)) 0 s"

lemma digits_value_snoc: "digits_value (s @ [c]) = digits_value s * 10 + (of_char c - 48)"
  by (simp add: digits_value_def)

lemma digits_value_to_string [simp]: "digits_value (to_string n) = n"
proof (induction n rule: to_string.induct)
  case (1 n)
  show ?case
  proof (cases "n < 10")
    case True
    then show ?thesis by (subst to_string.simps) (simp add: digits_value_def)
  next
    case False
    with 1 show ?thesis by (subst to_string.simps) (simp add: digits_value_snoc)
  qed
qed

lemma to_string_inject [simp]: "to_string m = to_string n \<longleftrightarrow> m = n"
  by (metis digits_value_to_string)



section \<open>Exceptions\<close>

text \<open>A throwing routine returns \<open>Inl\<close> of what it throws; \<open>bindE\<close> runs the rest otherwise.\<close>

fun bindE :: "'e + 'a \<Rightarrow> ('a \<Rightarrow> 'e + 'b) \<Rightarrow> 'e + 'b" where
  "bindE (Inl e) f = Inl e"
| "bindE (Inr x) f = f x"

lemma bindE_InlD: "bindE r f = Inl e \<Longrightarrow> r = Inl e \<or> (\<exists>x. r = Inr x \<and> f x = Inl e)"
  by (cases r) auto

lemma bindE_InrD: "bindE r f = Inr y \<Longrightarrow> \<exists>x. r = Inr x \<and> f x = Inr y"
  by (cases r) auto

end
