(* ===== verification/Egress_Config.thy ===== *)
theory Egress_Config
  imports Prelude "HOL-Library.Sublist"
begin

text \<open>
  The configuration loader of the egress node: \<^verbatim>\<open>ton-egress-node/include/config.hpp\<close> and
  \<^verbatim>\<open>ton-egress-node/src/config.cpp\<close>. The file is scanned with \<^verbatim>\<open>std::regex_search\<close>,
  not parsed: a pattern is a matcher on the front of the remaining text (the capture and what
  follows it), and a search tries every start position from the left. In each pattern the
  atom after \<^verbatim>\<open>\s*\<close> cannot match a blank and the atom after a negated class is the
  excluded character, so the greedy match is the only one and no backtracking is modelled.
\<close>

section \<open>Configuration records\<close>

record EgressConfig =
  eg_enabled :: bool
  max_payload_bytes :: u32
  allowed_ports :: "u16 list"
  block_private_ips :: bool

record Config =
  transport_backend :: string
  adnl_library_path :: string
  adnl_listen_address :: string
  private_key :: string
  listen_port :: u16
  max_streams :: u32
  idle_timeout_sec :: u32
  allowed_clients :: "string list"
  auth_token :: string
  auth_required :: bool
  egress :: EgressConfig

definition default_config :: Config where
  "default_config =
     \<lparr>transport_backend = ''adnl'', adnl_library_path = ''./libton_adnl_backend.so'',
      adnl_listen_address = ''0.0.0.0'', private_key = '''', listen_port = 30303, max_streams = 100,
      idle_timeout_sec = 60, allowed_clients = [], auth_token = '''', auth_required = False,
      egress = \<lparr>eg_enabled = True, max_payload_bytes = 65536,
                allowed_ports = [80, 443, 8080, 8443, 853], block_private_ips = True\<rparr>\<rparr>"

datatype config_error = Failed_To_Open string | Out_Of_Range


section \<open>Regular expressions of the loader\<close>

type_synonym 'a matcher = "string \<Rightarrow> ('a \<times> string) option"

definition quote_char :: char where "quote_char = CHR 0x22"

definition is_space :: "char \<Rightarrow> bool" where
  "is_space c \<longleftrightarrow> c \<in> {CHR 0x20, CHR 0x09, CHR 0x0A, CHR 0x0B, CHR 0x0C, CHR 0x0D}"

definition quoted :: "string \<Rightarrow> string" where
  "quoted key = quote_char # key @ [quote_char]"

text \<open>\<^verbatim>\<open>"key"\s*:\s*\<close>\<close>

definition match_key :: "string \<Rightarrow> unit matcher" where
  "match_key key s =
     (if prefix (quoted key) s then
        (case dropWhile is_space (drop (length (quoted key)) s) of
           [] \<Rightarrow> None
         | c # r \<Rightarrow> if c = CHR '':'' then Some ((), dropWhile is_space r) else None)
      else None)"

text \<open>\<^verbatim>\<open>"([^"]*)"\<close>\<close>

fun match_quoted :: "string matcher" where
  "match_quoted [] = None"
| "match_quoted (c # r) =
     (if c = quote_char then
        (case dropWhile (\<lambda>c. c \<noteq> quote_char) r of
           [] \<Rightarrow> None
         | _ # rest \<Rightarrow> Some (takeWhile (\<lambda>c. c \<noteq> quote_char) r, rest))
      else None)"

text \<open>\<^verbatim>\<open>([0-9]+)\<close>\<close>

definition match_digits :: "string matcher" where
  "match_digits s =
     (if takeWhile is_digit s = [] then None else Some (takeWhile is_digit s, dropWhile is_digit s))"

text \<open>\<^verbatim>\<open>(true|false)\<close>\<close>

definition match_bool :: "bool matcher" where
  "match_bool s =
     (if prefix ''true'' s then Some (True, drop 4 s)
      else if prefix ''false'' s then Some (False, drop 5 s) else None)"

text \<open>\<^verbatim>\<open>\[([^\]]*)\]\<close>\<close>

fun match_list :: "string matcher" where
  "match_list [] = None"
| "match_list (c # r) =
     (if c = CHR ''['' then
        (case dropWhile (\<lambda>c. c \<noteq> CHR '']'') r of
           [] \<Rightarrow> None
         | _ # rest \<Rightarrow> Some (takeWhile (\<lambda>c. c \<noteq> CHR '']'') r, rest))
      else None)"

definition match_then :: "'a matcher \<Rightarrow> 'b matcher \<Rightarrow> 'b matcher" where
  "match_then m n s = (case m s of None \<Rightarrow> None | Some (_, r) \<Rightarrow> n r)"

fun regex_search :: "'a matcher \<Rightarrow> string \<Rightarrow> 'a option" where
  "regex_search m [] = map_option fst (m [])"
| "regex_search m (c # s) =
     (case m (c # s) of Some (x, _) \<Rightarrow> Some x | None \<Rightarrow> regex_search m s)"

text \<open>\<^verbatim>\<open>std::sregex_iterator\<close>: successive non-overlapping matches. The two item patterns
  match at least one character, so the guard on the rest never stops the scan.\<close>

fun regex_all :: "'a matcher \<Rightarrow> string \<Rightarrow> 'a list" where
  "regex_all m [] = []"
| "regex_all m (c # s) =
     (case m (c # s) of
        None \<Rightarrow> regex_all m s
      | Some (x, r) \<Rightarrow> if length r < length (c # s) then x # regex_all m r else [x])"


section \<open>Field extraction\<close>

definition extractString :: "string \<Rightarrow> string \<Rightarrow> string \<Rightarrow> string" where
  "extractString src key fallback =
     (case regex_search (match_then (match_key key) match_quoted) src of
        Some v \<Rightarrow> v | None \<Rightarrow> fallback)"

text \<open>\<^verbatim>\<open>std::stoul\<close> on a non-empty digit string; \<^verbatim>\<open>unsigned long\<close> has 64 bits on Linux.\<close>

definition stoul :: "string \<Rightarrow> config_error + nat" where
  "stoul s = (if digits_value s < 2 ^ 64 then Inr (digits_value s) else Inl Out_Of_Range)"

definition extractUint :: "string \<Rightarrow> string \<Rightarrow> u32 \<Rightarrow> config_error + u32" where
  "extractUint src key fallback =
     (case regex_search (match_then (match_key key) match_digits) src of
        Some v \<Rightarrow> bindE (stoul v) (\<lambda>n. Inr (word_of_nat n))
      | None \<Rightarrow> Inr fallback)"

definition extractBool :: "string \<Rightarrow> string \<Rightarrow> bool \<Rightarrow> bool" where
  "extractBool src key fallback =
     (case regex_search (match_then (match_key key) match_bool) src of
        Some v \<Rightarrow> v | None \<Rightarrow> fallback)"

definition extractStringArray :: "string \<Rightarrow> string \<Rightarrow> string list" where
  "extractStringArray src key =
     (case regex_search (match_then (match_key key) match_list) src of
        None \<Rightarrow> [] | Some body \<Rightarrow> regex_all match_quoted body)"

fun collect_ports :: "string list \<Rightarrow> u16 list \<Rightarrow> config_error + u16 list" where
  "collect_ports [] out = Inr out"
| "collect_ports (d # ds) out =
     bindE (stoul d) (\<lambda>n. let value = word_of_nat n :: u32 in
       if value \<le> 65535 then collect_ports ds (out @ [ucast value]) else collect_ports ds out)"

definition extractUint16Array :: "string \<Rightarrow> string \<Rightarrow> config_error + u16 list" where
  "extractUint16Array src key =
     (case regex_search (match_then (match_key key) match_list) src of
        None \<Rightarrow> Inr [] | Some body \<Rightarrow> collect_ports (regex_all match_digits body) [])"

text \<open>\<open>file\<close> is the content of the file at \<open>path\<close>, \<open>None\<close> when it cannot be opened.\<close>

definition readAll :: "string \<Rightarrow> string option \<Rightarrow> config_error + string" where
  "readAll path file =
     (case file of None \<Rightarrow> Inl (Failed_To_Open (''failed to open config: '' @ path)) | Some s \<Rightarrow> Inr s)"

definition loadConfigOrThrow :: "string \<Rightarrow> string option \<Rightarrow> config_error + Config" where
  "loadConfigOrThrow path file =
     bindE (readAll path file) (\<lambda>raw.
     let cfg = default_config;
         cfg = cfg\<lparr>transport_backend := extractString raw ''transport_backend'' (transport_backend cfg)\<rparr>;
         cfg = cfg\<lparr>adnl_library_path := extractString raw ''adnl_library_path'' (adnl_library_path cfg)\<rparr>;
         cfg = cfg\<lparr>adnl_library_path := extractString raw ''adnl_backend_library'' (adnl_library_path cfg)\<rparr>;
         cfg = cfg\<lparr>adnl_listen_address := extractString raw ''adnl_listen_address'' (adnl_listen_address cfg)\<rparr>;
         cfg = cfg\<lparr>private_key := extractString raw ''private_key'' ''''\<rparr>
     in bindE (extractUint raw ''listen_port'' (ucast (listen_port cfg))) (\<lambda>lp.
     let cfg = cfg\<lparr>listen_port := ucast lp\<rparr>
     in bindE (extractUint raw ''max_streams'' (max_streams cfg)) (\<lambda>ms.
     let cfg = cfg\<lparr>max_streams := ms\<rparr>
     in bindE (extractUint raw ''idle_timeout_sec'' (idle_timeout_sec cfg)) (\<lambda>it.
     let cfg = cfg\<lparr>idle_timeout_sec := it\<rparr>;
         cfg = cfg\<lparr>allowed_clients := extractStringArray raw ''allowed_clients''\<rparr>;
         cfg = cfg\<lparr>auth_token := extractString raw ''auth_token'' ''''\<rparr>;
         cfg = cfg\<lparr>auth_required := extractBool raw ''auth_required'' (auth_required cfg)\<rparr>;
         eg = egress cfg;
         eg = eg\<lparr>eg_enabled := extractBool raw ''enabled'' (eg_enabled eg)\<rparr>
     in bindE (extractUint raw ''max_payload_bytes'' (max_payload_bytes eg)) (\<lambda>mp.
     let eg = eg\<lparr>max_payload_bytes := mp\<rparr>;
         eg = eg\<lparr>block_private_ips := extractBool raw ''block_private_ips'' (block_private_ips eg)\<rparr>
     in bindE (extractUint16Array raw ''allowed_ports'') (\<lambda>ports.
     let eg = (if ports \<noteq> [] then eg\<lparr>allowed_ports := ports\<rparr> else eg)
     in Inr (cfg\<lparr>egress := eg\<rparr>)))))))"


section \<open>What a search finds\<close>

lemma regex_search_first:
  assumes "\<And>i. i < length pre \<Longrightarrow> m (drop i (pre @ s)) = None" and "m s = Some (x, r)"
  shows "regex_search m (pre @ s) = Some x"
  using assms
proof (induction pre)
  case Nil
  then show ?case by (cases s) auto
next
  case (Cons c pre)
  have "m ((c # pre) @ s) = None" using Cons.prems(1) [of 0] by simp
  moreover have "regex_search m (pre @ s) = Some x"
    using Cons.prems(1) [of "Suc _"] Cons.prems(2) by (intro Cons.IH) simp_all
  ultimately show ?case by simp
qed

lemma regex_search_none:
  assumes "\<And>i. i \<le> length s \<Longrightarrow> m (drop i s) = None"
  shows "regex_search m s = None"
  using assms
proof (induction s)
  case Nil
  then show ?case using Nil.prems [of 0] by simp
next
  case (Cons c s)
  have "m (c # s) = None" using Cons.prems [of 0] by simp
  moreover have "regex_search m s = None"
    using Cons.prems [of "Suc _"] by (intro Cons.IH) simp
  ultimately show ?case by simp
qed

lemma dropWhile_spaces: "\<forall>c \<in> set w. is_space c \<Longrightarrow> \<not> is_space d \<Longrightarrow> dropWhile is_space (w @ d # r) = d # r"
  by (induction w) auto

lemma match_key_at:
  assumes "\<forall>c \<in> set w1. is_space c" "\<forall>c \<in> set w2. is_space c" "\<not> is_space d"
  shows "match_key key (quoted key @ w1 @ CHR '':'' # w2 @ d # r) = Some ((), d # r)"
  using assms by (simp add: match_key_def dropWhile_spaces is_space_def)

lemma match_key_None: "\<not> prefix (quoted key) s \<Longrightarrow> match_then (match_key key) m s = None"
  by (simp add: match_then_def match_key_def)

lemma field_found:
  assumes first: "\<And>i. i < length pre \<Longrightarrow> \<not> prefix (quoted key) (drop i src)"
    and src: "src = pre @ quoted key @ w1 @ CHR '':'' # w2 @ d # r"
    and ws: "\<forall>c \<in> set w1. is_space c" "\<forall>c \<in> set w2. is_space c" "\<not> is_space d"
    and m: "m (d # r) = Some (x, rest)"
  shows "regex_search (match_then (match_key key) m) src = Some x"
  unfolding src
proof (rule regex_search_first)
  fix i assume "i < length pre"
  from first [OF this] show
    "match_then (match_key key) m (drop i (pre @ quoted key @ w1 @ CHR '':'' # w2 @ d # r)) = None"
    unfolding src by (rule match_key_None)
next
  show "match_then (match_key key) m (quoted key @ w1 @ CHR '':'' # w2 @ d # r) = Some (x, rest)"
    using m by (simp only: match_then_def match_key_at [OF ws] option.case prod.case)
qed

lemma takeWhile_stop: "\<forall>c \<in> set v. P c \<Longrightarrow> \<not> P d \<Longrightarrow> takeWhile P (v @ d # r) = v \<and> dropWhile P (v @ d # r) = d # r"
  by (induction v) auto

lemma extractString_found:
  assumes first: "\<And>i. i < length pre \<Longrightarrow> \<not> prefix (quoted key) (drop i src)"
    and ws: "\<forall>c \<in> set w1. is_space c" "\<forall>c \<in> set w2. is_space c"
    and src: "src = pre @ quoted key @ w1 @ CHR '':'' # w2 @ quoted v @ post" and q: "quote_char \<notin> set v"
  shows "extractString src key fallback = v"
proof -
  from q have "\<forall>c \<in> set v. c \<noteq> quote_char" by auto
  then have "match_quoted (quote_char # v @ quote_char # post) = Some (v, post)"
    using takeWhile_stop [of v "\<lambda>c. c \<noteq> quote_char" quote_char post] by simp
  then have "regex_search (match_then (match_key key) match_quoted) src = Some v"
    using src by (intro field_found [OF first _ ws]) (auto simp: quoted_def quote_char_def is_space_def)
  then show ?thesis by (simp add: extractString_def)
qed

lemma extractUint_found:
  assumes first: "\<And>i. i < length pre \<Longrightarrow> \<not> prefix (quoted key) (drop i src)"
    and ws: "\<forall>c \<in> set w1. is_space c" "\<forall>c \<in> set w2. is_space c"
    and src: "src = pre @ quoted key @ w1 @ CHR '':'' # w2 @ to_string n @ c # post"
    and c: "\<not> is_digit c" and n: "n < 2 ^ 64"
  shows "extractUint src key dflt = Inr (word_of_nat n)"
proof -
  obtain d ds where dd: "to_string n = d # ds" by (cases "to_string n") auto
  have "match_digits (d # ds @ c # post) = Some (to_string n, c # post)"
    using takeWhile_stop [OF to_string_digits c, of n post] dd by (simp add: match_digits_def)
  moreover have "\<not> is_space d"
    using to_string_digits [of n] dd by (auto simp: is_digit_def is_space_def)
  ultimately have "regex_search (match_then (match_key key) match_digits) src = Some (to_string n)"
    using src dd by (intro field_found [OF first _ ws]) auto
  then show ?thesis
    using n by (simp add: extractUint_def stoul_def)
qed

text \<open>Field lookup: the first occurrence of a quoted key, when a colon and a value of the
  right shape follow it, decides the field. A string is read verbatim up to the next quote; a
  number is read as decimal and truncated to 32 bits.\<close>

lemma config_lookup:
  assumes "\<forall>i < length pre. \<not> prefix (quoted key) (drop i (pre @ quoted key @ w1 @ CHR '':'' # w2 @ quoted v @ post))"
    and "\<forall>i < length pre'. \<not> prefix (quoted key) (drop i (pre' @ quoted key @ w1 @ CHR '':'' # w2 @ to_string n @ c # post))"
    and "\<forall>c \<in> set w1. is_space c" "\<forall>c \<in> set w2. is_space c"
    and "quote_char \<notin> set v" and "\<not> is_digit c" and "n < 2 ^ 64"
  shows "extractString (pre @ quoted key @ w1 @ CHR '':'' # w2 @ quoted v @ post) key fallback = v \<and>
    extractUint (pre' @ quoted key @ w1 @ CHR '':'' # w2 @ to_string n @ c # post) key dflt = Inr (word_of_nat n)"
proof
  show "extractString (pre @ quoted key @ w1 @ CHR '':'' # w2 @ quoted v @ post) key fallback = v"
    by (rule extractString_found [OF _ assms(3,4) refl assms(5)]) (use assms(1) in blast)
  show "extractUint (pre' @ quoted key @ w1 @ CHR '':'' # w2 @ to_string n @ c # post) key dflt = Inr (word_of_nat n)"
    by (rule extractUint_found [OF _ assms(3,4) refl assms(6,7)]) (use assms(2) in blast)
qed

lemma config_lookup_witness:
  "extractString (''{'' @ quoted ''auth_token'' @ '':'' @ '' '' @ quoted ''s3cret'' @ ''}'') ''auth_token'' [] = ''s3cret''
   \<and> extractUint (''{'' @ quoted ''auth_token'' @ '':'' @ '' '' @ to_string 4294967299 @ ''}}'') ''auth_token'' 60 = Inr 3"
  using config_lookup [of "''{''" "''auth_token''" "[]" "'' ''" "''s3cret''" "''}''" "''{''" 4294967299
      "CHR 0x7D" "[]" 60]
  by (simp add: quoted_def quote_char_def is_space_def is_digit_def)

section \<open>Defaults, failures and the port list\<close>

lemma no_quote_no_key: "quote_char \<notin> set s \<Longrightarrow> \<not> prefix (quoted key) (drop i s)"
  by (auto simp: quoted_def prefix_def dest: in_set_dropD)
     (metis in_set_dropD list.set_intros(1))

lemma no_quote_search: "quote_char \<notin> set s \<Longrightarrow> regex_search (match_then (match_key key) m) s = None"
  by (intro regex_search_none match_key_None no_quote_no_key)

lemma no_quote_fields:
  assumes "quote_char \<notin> set raw"
  shows "extractString raw key f = f" and "extractUint raw key d = Inr d" and "extractBool raw key b = b"
    and "extractStringArray raw key = []" and "extractUint16Array raw key = Inr []"
  by (simp_all add: extractString_def extractUint_def extractBool_def extractStringArray_def
      extractUint16Array_def no_quote_search [OF assms])

lemma load_without_keys:
  assumes "quote_char \<notin> set raw"
  shows "loadConfigOrThrow path (Some raw) = Inr default_config"
  by (simp add: loadConfigOrThrow_def readAll_def no_quote_fields [OF assms] default_config_def Let_def)

text \<open>A file without any quoted key (an empty file, for instance) loads without error and
  gives the built-in defaults: ADNL transport, port 30303, 100 streams, 60 s idle timeout,
  authentication off, private addresses blocked.\<close>

lemma empty_config_gives_defaults:
  assumes "quote_char \<notin> set raw"
  shows "loadConfigOrThrow path (Some raw) = Inr default_config"
  using assms by (rule load_without_keys)

lemma empty_config_gives_defaults_witness:
  "loadConfigOrThrow ''config.json'' (Some ''{ }'') = Inr default_config"
  by (rule empty_config_gives_defaults) (simp add: quote_char_def)

lemma stoul_error: "stoul s = Inl e \<Longrightarrow> e = Out_Of_Range"
  by (auto simp: stoul_def split: if_splits)

lemma extractUint_error: "extractUint src key d = Inl e \<Longrightarrow> e = Out_Of_Range"
  by (auto simp: extractUint_def dest!: bindE_InlD stoul_error split: option.splits)

lemma collect_ports_error: "collect_ports ds out = Inl e \<Longrightarrow> e = Out_Of_Range"
  by (induction ds arbitrary: out) (auto simp: Let_def dest!: bindE_InlD stoul_error split: if_splits)

lemma extractUint16Array_error: "extractUint16Array src key = Inl e \<Longrightarrow> e = Out_Of_Range"
  by (auto simp: extractUint16Array_def dest: collect_ports_error split: option.splits)

text \<open>Loading fails in two ways only: the file cannot be opened, or a number in it does not
  fit 64 bits. Whatever the text, a configuration that does load has a non-empty port list: an
  explicit empty list, like a missing one, means the default ports.\<close>

lemma config_load_outcomes:
  "(case loadConfigOrThrow path content of
      Inl e \<Rightarrow> (content = None \<and> e = Failed_To_Open (''failed to open config: '' @ path)) \<or>
               (content \<noteq> None \<and> e = Out_Of_Range)
    | Inr cfg \<Rightarrow> content \<noteq> None \<and> allowed_ports (egress cfg) \<noteq> [])"
proof (cases "loadConfigOrThrow path content")
  case (Inl e)
  then show ?thesis
    by (cases content)
       (auto simp: loadConfigOrThrow_def readAll_def Let_def
          dest!: bindE_InlD extractUint_error extractUint16Array_error split: if_splits)
next
  case (Inr cfg)
  then show ?thesis
    by (cases content)
       (auto simp: loadConfigOrThrow_def readAll_def Let_def default_config_def
          dest!: bindE_InrD split: if_splits)
qed

lemma word_of_nat_le_port: "(word_of_nat n :: u32) \<le> 65535 \<longleftrightarrow> n mod 2 ^ 32 \<le> 65535"
  by (simp add: word_le_nat_alt unat_of_nat)

lemma ucast_u16_of_nat: "ucast (word_of_nat n :: u32) = (word_of_nat n :: u16)"
  by (rule bit_word_eqI) (auto simp: bit_simps)

text \<open>The range check on \<open>allowed_ports\<close> comes after the truncation to 32 bits: a number
  above 65535 is dropped only when its residue modulo \<open>2 ^ 32\<close> is, so a large one can open
  a port that is not in the file, such as 80 for \<open>2 ^ 32 + 80\<close>.\<close>

lemma allowed_ports_wraparound:
  "collect_ports (d # ds) out =
     (if digits_value d \<ge> 2 ^ 64 then Inl Out_Of_Range
      else if digits_value d mod 2 ^ 32 \<le> 65535
      then collect_ports ds (out @ [word_of_nat (digits_value d)])
      else collect_ports ds out)
   \<and> collect_ports [to_string (2 ^ 32 + 80)] [] = Inr [80]"
proof
  show "collect_ports (d # ds) out =
     (if digits_value d \<ge> 2 ^ 64 then Inl Out_Of_Range
      else if digits_value d mod 2 ^ 32 \<le> 65535
      then collect_ports ds (out @ [word_of_nat (digits_value d)])
      else collect_ports ds out)"
    by (simp add: stoul_def Let_def word_of_nat_le_port ucast_u16_of_nat)
  show "collect_ports [to_string (2 ^ 32 + 80)] [] = Inr [80]"
    by (simp add: stoul_def Let_def)
qed

end
