(* ===== verification/Desktop_Config.thy ===== *)
theory Desktop_Config
  imports Egress_Config
begin

text \<open>
  The desktop application's configuration, from \<^verbatim>\<open>TON-Tunnel/TON-Tunnel.cpp\<close>: the field
  extractor, the merge of up to three files and the file written after a fallback. File
  contents are arguments (\<open>[]\<close> for a file that cannot be read). \<open>quote_char\<close> and
  \<open>backslash\<close> are the characters 34 and 92; paths are narrow strings here.
\<close>

definition backslash :: char where "backslash = CHR 0x5C"

definition newline :: char where "newline = CHR 0x0A"

function quote_end :: "string \<Rightarrow> nat \<Rightarrow> nat" where
  "quote_end json q =
     (if q < length json then
        if json ! q = quote_char \<and> json ! (q - 1) \<noteq> backslash then q else quote_end json (q + 1)
      else q)"
  by pat_completeness auto
termination by (relation "measure (\<lambda>(json, q). length json - q)") auto

declare quote_end.simps [simp del]

definition extractJsonStringField :: "string \<Rightarrow> string \<Rightarrow> string" where
  "extractJsonStringField json key =
     (let needle = [quote_char] @ key @ [quote_char] in
      case find_from needle json 0 of
        None \<Rightarrow> []
      | Some keyPos \<Rightarrow>
          (case find_from '':'' json (keyPos + length needle) of
             None \<Rightarrow> []
           | Some colonPos \<Rightarrow>
               (case find_from [quote_char] json (colonPos + 1) of
                  None \<Rightarrow> []
                | Some quoteStart \<Rightarrow>
                    let quoteEnd = quote_end json (quoteStart + 1) in
                    if quoteEnd \<ge> length json then []
                    else take (quoteEnd - quoteStart - 1) (drop (quoteStart + 1) json))))"

definition joinPath :: "string \<Rightarrow> string \<Rightarrow> string" where
  "joinPath a b =
     (if a = [] then b
      else if last a = backslash \<or> last a = CHR ''/'' then a @ b
      else a @ [backslash] @ b)"

definition extractVpsIpFromEgress :: "string \<Rightarrow> string" where
  "extractVpsIpFromEgress address =
     (case find_from ''@'' address 0 of
        None \<Rightarrow> []
      | Some atPos \<Rightarrow>
          (case find_from '':'' address atPos of
             None \<Rightarrow> []
           | Some colonPos \<Rightarrow> take (colonPos - atPos - 1) (drop (atPos + 1) address)))"


section \<open>Loading\<close>

record RuntimeConfig =
  rc_egress :: string
  rc_clientKey :: string
  rc_advertiseHost :: string
  rc_authToken :: string
  rc_socksPort :: u16

definition default_runtime_config :: RuntimeConfig where
  "default_runtime_config = \<lparr>rc_egress = [], rc_clientKey = [], rc_advertiseHost = [], rc_authToken = [],
     rc_socksPort = 1080\<rparr>"

text \<open>\<^verbatim>\<open>std::atoi\<close>: leading blanks, an optional sign, digits; out of range it is clamped.\<close>

definition atoi :: "string \<Rightarrow> int" where
  "atoi s =
     (let s = dropWhile is_space s;
          neg = (s \<noteq> [] \<and> hd s = CHR ''-'');
          s = (if s \<noteq> [] \<and> (hd s = CHR ''-'' \<or> hd s = CHR ''+'') then tl s else s);
          v = int (digits_value (takeWhile is_digit s))
      in if neg then max (- (2 ^ 31)) (- v) else min (2 ^ 31 - 1) v)"

definition loadFromJson :: "string \<Rightarrow> RuntimeConfig \<Rightarrow> RuntimeConfig" where
  "loadFromJson json cfg =
     (let cfg = (if rc_egress cfg = [] then cfg\<lparr>rc_egress := extractJsonStringField json ''egress_adnl_address''\<rparr> else cfg);
          cfg = (if rc_clientKey cfg = [] then cfg\<lparr>rc_clientKey := extractJsonStringField json ''client_private_key''\<rparr> else cfg);
          cfg = (if rc_advertiseHost cfg = []
                 then cfg\<lparr>rc_advertiseHost := extractJsonStringField json ''local_udp_advertise_host''\<rparr> else cfg);
          cfg = (if rc_authToken cfg = [] then cfg\<lparr>rc_authToken := extractJsonStringField json ''auth_token''\<rparr> else cfg)
      in if rc_socksPort cfg = 1080 then
           let socksPortStr = extractJsonStringField json ''socks5_port'' in
           if socksPortStr \<noteq> [] then
             let p = atoi (c_str socksPortStr) in
             if p > 0 \<and> p \<le> 65535 then cfg\<lparr>rc_socksPort := word_of_int p\<rparr> else cfg
           else cfg
         else cfg)"

definition incomplete :: "RuntimeConfig \<Rightarrow> bool" where
  "incomplete cfg \<longleftrightarrow> rc_egress cfg = [] \<or> rc_clientKey cfg = [] \<or> rc_authToken cfg = []"

definition config_line :: "string \<Rightarrow> string \<Rightarrow> string" where
  "config_line key val = ''  '' @ [quote_char] @ key @ [quote_char] @ '': '' @ [quote_char] @ val @ [quote_char]"

definition fallback_config :: "RuntimeConfig \<Rightarrow> string" where
  "fallback_config cfg =
     ''{'' @ [newline]
     @ config_line ''egress_adnl_address'' (rc_egress cfg) @ '','' @ [newline]
     @ config_line ''local_udp_advertise_host'' (rc_advertiseHost cfg) @ '','' @ [newline]
     @ config_line ''client_private_key'' (rc_clientKey cfg) @ '','' @ [newline]
     @ config_line ''auth_token'' (rc_authToken cfg) @ '','' @ [newline]
     @ config_line ''socks5_port'' (to_string (unat (rc_socksPort cfg))) @ [newline]
     @ ''}'' @ [newline]"

definition config_error :: string where
  "config_error = ''Config missing egress_adnl_address/client_private_key.'' @ [newline]
     @ ''Put adnl-transport-config.json near TON-Tunnel.exe''"

text \<open>The result carries the file to be written next to the executable, if any.\<close>

definition loadRuntimeConfig ::
  "string \<Rightarrow> string \<Rightarrow> string \<Rightarrow> RuntimeConfig \<Rightarrow> string + RuntimeConfig \<times> string option" where
  "loadRuntimeConfig exeCfg cwdCfg androidRaw cfg =
     (let cfg = (if exeCfg \<noteq> [] then loadFromJson exeCfg cfg else cfg);
          cfg = (if incomplete cfg \<and> cwdCfg \<noteq> [] then loadFromJson cwdCfg cfg else cfg);
          fallback = (incomplete cfg \<and> androidRaw \<noteq> []);
          cfg = (if fallback then loadFromJson androidRaw cfg else cfg)
      in if rc_egress cfg = [] \<or> rc_clientKey cfg = [] then Inl config_error
         else Inr (cfg, if fallback then Some (fallback_config cfg) else None))"


section \<open>The written file is read back\<close>

abbreviation unquoted :: "string \<Rightarrow> bool" where
  "unquoted s \<equiv> quote_char \<notin> set s"

lemma find_str_skip:
  assumes "unquoted s"
  shows "find_str (quote_char # x) (s @ r) = map_option (\<lambda>i. length s + i) (find_str (quote_char # x) r)"
  using assms
proof (induction s)
  case Nil
  then show ?case by (simp add: option.map_ident)
next
  case (Cons c s)
  then show ?case by (auto simp: option.map_comp comp_def)
qed

lemma unquoted_prefix_eq:
  assumes "unquoted k" "unquoted s" "take (length k + 1) (s @ quote_char # r) = k @ [quote_char]"
  shows "s = k"
proof -
  have "takeWhile (\<lambda>c. c \<noteq> quote_char) (k @ quote_char # drop (length k + 1) (s @ quote_char # r)) = k"
    using assms(1) by (subst takeWhile_append2) auto
  moreover have "k @ quote_char # drop (length k + 1) (s @ quote_char # r) = s @ quote_char # r"
    using append_take_drop_id [of "length k + 1" "s @ quote_char # r"] unfolding assms(3) by simp
  moreover have "takeWhile (\<lambda>c. c \<noteq> quote_char) (s @ quote_char # r) = s"
    using assms(2) by (subst takeWhile_append2) auto
  ultimately show ?thesis by simp
qed

text \<open>Between two quotes: the key that is looked for, or something else.\<close>

lemma find_key_here: "find_str (quote_char # k @ [quote_char]) (quote_char # k @ quote_char # r) = Some 0"
  by simp

lemma find_key_not_here:
  assumes "unquoted k" "unquoted s" "s \<noteq> k"
  shows "find_str (quote_char # k @ [quote_char]) (quote_char # s @ quote_char # r)
       = map_option (\<lambda>i. Suc (length s) + i) (find_str (quote_char # k @ [quote_char]) (quote_char # r))"
proof -
  have "take (length k + 1) (s @ quote_char # r) \<noteq> k @ [quote_char]"
    using unquoted_prefix_eq [OF assms(1,2), of r] assms(3) by auto
  then have "find_str (quote_char # k @ [quote_char]) (quote_char # s @ quote_char # r)
      = map_option Suc (find_str (quote_char # k @ [quote_char]) (s @ quote_char # r))"
    by simp
  then show ?thesis
    by (simp only: find_str_skip [OF assms(2)] option.map_comp comp_def) simp
qed

lemma quote_end_found:
  assumes "unquoted v" "backslash \<notin> set v" "c \<noteq> backslash"
  shows "quote_end (A @ c # v @ quote_char # R) (length A + 1) = length A + 1 + length v"
  using assms
proof (induction v arbitrary: A c)
  case Nil
  then show ?case by (subst quote_end.simps) (simp add: nth_append)
next
  case (Cons d v)
  have "quote_end (A @ c # (d # v) @ quote_char # R) (length A + 1)
      = quote_end ((A @ [c]) @ d # v @ quote_char # R) (length (A @ [c]) + 1)"
    using Cons.prems by (subst quote_end.simps) (auto simp: nth_append)
  also have "\<dots> = length (A @ [c]) + 1 + length v"
    using Cons.prems by (intro Cons.IH) auto
  finally show ?case by simp
qed

lemma find_from_append: "length A = n \<Longrightarrow> find_from x (A @ B) n = map_option (\<lambda>i. n + i) (find_str x B)"
  by (auto simp: find_from_def)

lemma extract_found:
  assumes first: "find_str (quote_char # key @ [quote_char]) json = Some (length A)"
    and json: "json = A @ quote_char # key @ quote_char # '': '' @ quote_char # v @ quote_char # R"
    and v: "unquoted v" "backslash \<notin> set v"
  shows "extractJsonStringField json key = v"
proof -
  let ?n = "quote_char # key @ [quote_char]"
  have 1: "find_from ?n json 0 = Some (length A)" using first by (simp add: find_from_def)
  have 2: "find_from '':'' json (length A + length ?n) = Some (length A + length ?n)"
    using find_from_append [of "A @ ?n" "length A + length ?n" "'':''" "'': '' @ quote_char # v @ quote_char # R"]
    by (simp add: json)
  have "find_str [quote_char] ('' '' @ quote_char # v @ quote_char # R) = Some 1"
    by (simp add: quote_char_def)
  then have 3: "find_from [quote_char] json (length A + length ?n + 1) = Some (length A + length ?n + 2)"
    using find_from_append [of "A @ ?n @ '':''" "length A + length ?n + 1" "[quote_char]" "'' '' @ quote_char # v @ quote_char # R"]
    by (simp add: json)
  have 4: "quote_end json (length A + length ?n + 3) = length A + length ?n + 3 + length v"
    using quote_end_found [OF v, of quote_char "A @ ?n @ '': ''" R]
    by (simp add: json quote_char_def backslash_def numeral_eq_Suc)
  have "take (length v) (drop (length A + length ?n + 3) json) = v"
    by (simp add: json numeral_eq_Suc)
  moreover have "length json > length A + length ?n + 3 + length v" by (simp add: json)
  ultimately show ?thesis
    using 1 2 3 4 by (simp add: extractJsonStringField_def Let_def numeral_eq_Suc)
qed

definition config_keys :: "string list" where
  "config_keys = [''egress_adnl_address'', ''local_udp_advertise_host'', ''client_private_key'', ''auth_token'', ''socks5_port'']"

definition clean :: "string \<Rightarrow> bool" where
  "clean v \<longleftrightarrow> unquoted v \<and> backslash \<notin> set v \<and> v \<notin> set config_keys"

text \<open>The file as its pieces between quotes.\<close>

fun quoted_pieces :: "string list \<Rightarrow> string" where
  "quoted_pieces [] = []"
| "quoted_pieces (p # ps) = quote_char # p @ quoted_pieces ps"

definition between_lines :: string where
  "between_lines = '','' @ [newline] @ ''  ''"

definition config_pieces :: "RuntimeConfig \<Rightarrow> string list" where
  "config_pieces cfg =
     [''egress_adnl_address'', '': '', rc_egress cfg, between_lines,
      ''local_udp_advertise_host'', '': '', rc_advertiseHost cfg, between_lines,
      ''client_private_key'', '': '', rc_clientKey cfg, between_lines,
      ''auth_token'', '': '', rc_authToken cfg, between_lines,
      ''socks5_port'', '': '', to_string (unat (rc_socksPort cfg)), newline # ''}'' @ [newline]]"

lemma fallback_config_pieces: "fallback_config cfg = (''{'' @ [newline] @ ''  '') @ quoted_pieces (config_pieces cfg)"
  by (simp add: fallback_config_def config_line_def config_pieces_def between_lines_def)

lemma quoted_pieces_append: "quoted_pieces (ps @ qs) = quoted_pieces ps @ quoted_pieces qs"
  by (induction ps) simp_all

lemma find_among_pieces:
  assumes "\<forall>p \<in> set ps. unquoted p \<and> p \<noteq> k" "unquoted k"
  shows "find_str (quote_char # k @ [quote_char]) (quoted_pieces ps @ quote_char # k @ quote_char # r)
       = Some (length (quoted_pieces ps))"
  using assms
proof (induction ps)
  case Nil
  then show ?case using find_key_here by simp
next
  case (Cons p ps)
  then have IH: "find_str (quote_char # k @ [quote_char]) (quoted_pieces ps @ quote_char # k @ quote_char # r)
      = Some (length (quoted_pieces ps))" by simp
  obtain r' where r': "quoted_pieces ps @ quote_char # k @ quote_char # r = quote_char # r'" by (cases ps) auto
  have "find_str (quote_char # k @ [quote_char]) (quote_char # p @ quote_char # r')
      = map_option (\<lambda>i. Suc (length p) + i) (find_str (quote_char # k @ [quote_char]) (quote_char # r'))"
    using Cons.prems by (intro find_key_not_here) auto
  with IH r' show ?case by simp
qed

lemma extract_among_pieces:
  assumes "unquoted front" "\<forall>p \<in> set ps. unquoted p \<and> p \<noteq> k" "unquoted k" "unquoted v" "backslash \<notin> set v" "qs \<noteq> []"
  shows "extractJsonStringField (front @ quoted_pieces (ps @ [k, '': '', v] @ qs)) k = v"
proof -
  obtain q qs' where qs: "qs = q # qs'" using assms(6) by (cases qs) auto
  let ?r = "'': '' @ quote_char # v @ quote_char # q @ quoted_pieces qs'"
  have json: "front @ quoted_pieces (ps @ [k, '': '', v] @ qs)
      = (front @ quoted_pieces ps) @ quote_char # k @ quote_char # ?r"
    by (simp add: quoted_pieces_append qs)
  have "find_str (quote_char # k @ [quote_char]) (front @ quoted_pieces ps @ quote_char # k @ quote_char # ?r)
      = Some (length front + length (quoted_pieces ps))"
    using find_among_pieces [OF assms(2,3), of ?r] by (simp only: find_str_skip [OF assms(1)]) simp
  then show ?thesis
    using assms(4,5) unfolding json
    by (intro extract_found [where A = "front @ quoted_pieces ps" and R = "q @ quoted_pieces qs'"]) simp_all
qed

lemma fixed_pieces_clean:
  "unquoted ''egress_adnl_address''" "unquoted ''local_udp_advertise_host''" "unquoted ''client_private_key''"
  "unquoted ''auth_token''" "unquoted ''socks5_port''" "unquoted '': ''" "unquoted between_lines"
  "unquoted (''{'' @ [newline] @ ''  '')"
  by (simp_all add: quote_char_def between_lines_def newline_def)

lemma digits_clean: "unquoted (to_string n)" "backslash \<notin> set (to_string n)" "c_str (to_string n) = to_string n"
proof -
  have d: "is_digit c" if "c \<in> set (to_string n)" for c using to_string_digits that by blast
  then show "unquoted (to_string n)" "backslash \<notin> set (to_string n)"
    by (auto simp: quote_char_def backslash_def is_digit_def dest!: d)
  show "c_str (to_string n) = to_string n"
    by (rule c_str_id) (auto simp: is_digit_def dest!: d)
qed

lemma atoi_to_string: "n < 2 ^ 31 \<Longrightarrow> atoi (to_string n) = int n"
proof -
  assume n: "n < 2 ^ 31"
  have d: "is_digit c" if "c \<in> set (to_string n)" for c using to_string_digits that by blast
  obtain c cs where s: "to_string n = c # cs" by (cases "to_string n") auto
  then have c: "is_digit c" using d by simp
  then have "\<not> is_space c" "c \<noteq> CHR ''-''" "c \<noteq> CHR ''+''" by (auto simp: is_digit_def is_space_def)
  moreover have "takeWhile is_digit (c # cs) = c # cs" using d s by (auto simp: takeWhile_eq_all_conv)
  moreover have "digits_value (c # cs) = n" using digits_value_to_string [of n] s by simp
  ultimately show "atoi (to_string n) = int n" using n by (simp add: atoi_def s Let_def)
qed

lemma fallback_fields:
  assumes c: "clean (rc_egress cfg)" "clean (rc_advertiseHost cfg)" "clean (rc_clientKey cfg)" "clean (rc_authToken cfg)"
  shows "extractJsonStringField (fallback_config cfg) ''egress_adnl_address'' = rc_egress cfg"
    and "extractJsonStringField (fallback_config cfg) ''local_udp_advertise_host'' = rc_advertiseHost cfg"
    and "extractJsonStringField (fallback_config cfg) ''client_private_key'' = rc_clientKey cfg"
    and "extractJsonStringField (fallback_config cfg) ''auth_token'' = rc_authToken cfg"
    and "extractJsonStringField (fallback_config cfg) ''socks5_port'' = to_string (unat (rc_socksPort cfg))"
proof -
  let ?f = "''{'' @ [newline] @ ''  ''" and ?p = "config_pieces cfg"
  have cl: "unquoted v \<and> backslash \<notin> set v \<and> v \<noteq> ''egress_adnl_address'' \<and> v \<noteq> ''local_udp_advertise_host''
      \<and> v \<noteq> ''client_private_key'' \<and> v \<noteq> ''auth_token'' \<and> v \<noteq> ''socks5_port''" if "clean v" for v
    using that by (simp add: clean_def config_keys_def)
  note vals = cl [OF c(1)] cl [OF c(2)] cl [OF c(3)] cl [OF c(4)]
  have field: "extractJsonStringField (fallback_config cfg) k = v"
    if "?p = ps @ [k, '': '', v] @ qs" "\<forall>p \<in> set ps. unquoted p \<and> p \<noteq> k" "unquoted k" "unquoted v" "backslash \<notin> set v"
      "qs \<noteq> []" for ps qs k v
    unfolding fallback_config_pieces that(1)
    using extract_among_pieces [OF fixed_pieces_clean(8) that(2-6)] .
  show "extractJsonStringField (fallback_config cfg) ''egress_adnl_address'' = rc_egress cfg"
    by (rule field [of "[]" _ _ "drop 3 ?p"]) (use vals fixed_pieces_clean in \<open>simp_all add: config_pieces_def\<close>)
  show "extractJsonStringField (fallback_config cfg) ''local_udp_advertise_host'' = rc_advertiseHost cfg"
    by (rule field [of "take 4 ?p" _ _ "drop 7 ?p"])
       (use vals fixed_pieces_clean in \<open>simp_all add: config_pieces_def\<close>, simp add: between_lines_def)
  show "extractJsonStringField (fallback_config cfg) ''client_private_key'' = rc_clientKey cfg"
    by (rule field [of "take 8 ?p" _ _ "drop 11 ?p"])
       (use vals fixed_pieces_clean in \<open>simp_all add: config_pieces_def\<close>, simp add: between_lines_def)
  show "extractJsonStringField (fallback_config cfg) ''auth_token'' = rc_authToken cfg"
    by (rule field [of "take 12 ?p" _ _ "drop 15 ?p"])
       (use vals fixed_pieces_clean in \<open>simp_all add: config_pieces_def\<close>, simp add: between_lines_def)
  show "extractJsonStringField (fallback_config cfg) ''socks5_port'' = to_string (unat (rc_socksPort cfg))"
    by (rule field [of "take 16 ?p" _ _ "drop 19 ?p"])
       (use vals fixed_pieces_clean digits_clean in \<open>simp_all add: config_pieces_def\<close>, simp add: between_lines_def)
qed

lemma fallback_loads_back:
  assumes c: "clean (rc_egress cfg)" "clean (rc_advertiseHost cfg)" "clean (rc_clientKey cfg)" "clean (rc_authToken cfg)"
    and port: "rc_socksPort cfg \<noteq> 0"
  shows "loadFromJson (fallback_config cfg) default_runtime_config = cfg"
proof -
  have u: "unat (rc_socksPort cfg) < 65536" by (rule unat_u16_bound)
  have p: "atoi (c_str (to_string (unat (rc_socksPort cfg)))) = int (unat (rc_socksPort cfg))"
    using u by (simp add: digits_clean(3) atoi_to_string)
  have "uint (rc_socksPort cfg) \<noteq> 0" using port by (simp add: unsigned_eq_0_iff)
  moreover have "int (unat (rc_socksPort cfg)) < 65536" using u by linarith
  ultimately have "0 < uint (rc_socksPort cfg)" "uint (rc_socksPort cfg) \<le> 65535"
    using uint_ge_0 [of "rc_socksPort cfg"] by (simp_all add: order.not_eq_order_implies_strict)
  then show ?thesis
    using u p by (simp add: loadFromJson_def default_runtime_config_def fallback_fields [OF c] Let_def)
qed

text \<open>C26. The configuration written after a fallback is a fixed point: for fields without quotes and
  backslashes that are not themselves names of fields, the next start of the application reads
  from the file it wrote exactly the configuration it had, looks at no other file and writes
  nothing.\<close>

theorem config_fallback_roundtrip:
  assumes "clean (rc_egress cfg)" "clean (rc_advertiseHost cfg)" "clean (rc_clientKey cfg)" "clean (rc_authToken cfg)"
    and "rc_socksPort cfg \<noteq> 0" "\<not> incomplete cfg"
  shows "loadRuntimeConfig (fallback_config cfg) cwdCfg androidRaw default_runtime_config = Inr (cfg, None)"
proof -
  have "fallback_config cfg \<noteq> []" by (simp add: fallback_config_def)
  then show ?thesis
    using assms by (simp add: loadRuntimeConfig_def fallback_loads_back) (simp add: incomplete_def)
qed

definition sample_runtime_config :: RuntimeConfig where
  "sample_runtime_config = \<lparr>rc_egress = ''key@1.2.3.4:80'', rc_clientKey = ''ab'', rc_advertiseHost = [],
     rc_authToken = ''t'', rc_socksPort = 1090\<rparr>"

theorem config_fallback_roundtrip_witness:
  "loadRuntimeConfig (fallback_config sample_runtime_config) [] [] default_runtime_config = Inr (sample_runtime_config, None)"
  by (rule config_fallback_roundtrip)
     (simp_all add: sample_runtime_config_def clean_def quote_char_def backslash_def config_keys_def incomplete_def)

end
