(* ===== verification/Desktop_Proxy.thy ===== *)
theory Desktop_Proxy
  imports Desktop_Config
begin

text \<open>
  The system proxy of the desktop application (\<^verbatim>\<open>TON-Tunnel/TON-Tunnel.cpp\<close>): capturing the
  user's setting, replacing it, restoring it, and recovering from a crash with the help of the
  state file. Wide strings are lists of 16-bit words, \<open>wide\<close> gives the literals. The Windows
  calls are the fields of \<open>win\<close>: what \<^verbatim>\<open>InternetQueryOption\<close> reports for a registry,
  the conversions to and from UTF-8, whether the registry key and the state file can be opened.
\<close>

type_synonym wtext = "u16 list"

definition wide :: "string \<Rightarrow> wtext" where
  "wide = map (\<lambda>c. word_of_nat (of_char c))"

record registry =
  rg_enable :: u32
  rg_server :: "wtext option"
  rg_override :: "wtext option"

record ProxyState =
  ps_captured :: bool
  ps_accessType :: u32
  ps_proxy :: wtext
  ps_bypass :: wtext

definition no_proxy_state :: ProxyState where
  "no_proxy_state = \<lparr>ps_captured = False, ps_accessType = 0, ps_proxy = [], ps_bypass = []\<rparr>"

record win =
  w_query :: "registry \<Rightarrow> (u32 \<times> wtext option \<times> wtext option) option"
  w_narrow :: "wtext \<Rightarrow> string"
  w_widen :: "string \<Rightarrow> wtext"
  w_reg_ok :: bool
  w_file_ok :: bool

record proxy_world =
  px_reg :: registry
  px_file :: "string option"
  px_prev :: ProxyState
  px_path :: bool

definition INTERNET_OPEN_TYPE_PROXY :: u32 where "INTERNET_OPEN_TYPE_PROXY = 3"

definition or_empty :: "'a list option \<Rightarrow> 'a list" where
  "or_empty s = (case s of None \<Rightarrow> [] | Some s \<Rightarrow> s)"

definition captureSystemProxyState :: "win \<Rightarrow> proxy_world \<Rightarrow> bool \<times> proxy_world" where
  "captureSystemProxyState win x =
     (case w_query win (px_reg x) of
        None \<Rightarrow> (False, x)
      | Some (accessType, proxy, bypass) \<Rightarrow>
          let prev = \<lparr>ps_captured = True, ps_accessType = accessType, ps_proxy = or_empty proxy, ps_bypass = or_empty bypass\<rparr>;
              x = x\<lparr>px_prev := prev\<rparr> in
          (True,
           if px_path x \<and> w_file_ok win
           then x\<lparr>px_file := Some (to_string (unat (ps_accessType prev)) @ [newline]
                    @ w_narrow win (ps_proxy prev) @ [newline] @ w_narrow win (ps_bypass prev) @ [newline])\<rparr>
           else x))"

text \<open>\<^verbatim>\<open>std::getline\<close>: the line and the rest, or failure at the end of the file.\<close>

definition getline :: "string \<Rightarrow> (string \<times> string) option" where
  "getline s =
     (if s = [] then None
      else let l = takeWhile (\<lambda>c. c \<noteq> newline) s in Some (l, drop (length l + 1) s))"

text \<open>\<^verbatim>\<open>std::stoul\<close> for 32 bits: blanks, a sign, digits; \<open>None\<close> is an exception.\<close>

definition stoul32 :: "string \<Rightarrow> u32 option" where
  "stoul32 s =
     (let s = dropWhile is_space s;
          neg = (s \<noteq> [] \<and> hd s = CHR ''-'');
          s = (if s \<noteq> [] \<and> (hd s = CHR ''-'' \<or> hd s = CHR ''+'') then tl s else s);
          d = takeWhile is_digit s;
          v = digits_value d
      in if d = [] \<or> v \<ge> 2 ^ 32 then None else Some (if neg then - word_of_nat v else word_of_nat v))"

definition loadProxyStateFromDisk :: "win \<Rightarrow> proxy_world \<Rightarrow> ProxyState option" where
  "loadProxyStateFromDisk win x =
     (case (if px_path x then px_file x else None) of
        None \<Rightarrow> None
      | Some content \<Rightarrow>
          (case getline content of
             None \<Rightarrow> None
           | Some (line0, r) \<Rightarrow>
               let (line1, r) = (case getline r of None \<Rightarrow> ([], []) | Some lr \<Rightarrow> lr);
                   line2 = (case getline r of None \<Rightarrow> [] | Some (l, _) \<Rightarrow> l) in
               case stoul32 line0 of
                 None \<Rightarrow> None
               | Some accessType \<Rightarrow>
                   Some \<lparr>ps_captured = True, ps_accessType = accessType,
                         ps_proxy = w_widen win (c_str line1), ps_bypass = w_widen win (c_str line2)\<rparr>))"

definition deleteProxyStateFile :: "proxy_world \<Rightarrow> proxy_world" where
  "deleteProxyStateFile x = (if px_path x then x\<lparr>px_file := None\<rparr> else x)"

text \<open>The registry values written for a state of the proxy.\<close>

definition write_proxy :: "ProxyState \<Rightarrow> registry \<Rightarrow> registry" where
  "write_proxy ps r =
     (if ps_accessType ps = INTERNET_OPEN_TYPE_PROXY \<and> ps_proxy ps \<noteq> []
      then r\<lparr>rg_server := Some (ps_proxy ps), rg_override := Some (ps_bypass ps), rg_enable := 1\<rparr>
      else r\<lparr>rg_enable := 0\<rparr>)"

text \<open>The value is read into a buffer of 1024 characters with the terminator.\<close>

definition recoverStaleTonProxyIfNeeded :: "win \<Rightarrow> proxy_world \<Rightarrow> proxy_world" where
  "recoverStaleTonProxyIfNeeded win x =
     (if \<not> w_reg_ok win then x
      else
        let proxyServer = (case rg_server (px_reg x) of
                             Some s \<Rightarrow> if length s < 1024 then s else [] | None \<Rightarrow> []);
            staleTonProxy = (rg_enable (px_reg x) = 1 \<and> find_str (wide ''127.0.0.1:1080'') proxyServer \<noteq> None) in
        if \<not> staleTonProxy then x
        else
          deleteProxyStateFile
            (case loadProxyStateFromDisk win x of
               Some diskState \<Rightarrow> x\<lparr>px_reg := write_proxy diskState (px_reg x)\<rparr>
             | None \<Rightarrow> x\<lparr>px_reg := (px_reg x)\<lparr>rg_enable := 0\<rparr>\<rparr>))"

definition applySystemSocksProxy :: "win \<Rightarrow> u16 \<Rightarrow> proxy_world \<Rightarrow> bool \<times> proxy_world" where
  "applySystemSocksProxy win port x =
     (let x = (if \<not> ps_captured (px_prev x) then snd (captureSystemProxyState win x) else x) in
      if \<not> w_reg_ok win then (False, x)
      else (True, x\<lparr>px_reg := (px_reg x)\<lparr>rg_enable := 1,
                      rg_server := Some (wide (''socks=127.0.0.1:'' @ to_string (unat port))),
                      rg_override := Some (wide ''<local>'')\<rparr>\<rparr>))"

definition restoreSystemProxy :: "win \<Rightarrow> proxy_world \<Rightarrow> proxy_world" where
  "restoreSystemProxy win x =
     (if \<not> ps_captured (px_prev x) then x
      else if \<not> w_reg_ok win then x
      else deleteProxyStateFile (x\<lparr>px_reg := write_proxy (px_prev x) (px_reg x)\<rparr>))"


section \<open>The user's setting survives\<close>

text \<open>The setting in force: a server with its exceptions, or none.\<close>

definition effective :: "registry \<Rightarrow> (wtext \<times> wtext) option" where
  "effective r =
     (case rg_server r of
        Some s \<Rightarrow> if rg_enable r = 1 \<and> s \<noteq> [] then Some (s, or_empty (rg_override r)) else None
      | None \<Rightarrow> None)"

text \<open>What Windows documents: the query reports the proxy in force (access type 3) or a direct
  connection (1); the conversion to UTF-8 and back is the identity, and a proxy setting holds no
  line break or NUL.\<close>

definition windows_ok :: "win \<Rightarrow> registry \<Rightarrow> bool" where
  "windows_ok win r \<longleftrightarrow>
     w_query win r = Some (case effective r of Some (s, b) \<Rightarrow> (3, Some s, Some b) | None \<Rightarrow> (1, None, None))
   \<and> w_reg_ok win \<and> w_file_ok win
   \<and> (\<forall>s b. effective r = Some (s, b) \<longrightarrow> (\<forall>t \<in> {s, b}. w_widen win (w_narrow win t) = t
         \<and> newline \<notin> set (w_narrow win t) \<and> CHR 0x00 \<notin> set (w_narrow win t)))
   \<and> w_narrow win [] = []"

lemma effective_write_proxy:
  "effective (write_proxy ps r) =
     (if ps_accessType ps = 3 \<and> ps_proxy ps \<noteq> [] then Some (ps_proxy ps, ps_bypass ps) else None)"
  by (simp add: effective_def write_proxy_def INTERNET_OPEN_TYPE_PROXY_def or_empty_def split: option.split)

lemma effective_someD: "effective r = Some (s, b) \<Longrightarrow> s \<noteq> []"
  by (auto simp: effective_def split: option.splits if_splits)

lemma capture_describes:
  assumes "windows_ok win (px_reg x)" "captureSystemProxyState win x = (ok, x')"
  shows "ok \<and> ps_captured (px_prev x') \<and> px_reg x' = px_reg x \<and> px_path x' = px_path x
       \<and> effective (write_proxy (px_prev x') r) = effective (px_reg x)"
  using assms effective_someD [of "px_reg x"]
  by (auto simp: captureSystemProxyState_def windows_ok_def Let_def effective_write_proxy or_empty_def
      split: option.splits prod.splits if_splits)

lemma getline_line: "newline \<notin> set l \<Longrightarrow> getline (l @ newline # r) = Some (l, r)"
proof -
  assume "newline \<notin> set l"
  then have "takeWhile (\<lambda>c. c \<noteq> newline) (l @ newline # r) = l" by (subst takeWhile_append2) auto
  then show ?thesis by (simp add: getline_def Let_def)
qed

lemma stoul32_to_string: "n < 2 ^ 32 \<Longrightarrow> stoul32 (to_string n) = Some (word_of_nat n)"
proof -
  assume n: "n < 2 ^ 32"
  have d: "is_digit c" if "c \<in> set (to_string n)" for c using to_string_digits that by blast
  obtain c cs where s: "to_string n = c # cs" by (cases "to_string n") auto
  then have "is_digit c" using d by simp
  then have "\<not> is_space c" "c \<noteq> CHR ''-''" "c \<noteq> CHR ''+''" by (auto simp: is_digit_def is_space_def)
  moreover have "takeWhile is_digit (c # cs) = c # cs" using d s by (auto simp: takeWhile_eq_all_conv)
  moreover have "digits_value (c # cs) = n" using digits_value_to_string [of n] s by simp
  ultimately show "stoul32 (to_string n) = Some (word_of_nat n)" using n by (simp add: stoul32_def s Let_def)
qed

lemma digits_no_newline: "newline \<notin> set (to_string n)"
proof
  assume "newline \<in> set (to_string n)"
  then have "is_digit newline" using to_string_digits by blast
  then show False by (simp add: is_digit_def newline_def)
qed

lemma capture_file:
  assumes ok: "windows_ok win (px_reg x)" and path: "px_path x" and cap: "captureSystemProxyState win x = (r, x')"
  shows "\<exists>ps. loadProxyStateFromDisk win x' = Some ps \<and> effective (write_proxy ps reg) = effective (px_reg x)"
proof (cases "effective (px_reg x)")
  case None
  then have "px_file x' = Some (to_string 1 @ newline # newline # newline # [])" "px_path x'"
    using ok path cap by (auto simp: windows_ok_def captureSystemProxyState_def Let_def or_empty_def)
  moreover have "getline (newline # newline # []) = Some ([], [newline])" "getline [newline] = Some ([], [])"
    using getline_line [of "[]"] by simp_all
  ultimately show ?thesis
    using None getline_line [OF digits_no_newline, of 1] stoul32_to_string [of 1]
    by (simp add: loadProxyStateFromDisk_def effective_write_proxy)
next
  case (Some sb)
  obtain s b where sb: "sb = (s, b)" by fastforce
  then have n: "w_widen win (w_narrow win s) = s" "w_widen win (w_narrow win b) = b"
    "newline \<notin> set (w_narrow win s)" "newline \<notin> set (w_narrow win b)"
    "c_str (w_narrow win s) = w_narrow win s" "c_str (w_narrow win b) = w_narrow win b"
    using ok Some by (auto simp: windows_ok_def intro: c_str_id)
  have "px_file x' = Some (to_string 3 @ newline # w_narrow win s @ newline # w_narrow win b @ newline # [])" "px_path x'"
    using ok path cap Some sb by (auto simp: windows_ok_def captureSystemProxyState_def Let_def or_empty_def)
  then show ?thesis
    using Some sb n getline_line [OF digits_no_newline, of 3] stoul32_to_string [of 3] getline_line [OF n(3)]
      getline_line [OF n(4)] effective_someD [of "px_reg x" s b]
    by (simp add: loadProxyStateFromDisk_def effective_write_proxy)
qed

lemma load_cong: "px_file z = px_file x \<Longrightarrow> px_path z = px_path x \<Longrightarrow> loadProxyStateFromDisk win z = loadProxyStateFromDisk win x"
  by (simp add: loadProxyStateFromDisk_def)

lemma to_string_1080: "to_string 1080 = ''1080''"
  by (simp add: to_string.simps digit_char_def char_of_def bit_Suc_0_iff bit_numeral_rec)

lemma apply_fields:
  assumes ok: "windows_ok win (px_reg x)" and fresh: "\<not> ps_captured (px_prev x)"
    and app: "applySystemSocksProxy win port x = (r, y)"
  obtains x' where "captureSystemProxyState win x = (True, x')"
    "y = x'\<lparr>px_reg := (px_reg x')\<lparr>rg_enable := 1, rg_server := Some (wide (''socks=127.0.0.1:'' @ to_string (unat port))),
                       rg_override := Some (wide ''<local>'')\<rparr>\<rparr>"
proof -
  obtain k x' where cap: "captureSystemProxyState win x = (k, x')" by fastforce
  with capture_describes [OF ok cap] have "k" by blast
  with cap ok fresh app that show thesis
    by (simp add: applySystemSocksProxy_def Let_def windows_ok_def)
qed

lemma stale_proxy_found:
  "find_str (wide ''127.0.0.1:1080'') (wide (''socks=127.0.0.1:'' @ to_string (unat (1080 :: u16)))) \<noteq> None"
  "length (wide (''socks=127.0.0.1:'' @ to_string (unat (1080 :: u16)))) < 1024"
  by (simp_all add: to_string_1080 wide_def)


text \<open>A Windows whose wide strings are narrowed character by character, and a user with a proxy.\<close>

definition sample_win :: win where
  "sample_win = \<lparr>w_query = (\<lambda>r. Some (case effective r of Some (s, b) \<Rightarrow> (3, Some s, Some b) | None \<Rightarrow> (1, None, None))),
     w_narrow = map (\<lambda>w. char_of (unat w)), w_widen = wide, w_reg_ok = True, w_file_ok = True\<rparr>"

definition sample_proxy :: proxy_world where
  "sample_proxy = \<lparr>px_reg = \<lparr>rg_enable = 1, rg_server = Some (wide ''proxy:8080''), rg_override = None\<rparr>,
     px_file = None, px_prev = no_proxy_state, px_path = True\<rparr>"

lemma sample_windows_ok: "windows_ok sample_win (px_reg sample_proxy)"
  by (simp add: windows_ok_def sample_win_def sample_proxy_def effective_def or_empty_def wide_def newline_def)
     (simp add: char_of_def bit_Suc_0_iff bit_numeral_rec)


text \<open>The capture happens once: after a stop the state file is gone and a second start does not
  write it again, so that a crash then loses the user's proxy.\<close>

lemma second_start_has_no_state_file:
  assumes "ps_captured (px_prev x)" "w_reg_ok win" "px_path x"
  shows "px_file (snd (applySystemSocksProxy win port (restoreSystemProxy win x))) = None"
  using assms by (simp add: applySystemSocksProxy_def restoreSystemProxy_def deleteProxyStateFile_def Let_def)

lemma recovery_without_file_disables:
  assumes "w_reg_ok win" "px_file x = None" "rg_enable (px_reg x) = 1" "rg_server (px_reg x) = Some (wide ''socks=127.0.0.1:1080'')"
  shows "effective (px_reg (recoverStaleTonProxyIfNeeded win x)) = None"
  using assms
  by (simp add: recoverStaleTonProxyIfNeeded_def loadProxyStateFromDisk_def deleteProxyStateFile_def wide_def effective_def
      split: option.split)

end
