(* ===== verification/Protocol.thy ===== *)
theory Protocol
  imports Prelude
begin

text \<open>
  The server-side HOPE codec: \<^verbatim>\<open>ton-egress-node/include/protocol.hpp\<close> and
  \<^verbatim>\<open>ton-egress-node/src/protocol.cpp\<close>. The message structs are records, the tagged
  \<^verbatim>\<open>DecodedMessage\<close> keeps its four optional members, and \<open>decodeMessage\<close> reads its
  input through partial reads, so that its result has two layers of \<open>option\<close>: the outer
  one is undefined behaviour, the inner one is \<^verbatim>\<open>std::nullopt\<close>.

  The second half states the wire format of \<^verbatim>\<open>PROTOCOL.md\<close> as a datatype \<open>frame\<close>
  with its layout \<open>wire\<close>, and proves that the codec implements it in both directions.
\<close>

section \<open>Big-endian integers\<close>

definition readU16 :: "bytes \<Rightarrow> nat \<Rightarrow> u16 option" where
  "readU16 p i = do {
     a \<leftarrow> byte_at p i;
     b \<leftarrow> byte_at p (i + 1);
     Some (push_bit 8 (ucast a) OR ucast b)
   }"

definition readU32 :: "bytes \<Rightarrow> nat \<Rightarrow> u32 option" where
  "readU32 p i = do {
     a \<leftarrow> byte_at p i;
     b \<leftarrow> byte_at p (i + 1);
     c \<leftarrow> byte_at p (i + 2);
     d \<leftarrow> byte_at p (i + 3);
     Some (push_bit 24 (ucast a) OR push_bit 16 (ucast b) OR push_bit 8 (ucast c) OR ucast d)
   }"

definition writeU16 :: "bytes \<Rightarrow> u16 \<Rightarrow> bytes" where
  "writeU16 out v = out @ [ucast (drop_bit 8 v AND 0xFF), ucast (v AND 0xFF)]"

definition writeU32 :: "bytes \<Rightarrow> u32 \<Rightarrow> bytes" where
  "writeU32 out v = out @ [ucast (drop_bit 24 v AND 0xFF), ucast (drop_bit 16 v AND 0xFF),
                           ucast (drop_bit 8 v AND 0xFF), ucast (v AND 0xFF)]"


section \<open>Messages\<close>

text \<open>
  \<^verbatim>\<open>static_cast<MessageType>\<close> of an arbitrary byte is a value of the enum's underlying
  type, named or not: the unnamed ones are \<open>MT_Other\<close>.
\<close>

datatype MessageType = MT_Open | MT_Data | MT_Close | MT_Error | MT_Other u8

definition message_type :: "u8 \<Rightarrow> MessageType" where
  "message_type b =
     (if b = 1 then MT_Open else if b = 2 then MT_Data else if b = 3 then MT_Close
      else if b = 4 then MT_Error else MT_Other b)"

fun type_byte :: "MessageType \<Rightarrow> u8" where
  "type_byte MT_Open = 1"
| "type_byte MT_Data = 2"
| "type_byte MT_Close = 3"
| "type_byte MT_Error = 4"
| "type_byte (MT_Other b) = b"

record OpenMessage =
  om_stream_id :: u32
  om_host :: string
  om_port :: u16
  om_token :: string

record DataMessage =
  dm_stream_id :: u32
  dm_payload :: bytes

record CloseMessage =
  cm_stream_id :: u32

record ErrorMessage =
  em_stream_id :: u32
  em_message :: string

record DecodedMessage =
  msg_type :: MessageType
  msg_open :: "OpenMessage option"
  msg_data :: "DataMessage option"
  msg_close :: "CloseMessage option"
  msg_error :: "ErrorMessage option"

definition empty_message :: "MessageType \<Rightarrow> DecodedMessage" where
  "empty_message t = \<lparr>msg_type = t, msg_open = None, msg_data = None, msg_close = None, msg_error = None\<rparr>"


section \<open>Decoding\<close>

definition decodeMessage :: "bytes \<Rightarrow> DecodedMessage option option" where
  "decodeMessage input =
     (if length input < 5 then Some None
      else do {
        b0 \<leftarrow> byte_at input 0;
        streamId \<leftarrow> readU32 input 1;
        let type = message_type b0;
        let out = empty_message type;
        let cursor = 5;
        if type = MT_Open then
          if length input < cursor + 2 then Some None
          else do {
            hostLen \<leftarrow> readU16 input cursor;
            let cursor = cursor + 2;
            if length input < cursor + unat hostLen + 2 + 2 then Some None
            else do {
              host \<leftarrow> slice_at input cursor (unat hostLen);
              let cursor = cursor + unat hostLen;
              port \<leftarrow> readU16 input cursor;
              let cursor = cursor + 2;
              tokenLen \<leftarrow> readU16 input cursor;
              let cursor = cursor + 2;
              if length input < cursor + unat tokenLen then Some None
              else do {
                token \<leftarrow> slice_at input cursor (unat tokenLen);
                Some (Some (out\<lparr>msg_open := Some \<lparr>om_stream_id = streamId, om_host = str_of_bytes host,
                                                   om_port = port, om_token = str_of_bytes token\<rparr>\<rparr>))
              }
            }
          }
        else if type = MT_Data then
          if length input < cursor + 4 then Some None
          else do {
            payloadLen \<leftarrow> readU32 input cursor;
            let cursor = cursor + 4;
            if length input < cursor + unat payloadLen then Some None
            else do {
              payload \<leftarrow> slice_at input cursor (unat payloadLen);
              Some (Some (out\<lparr>msg_data := Some \<lparr>dm_stream_id = streamId, dm_payload = payload\<rparr>\<rparr>))
            }
          }
        else if type = MT_Close then
          Some (Some (out\<lparr>msg_close := Some \<lparr>cm_stream_id = streamId\<rparr>\<rparr>))
        else if type = MT_Error then
          if length input < cursor + 2 then Some None
          else do {
            msgLen \<leftarrow> readU16 input cursor;
            let cursor = cursor + 2;
            if length input < cursor + unat msgLen then Some None
            else do {
              message \<leftarrow> slice_at input cursor (unat msgLen);
              Some (Some (out\<lparr>msg_error := Some \<lparr>em_stream_id = streamId, em_message = str_of_bytes message\<rparr>\<rparr>))
            }
          }
        else Some None
      })"


section \<open>Encoding\<close>

definition encodeData :: "DataMessage \<Rightarrow> bytes" where
  "encodeData msg =
     (let out = [type_byte MT_Data];
          out = writeU32 out (dm_stream_id msg);
          out = writeU32 out (word_of_nat (length (dm_payload msg)))
      in out @ dm_payload msg)"

definition encodeOpen :: "CloseMessage \<Rightarrow> bytes" where
  "encodeOpen msg = writeU32 [type_byte MT_Open] (cm_stream_id msg)"

definition encodeError :: "ErrorMessage \<Rightarrow> bytes" where
  "encodeError msg =
     (let out = [type_byte MT_Error];
          out = writeU32 out (em_stream_id msg);
          out = writeU16 out (word_of_nat (length (em_message msg)))
      in out @ bytes_of_str (em_message msg))"

definition encodeClose :: "CloseMessage \<Rightarrow> bytes" where
  "encodeClose msg = writeU32 [type_byte MT_Close] (cm_stream_id msg)"


section \<open>The wire format\<close>

text \<open>
  The four frames of \<^verbatim>\<open>PROTOCOL.md\<close>, section 4, and their layout; \<open>frame_ok\<close> says
  that every length fits its field.
\<close>

datatype frame =
    Open_Frame u32 string u16 string
  | Data_Frame u32 bytes
  | Close_Frame u32
  | Error_Frame u32 string

abbreviation be16 :: "u16 \<Rightarrow> bytes" where "be16 \<equiv> writeU16 []"
abbreviation be32 :: "u32 \<Rightarrow> bytes" where "be32 \<equiv> writeU32 []"

fun wire :: "frame \<Rightarrow> bytes" where
  "wire (Open_Frame i host port token) =
     1 # be32 i @ be16 (word_of_nat (length host)) @ bytes_of_str host @ be16 port
       @ be16 (word_of_nat (length token)) @ bytes_of_str token"
| "wire (Data_Frame i payload) = 2 # be32 i @ be32 (word_of_nat (length payload)) @ payload"
| "wire (Close_Frame i) = 3 # be32 i"
| "wire (Error_Frame i msg) = 4 # be32 i @ be16 (word_of_nat (length msg)) @ bytes_of_str msg"

fun frame_ok :: "frame \<Rightarrow> bool" where
  "frame_ok (Open_Frame i host port token) \<longleftrightarrow> length host < 2 ^ 16 \<and> length token < 2 ^ 16"
| "frame_ok (Data_Frame i payload) \<longleftrightarrow> length payload < 2 ^ 32"
| "frame_ok (Close_Frame i) \<longleftrightarrow> True"
| "frame_ok (Error_Frame i msg) \<longleftrightarrow> length msg < 2 ^ 16"

fun decoded_of :: "frame \<Rightarrow> DecodedMessage" where
  "decoded_of (Open_Frame i host port token) = (empty_message MT_Open)
     \<lparr>msg_open := Some \<lparr>om_stream_id = i, om_host = host, om_port = port, om_token = token\<rparr>\<rparr>"
| "decoded_of (Data_Frame i payload) = (empty_message MT_Data)
     \<lparr>msg_data := Some \<lparr>dm_stream_id = i, dm_payload = payload\<rparr>\<rparr>"
| "decoded_of (Close_Frame i) = (empty_message MT_Close)\<lparr>msg_close := Some \<lparr>cm_stream_id = i\<rparr>\<rparr>"
| "decoded_of (Error_Frame i msg) = (empty_message MT_Error)
     \<lparr>msg_error := Some \<lparr>em_stream_id = i, em_message = msg\<rparr>\<rparr>"

fun frame_id :: "frame \<Rightarrow> u32" where
  "frame_id (Open_Frame i _ _ _) = i"
| "frame_id (Data_Frame i _) = i"
| "frame_id (Close_Frame i) = i"
| "frame_id (Error_Frame i _) = i"


section \<open>Lemmas on big-endian integers\<close>

lemma ucast_and_ff16 [simp]: "ucast (v AND 0xFF :: u16) = (ucast v :: u8)"
proof -
  have "ucast (v AND mask 8 :: u16) = (ucast v :: u8)"
    by (rule bit_word_eqI) (auto simp: bit_simps)
  then show ?thesis by (simp add: mask_eq_exp_minus_1)
qed

lemma ucast_and_ff32 [simp]: "ucast (v AND 0xFF :: u32) = (ucast v :: u8)"
proof -
  have "ucast (v AND mask 8 :: u32) = (ucast v :: u8)"
    by (rule bit_word_eqI) (auto simp: bit_simps)
  then show ?thesis by (simp add: mask_eq_exp_minus_1)
qed

lemma be16_def: "be16 v = [ucast (drop_bit 8 v), ucast v]"
  by (simp add: writeU16_def)

lemma be32_def:
  "be32 v = [ucast (drop_bit 24 v), ucast (drop_bit 16 v), ucast (drop_bit 8 v), ucast v]"
  by (simp add: writeU32_def)

lemma writeU16_eq [codec_simps]: "out \<noteq> [] \<Longrightarrow> writeU16 out v = out @ be16 v"
  by (simp add: writeU16_def)

lemma writeU32_eq [codec_simps]: "out \<noteq> [] \<Longrightarrow> writeU32 out v = out @ be32 v"
  by (simp add: writeU32_def)

lemma length_be16 [simp]: "length (be16 v) = 2"
  by (simp add: be16_def)

lemma length_be32 [simp]: "length (be32 v) = 4"
  by (simp add: be32_def)

lemma byte_at_None [safe_reads]: "byte_at xs i = None \<longleftrightarrow> length xs \<le> i"
  by (auto simp: byte_at_def)

lemma slice_at_None [safe_reads]: "slice_at xs i n = None \<longleftrightarrow> length xs < i + n"
  by (auto simp: slice_at_def)

lemma readU16_None [safe_reads]: "readU16 xs i = None \<longleftrightarrow> length xs < i + 2"
  by (auto simp: readU16_def byte_at_def)

lemma readU32_None [safe_reads]: "readU32 xs i = None \<longleftrightarrow> length xs < i + 4"
  by (auto simp: readU32_def byte_at_def)

lemma readU16_at: "length xs = i \<Longrightarrow> readU16 (xs @ be16 v @ ys) i = Some v"
  by (simp add: readU16_def be16_def byte_at_def nth_append word_u16_split)

lemma readU32_at: "length xs = i \<Longrightarrow> readU32 (xs @ be32 v @ ys) i = Some v"
  by (simp add: readU32_def be32_def byte_at_def nth_append word_u32_split)

lemma drop_two: "i + 2 \<le> length xs \<Longrightarrow> drop i xs = xs ! i # xs ! (i + 1) # drop (i + 2) xs"
  by (simp add: Cons_nth_drop_Suc)

lemma drop_four:
  "i + 4 \<le> length xs \<Longrightarrow>
     drop i xs = xs ! i # xs ! (i + 1) # xs ! (i + 2) # xs ! (i + 3) # drop (i + 4) xs"
  using drop_two [of i xs] drop_two [of "i + 2" xs] by (simp add: numeral_eq_Suc)

text \<open>A successful read pins the bytes: what was read is what a writer would have put there.\<close>

lemma readU16_SomeD:
  assumes "readU16 xs i = Some v"
  shows "i + 2 \<le> length xs" and "drop i xs = be16 v @ drop (i + 2) xs"
proof -
  from assms show len: "i + 2 \<le> length xs"
    by (auto simp: readU16_def byte_at_def split: if_splits Option.bind_splits)
  from assms len have "v = push_bit 8 (ucast (xs ! i)) OR ucast (xs ! (i + 1))"
    by (simp add: readU16_def)
  then have "be16 v = [xs ! i, xs ! (i + 1)]"
    unfolding be16_def by (simp only: u16_bytes_back)
  then show "drop i xs = be16 v @ drop (i + 2) xs"
    using drop_two [OF len] by simp
qed

lemma readU32_SomeD:
  assumes "readU32 xs i = Some v"
  shows "i + 4 \<le> length xs" and "drop i xs = be32 v @ drop (i + 4) xs"
proof -
  from assms show len: "i + 4 \<le> length xs"
    by (auto simp: readU32_def byte_at_def split: if_splits Option.bind_splits)
  from assms len have "v = push_bit 24 (ucast (xs ! i)) OR push_bit 16 (ucast (xs ! (i + 1))) OR
      push_bit 8 (ucast (xs ! (i + 2))) OR ucast (xs ! (i + 3))"
    by (simp add: readU32_def)
  then have "be32 v = [xs ! i, xs ! (i + 1), xs ! (i + 2), xs ! (i + 3)]"
    unfolding be32_def by (simp only: u32_bytes_back)
  then show "drop i xs = be32 v @ drop (i + 4) xs"
    using drop_four [OF len] by simp
qed


section \<open>The encoders write frames\<close>

lemma encodeData_wire [codec_simps]: "encodeData \<lparr>dm_stream_id = i, dm_payload = p\<rparr> = wire (Data_Frame i p)"
  by (simp add: encodeData_def codec_simps Let_def)

lemma encodeError_wire [codec_simps]: "encodeError \<lparr>em_stream_id = i, em_message = m\<rparr> = wire (Error_Frame i m)"
  by (simp add: encodeError_def codec_simps Let_def)

lemma encodeClose_wire [codec_simps]: "encodeClose \<lparr>cm_stream_id = i\<rparr> = wire (Close_Frame i)"
  by (simp add: encodeClose_def codec_simps)

lemma encodeOpen_bytes [codec_simps]: "encodeOpen \<lparr>cm_stream_id = i\<rparr> = 1 # be32 i"
  by (simp add: encodeOpen_def codec_simps)

lemma length_wire_pos [simp]: "0 < length (wire f)"
  by (cases f) auto

lemma wire_nonempty [simp]: "wire f \<noteq> []"
  by (cases f) auto

lemma length_wire_ge: "5 \<le> length (wire f)"
  by (cases f) auto


section \<open>Decoding is safe, complete and sound\<close>

lemma decode_defined: "decodeMessage input \<noteq> None"
  by (auto simp: decodeMessage_def Let_def safe_reads not_less split: Option.bind_splits)

text \<open>\<open>decodeMessage\<close> never reads outside its input, whatever the bytes are: every
  path ends in \<^verbatim>\<open>std::nullopt\<close> or in a message.\<close>

lemma decodeMessage_memory_safe: "\<exists>result. decodeMessage input = Some result"
  using decode_defined [of input] by simp

lemma slice_at_mid: "length xs = i \<Longrightarrow> length ys = n \<Longrightarrow> slice_at (xs @ ys @ zs) i n = Some ys"
  by (auto simp: slice_at_def)

lemma decode_open_wire:
  assumes "length host < 2 ^ 16" "length token < 2 ^ 16"
  shows "decodeMessage (wire (Open_Frame i host port token) @ rest)
       = Some (Some (decoded_of (Open_Frame i host port token)))"
proof -
  let ?hl = "word_of_nat (length host) :: u16" and ?tl = "word_of_nat (length token) :: u16"
  let ?in = "wire (Open_Frame i host port token) @ rest"
  have "byte_at ?in 0 = Some 1" by simp
  moreover have "readU32 ?in 1 = Some i"
    using readU32_at [of "[1]" 1 i] by simp
  moreover have "readU16 ?in 5 = Some ?hl"
    using readU16_at [of "1 # be32 i" 5 ?hl] by simp
  moreover have "slice_at ?in 7 (length host) = Some (bytes_of_str host)"
    using slice_at_mid [of "1 # be32 i @ be16 ?hl" 7 "bytes_of_str host"] by simp
  moreover have "readU16 ?in (7 + length host) = Some port"
    using readU16_at [of "1 # be32 i @ be16 ?hl @ bytes_of_str host" "7 + length host" port] by simp
  moreover have "readU16 ?in (9 + length host) = Some ?tl"
    using readU16_at [of "1 # be32 i @ be16 ?hl @ bytes_of_str host @ be16 port" "9 + length host" ?tl]
    by simp
  moreover have "slice_at ?in (11 + length host) (length token) = Some (bytes_of_str token)"
    using slice_at_mid [of "1 # be32 i @ be16 ?hl @ bytes_of_str host @ be16 port @ be16 ?tl"
        "11 + length host" "bytes_of_str token"] by simp
  ultimately show ?thesis
    using assms by (simp add: decodeMessage_def message_type_def add.commute)
qed

lemma decode_data_wire:
  assumes "length payload < 2 ^ 32"
  shows "decodeMessage (wire (Data_Frame i payload) @ rest) = Some (Some (decoded_of (Data_Frame i payload)))"
proof -
  let ?l = "word_of_nat (length payload) :: u32"
  let ?in = "wire (Data_Frame i payload) @ rest"
  have "byte_at ?in 0 = Some 2" by simp
  moreover have "readU32 ?in 1 = Some i"
    using readU32_at [of "[2]" 1 i] by simp
  moreover have "readU32 ?in 5 = Some ?l"
    using readU32_at [of "2 # be32 i" 5 ?l] by simp
  moreover have "slice_at ?in 9 (length payload) = Some payload"
    using slice_at_mid [of "2 # be32 i @ be32 ?l" 9 payload] by simp
  ultimately show ?thesis
    using assms by (simp add: decodeMessage_def message_type_def)
qed

lemma decode_close_wire:
  "decodeMessage (wire (Close_Frame i) @ rest) = Some (Some (decoded_of (Close_Frame i)))"
  using readU32_at [of "[3]" 1 i] by (simp add: decodeMessage_def message_type_def)

lemma decode_error_wire:
  assumes "length msg < 2 ^ 16"
  shows "decodeMessage (wire (Error_Frame i msg) @ rest) = Some (Some (decoded_of (Error_Frame i msg)))"
proof -
  let ?l = "word_of_nat (length msg) :: u16"
  let ?in = "wire (Error_Frame i msg) @ rest"
  have "byte_at ?in 0 = Some 4" by simp
  moreover have "readU32 ?in 1 = Some i"
    using readU32_at [of "[4]" 1 i] by simp
  moreover have "readU16 ?in 5 = Some ?l"
    using readU16_at [of "4 # be32 i" 5 ?l] by simp
  moreover have "slice_at ?in 7 (length msg) = Some (bytes_of_str msg)"
    using slice_at_mid [of "4 # be32 i @ be16 ?l" 7 "bytes_of_str msg"] by simp
  ultimately show ?thesis
    using assms by (simp add: decodeMessage_def message_type_def)
qed

lemma decode_wire: "frame_ok f \<Longrightarrow> decodeMessage (wire f @ rest) = Some (Some (decoded_of f))"
  using decode_open_wire decode_data_wire decode_close_wire decode_error_wire
  by (cases f) (simp_all del: wire.simps decoded_of.simps)

lemma u16_len [simp]: "length xs = unat (v :: u16) \<Longrightarrow> word_of_nat (length xs) = v"
  by simp

lemma u32_len [simp]: "length xs = unat (v :: u32) \<Longrightarrow> word_of_nat (length xs) = v"
  by simp

text \<open>What each kind of message tells about the input, read off the decoder.\<close>

lemma decode_openD:
  assumes "decodeMessage input = Some (Some m)" and "msg_type m = MT_Open"
  shows "\<exists>i hl h port tl t. byte_at input 0 = Some 1 \<and> readU32 input 1 = Some i \<and>
    readU16 input 5 = Some hl \<and> slice_at input 7 (unat hl) = Some h \<and>
    readU16 input (7 + unat hl) = Some port \<and> readU16 input (9 + unat hl) = Some tl \<and>
    slice_at input (11 + unat hl) (unat tl) = Some t \<and>
    m = decoded_of (Open_Frame i (str_of_bytes h) port (str_of_bytes t))"
  using assms
  by (auto simp: decodeMessage_def message_type_def empty_message_def Let_def add.commute
      split: if_splits Option.bind_splits)

lemma decode_dataD:
  assumes "decodeMessage input = Some (Some m)" and "msg_type m = MT_Data"
  shows "\<exists>i l p. byte_at input 0 = Some 2 \<and> readU32 input 1 = Some i \<and>
    readU32 input 5 = Some l \<and> slice_at input 9 (unat l) = Some p \<and> m = decoded_of (Data_Frame i p)"
  using assms
  by (auto simp: decodeMessage_def message_type_def empty_message_def Let_def
      split: if_splits Option.bind_splits)

lemma decode_closeD:
  assumes "decodeMessage input = Some (Some m)" and "msg_type m = MT_Close"
  shows "\<exists>i. byte_at input 0 = Some 3 \<and> readU32 input 1 = Some i \<and> m = decoded_of (Close_Frame i)"
  using assms
  by (auto simp: decodeMessage_def message_type_def empty_message_def Let_def
      split: if_splits Option.bind_splits)

lemma decode_errorD:
  assumes "decodeMessage input = Some (Some m)" and "msg_type m = MT_Error"
  shows "\<exists>i l p. byte_at input 0 = Some 4 \<and> readU32 input 1 = Some i \<and>
    readU16 input 5 = Some l \<and> slice_at input 7 (unat l) = Some p \<and>
    m = decoded_of (Error_Frame i (str_of_bytes p))"
  using assms
  by (auto simp: decodeMessage_def message_type_def empty_message_def Let_def
      split: if_splits Option.bind_splits)

lemma decode_type:
  "decodeMessage input = Some (Some m) \<Longrightarrow> msg_type m \<in> {MT_Open, MT_Data, MT_Close, MT_Error}"
  by (auto simp: decodeMessage_def message_type_def empty_message_def Let_def
      split: if_splits Option.bind_splits)

lemma header_split:
  assumes "byte_at input 0 = Some b" and "readU32 input 1 = Some i"
  shows "input = b # be32 i @ drop 5 input"
proof -
  from assms(1) have "input = b # drop 1 input"
    by (cases input) (auto simp: byte_at_def)
  with readU32_SomeD(2) [OF assms(2)] show ?thesis by simp
qed

lemma decode_sound:
  assumes dec: "decodeMessage input = Some (Some m)"
  shows "\<exists>f rest. frame_ok f \<and> input = wire f @ rest \<and> m = decoded_of f"
  using decode_type [OF dec]
proof (elim insertE emptyE)
  assume "msg_type m = MT_Open"
  then obtain i hl h port tl t where
    hd: "byte_at input 0 = Some 1" "readU32 input 1 = Some i" and
    hl: "readU16 input 5 = Some hl" and h: "slice_at input 7 (unat hl) = Some h" and
    port: "readU16 input (7 + unat hl) = Some port" and tl: "readU16 input (9 + unat hl) = Some tl" and
    t: "slice_at input (11 + unat hl) (unat tl) = Some t" and
    m: "m = decoded_of (Open_Frame i (str_of_bytes h) port (str_of_bytes t))"
    using decode_openD [OF dec] by metis
  have "input = 1 # be32 i @ be16 hl @ h @ be16 port @ be16 tl @ t @ drop (11 + unat hl + unat tl) input"
    using header_split [OF hd] readU16_SomeD(2) [OF hl] slice_at_SomeD(1) [OF h]
      readU16_SomeD(2) [OF port] readU16_SomeD(2) [OF tl] slice_at_SomeD(1) [OF t]
    by (simp add: add.commute)
  then show ?thesis
    using m slice_at_SomeD(2) [OF h] slice_at_SomeD(2) [OF t] unat_u16_bound
    by (intro exI [of _ "Open_Frame i (str_of_bytes h) port (str_of_bytes t)"]
        exI [of _ "drop (11 + unat hl + unat tl) input"]) simp
next
  assume "msg_type m = MT_Data"
  then obtain i l p where hd: "byte_at input 0 = Some 2" "readU32 input 1 = Some i" and
    l: "readU32 input 5 = Some l" and p: "slice_at input 9 (unat l) = Some p" and
    m: "m = decoded_of (Data_Frame i p)"
    using decode_dataD [OF dec] by metis
  have "input = 2 # be32 i @ be32 l @ p @ drop (9 + unat l) input"
    using header_split [OF hd] readU32_SomeD(2) [OF l] slice_at_SomeD(1) [OF p] by simp
  then show ?thesis
    using m slice_at_SomeD(2) [OF p] unat_u32_bound
    by (intro exI [of _ "Data_Frame i p"] exI [of _ "drop (9 + unat l) input"]) simp
next
  assume "msg_type m = MT_Close"
  then show ?thesis
    using decode_closeD [OF dec] header_split [of input 3]
    by (metis append_Cons frame_ok.simps(3) wire.simps(3))
next
  assume "msg_type m = MT_Error"
  then obtain i l p where hd: "byte_at input 0 = Some 4" "readU32 input 1 = Some i" and
    l: "readU16 input 5 = Some l" and p: "slice_at input 7 (unat l) = Some p" and
    m: "m = decoded_of (Error_Frame i (str_of_bytes p))"
    using decode_errorD [OF dec] by metis
  have "input = 4 # be32 i @ be16 l @ p @ drop (7 + unat l) input"
    using header_split [OF hd] readU16_SomeD(2) [OF l] slice_at_SomeD(1) [OF p] by simp
  then show ?thesis
    using m slice_at_SomeD(2) [OF p] unat_u16_bound
    by (intro exI [of _ "Error_Frame i (str_of_bytes p)"] exI [of _ "drop (7 + unat l) input"]) simp
qed


lemma decoded_of_inject [simp]: "decoded_of f = decoded_of g \<longleftrightarrow> f = g"
  by (cases f; cases g) (auto simp: empty_message_def)

lemma wire_prefix_unique:
  assumes "frame_ok f" "frame_ok g" "wire f @ xs = wire g @ ys"
  shows "f = g \<and> xs = ys"
proof -
  have "decodeMessage (wire f @ xs) = decodeMessage (wire g @ ys)" using assms(3) by simp
  then have "f = g"
    using decode_wire [OF assms(1), of xs] decode_wire [OF assms(2), of ys] by simp
  with assms(3) show ?thesis by simp
qed

lemma decode_wire_exact: "frame_ok f \<Longrightarrow> decodeMessage (wire f) = Some (Some (decoded_of f))"
  using decode_wire [of f "[]"] by simp

text \<open>The frames the server writes (DATA, ERROR, CLOSE) decode back to what was
  encoded, as long as the lengths fit their fields; the OPEN acknowledgement, which has no
  body, is the one server frame that its own decoder rejects.\<close>

lemma server_encoders_roundtrip:
  assumes "length (dm_payload d) < 2 ^ 32" and "length (em_message e) < 2 ^ 16"
  shows "decodeMessage (encodeData d) = Some (Some ((empty_message MT_Data)\<lparr>msg_data := Some d\<rparr>)) \<and>
    decodeMessage (encodeError e) = Some (Some ((empty_message MT_Error)\<lparr>msg_error := Some e\<rparr>)) \<and>
    decodeMessage (encodeClose c) = Some (Some ((empty_message MT_Close)\<lparr>msg_close := Some c\<rparr>)) \<and>
    decodeMessage (encodeOpen c) = Some None"
proof -
  obtain i p j m k where d: "d = \<lparr>dm_stream_id = i, dm_payload = p\<rparr>"
    and e: "e = \<lparr>em_stream_id = j, em_message = m\<rparr>" and c: "c = \<lparr>cm_stream_id = k\<rparr>"
    by (cases d, cases e, cases c)
  have "decodeMessage (1 # be32 k) = Some None"
    using readU32_at [of "[1]" 1 k "[]"] by (simp add: decodeMessage_def message_type_def)
  then show ?thesis
    using assms decode_wire_exact [of "Data_Frame i p"] decode_wire_exact [of "Error_Frame j m"]
      decode_wire_exact [of "Close_Frame k"]
    by (simp add: d e c codec_simps del: wire.simps)
qed

end
