(* ===== verification/Wintun_Dns.thy ===== *)
theory Wintun_Dns
  imports Protocol
begin

text \<open>
  The packet side of the Windows tunnel adapter: the DNS helpers, the dispatch of IP packets and
  the DNS answers of \<^verbatim>\<open>TON-Tunnel/WintunLwipBridge.cpp\<close>, over raw packets. As everywhere, the
  outer \<open>None\<close> is an access outside a buffer. The resolver and \<^verbatim>\<open>inet_addr\<close> (as the four
  bytes it stores) are parameters. The packed header structs of
  \<^verbatim>\<open>WintunLwipBridge.hpp\<close> are read at their offsets.
\<close>

section \<open>DNS names\<close>

definition strip_dot :: "string \<Rightarrow> string" where
  "strip_dot out = (if out \<noteq> [] \<and> last out = CHR ''.'' then butlast out else out)"

function parse_name_loop ::
  "bytes \<Rightarrow> nat \<Rightarrow> nat \<Rightarrow> bool \<Rightarrow> nat \<Rightarrow> string \<Rightarrow> (int \<times> string) option" where
  "parse_name_loop pkt off orig jumped jumps out =
     (if off < length pkt \<and> jumps < 20 then
        (case byte_at pkt off of
           None \<Rightarrow> None
         | Some l \<Rightarrow>
             if l = 0 then Some (int (if jumped then off else off + 1) - int orig, strip_dot out)
             else if l AND 0xC0 = 0xC0 then
               if off + 1 \<ge> length pkt then Some (-1, out)
               else
                 (case byte_at pkt (off + 1) of
                    None \<Rightarrow> None
                  | Some b \<Rightarrow>
                      let ptr = unat (push_bit 8 (ucast (l AND 0x3F)) OR ucast b :: u16) in
                      if ptr \<ge> length pkt then Some (-1, out)
                      else parse_name_loop pkt ptr (if jumped then orig else off + 2) True (jumps + 1) out)
             else
               let n = min (unat l) (length pkt - (off + 1)) in
               (case slice_at pkt (off + 1) n of
                  None \<Rightarrow> None
                | Some label \<Rightarrow>
                    parse_name_loop pkt (off + 1 + n) orig jumped jumps (out @ str_of_bytes label @ ''.'')))
      else Some (-1, out))"
  by pat_completeness auto
termination
  by (relation "measures [\<lambda>(pkt, off, orig, jumped, jumps, out). 20 - jumps,
                          \<lambda>(pkt, off, orig, jumped, jumps, out). length pkt - off]") auto

declare parse_name_loop.simps [simp del]

definition parseDnsName :: "bytes \<Rightarrow> nat \<Rightarrow> (int \<times> string) option" where
  "parseDnsName pkt off = parse_name_loop pkt off off False 0 []"

function buildDnsName :: "string \<Rightarrow> bytes" where
  "buildDnsName name =
     (if name = [] then [0]
      else let label = takeWhile (\<lambda>c. c \<noteq> CHR ''.'') name in
        word_of_nat (length label) # bytes_of_str label @ buildDnsName (drop (length label + 1) name))"
  by pat_completeness auto
termination by (relation "measure length") auto

declare buildDnsName.simps [simp del]


section \<open>The checksum\<close>

text \<open>The accumulator is a \<^verbatim>\<open>uint32_t\<close> that never exceeds \<open>0x1FFFE\<close>.\<close>

definition csum_add :: "u32 \<Rightarrow> u32 \<Rightarrow> u32" where
  "csum_add acc w = (let acc' = acc + w in if acc' > 0xFFFF then acc' - 0xFFFF else acc')"

fun csum_loop :: "bytes \<Rightarrow> u32 \<Rightarrow> u32" where
  "csum_loop (a # b # r) acc = csum_loop r (csum_add acc (push_bit 8 (ucast a) OR ucast b))"
| "csum_loop [a] acc = csum_add acc (push_bit 8 (ucast a))"
| "csum_loop [] acc = acc"

definition ipCsum :: "bytes \<Rightarrow> u16" where
  "ipCsum data = ucast (NOT (csum_loop data 0) AND 0xFFFF)"


section \<open>Answers\<close>

text \<open>The DNS message is assembled in a buffer of 512 bytes: \<open>None\<close> when the query with the 16
  bytes of the answer does not fit.\<close>

definition dns_reply_message :: "(string \<Rightarrow> bytes) \<Rightarrow> u16 \<Rightarrow> bytes \<Rightarrow> string \<Rightarrow> bytes option" where
  "dns_reply_message inet_addr dnsId query ipStr =
     (if length query < 12 \<or> length query + 16 > 512 then None
      else Some (be16 dnsId @ be16 0x8180 @ be16 1 @ be16 1 @ [0, 0, 0, 0] @ drop 12 query
             @ [0xC0, 12] @ [0, 1] @ [0, 1] @ [0, 0, 0, 60] @ [0, 4] @ inet_addr (c_str ipStr)))"

definition ip_header :: "u32 \<Rightarrow> u32 \<Rightarrow> nat \<Rightarrow> u16 \<Rightarrow> bytes" where
  "ip_header src dst totalLen csum =
     [0x45, 0] @ be16 (word_of_nat totalLen) @ be16 12345 @ be16 0x4000 @ [64, 17] @ be16 csum @ be32 src @ be32 dst"

definition sendDnsReply ::
  "(string \<Rightarrow> bytes) \<Rightarrow> u32 \<Rightarrow> u32 \<Rightarrow> u16 \<Rightarrow> u16 \<Rightarrow> bytes \<Rightarrow> string \<Rightarrow> bytes option" where
  "sendDnsReply inet_addr tunIp4 srcIp srcPort dnsId query ipStr =
     (case dns_reply_message inet_addr dnsId query ipStr of
        None \<Rightarrow> None
      | Some dns \<Rightarrow>
          let totalLen = 20 + 8 + length dns in
          Some (ip_header tunIp4 srcIp totalLen (ipCsum (ip_header tunIp4 srcIp totalLen 0))
                @ be16 53 @ be16 srcPort @ be16 (word_of_nat (8 + length dns)) @ [0, 0] @ dns))"


section \<open>Packets from the adapter\<close>

datatype tun_action = Ignored | To_Lwip bytes | Dns_Reply bytes

text \<open>\<open>resolveHost\<close> yields the IPv4 addresses of a host as text.\<close>

definition handleDnsQuery ::
  "(string \<Rightarrow> string list) \<Rightarrow> (string \<Rightarrow> bytes) \<Rightarrow> u32 \<Rightarrow> bytes \<Rightarrow> nat \<Rightarrow> nat \<Rightarrow> u32 \<Rightarrow> u16 \<Rightarrow> tun_action option" where
  "handleDnsQuery resolveHost inet_addr tunIp4 data ihl totalLen srcIp srcPort =
     (let dnsLen = totalLen - ihl - 8 in
      if dnsLen < 12 then Some Ignored
      else do {
        dns \<leftarrow> slice_at data (ihl + 8) dnsLen;
        dnsId \<leftarrow> readU16 dns 0;
        qdcount \<leftarrow> readU16 dns 4;
        if qdcount \<noteq> 1 then Some Ignored
        else do {
          (nameLen, host) \<leftarrow> parseDnsName dns 12;
          if nameLen < 0 \<or> host = [] then Some Ignored
          else case resolveHost (c_str host) of
                 [] \<Rightarrow> Some Ignored
               | ip # _ \<Rightarrow> map_option Dns_Reply (sendDnsReply inet_addr tunIp4 srcIp srcPort dnsId dns ip)
        }
      })"

definition handlePacket ::
  "(string \<Rightarrow> string list) \<Rightarrow> (string \<Rightarrow> bytes) \<Rightarrow> u32 \<Rightarrow> bytes \<Rightarrow> tun_action option" where
  "handlePacket resolveHost inet_addr tunIp4 data =
     (if length data < 20 then Some Ignored
      else do {
        version_ihl \<leftarrow> byte_at data 0;
        total_length \<leftarrow> readU16 data 2;
        protocol \<leftarrow> byte_at data 9;
        let ihl = unat (version_ihl AND 0x0F) * 4;
        let totalLen = unat total_length;
        if ihl < 20 \<or> totalLen < ihl \<or> totalLen > length data then Some Ignored
        else if protocol = 1 \<or> protocol = 6 then Some (To_Lwip (take totalLen data))
        else if protocol = 17 then
          if totalLen < ihl + 8 then Some Ignored
          else do {
            src_addr \<leftarrow> readU32 data 12;
            src_port \<leftarrow> readU16 data ihl;
            dst_port \<leftarrow> readU16 data (ihl + 2);
            if dst_port = 53
            then handleDnsQuery resolveHost inet_addr tunIp4 data ihl totalLen src_addr src_port
            else Some Ignored
          }
        else Some Ignored
      })"

section \<open>Names are read safely and survive the wire\<close>

lemma parse_name_loop_safe: "parse_name_loop pkt off orig jumped jumps out \<noteq> None"
proof (induction pkt off orig jumped jumps out rule: parse_name_loop.induct)
  case (1 pkt off orig jumped jumps out)
  then show ?case
    by (subst parse_name_loop.simps) (auto simp: Let_def safe_reads not_less split: option.splits)
qed

lemma parseDnsName_safe: "\<exists>r. parseDnsName pkt off = Some r"
  using parse_name_loop_safe by (auto simp: parseDnsName_def)

text \<open>The wire form of a list of labels, and the name they stand for.\<close>

fun dns_labels :: "string list \<Rightarrow> bytes" where
  "dns_labels [] = [0]"
| "dns_labels (l # ls) = word_of_nat (length l) # bytes_of_str l @ dns_labels ls"

fun dns_name :: "string list \<Rightarrow> string" where
  "dns_name [] = []"
| "dns_name [l] = l"
| "dns_name (l # ls) = l @ ''.'' @ dns_name ls"

definition label_ok :: "string \<Rightarrow> bool" where
  "label_ok l \<longleftrightarrow> l \<noteq> [] \<and> length l < 64 \<and> CHR ''.'' \<notin> set l"

lemma buildDnsName_labels:
  assumes "\<forall>l \<in> set ls. label_ok l"
  shows "buildDnsName (dns_name ls) = dns_labels ls"
  using assms
proof (induction ls rule: dns_name.induct)
  case 1
  then show ?case by (simp add: buildDnsName.simps)
next
  case (2 l)
  then have tw: "takeWhile (\<lambda>c. c \<noteq> CHR ''.'') l = l" by (auto simp: label_ok_def takeWhile_eq_all_conv)
  from 2 show ?case
    by (simp add: buildDnsName.simps [of l] buildDnsName.simps [of "[]"] label_ok_def tw)
next
  case (3 l m ls)
  then have "takeWhile (\<lambda>c. c \<noteq> CHR ''.'') (l @ ''.'' @ dns_name (m # ls)) = l"
    by (subst takeWhile_append2) (auto simp: label_ok_def)
  with 3 show ?case
    by (simp add: buildDnsName.simps [of "l @ _ # _"])
qed

lemma short_label_byte:
  assumes "0 < n" "n < 64"
  shows "word_of_nat n \<noteq> (0 :: u8)" and "(word_of_nat n :: u8) AND 0xC0 \<noteq> 0xC0" and "unat (word_of_nat n :: u8) = n"
proof -
  show u: "unat (word_of_nat n :: u8) = n" using assms by (simp add: unat_of_nat)
  then show "word_of_nat n \<noteq> (0 :: u8)" using assms by auto
  have "\<not> bit (unat (word_of_nat n :: u8)) 7"
    unfolding u using assms by (simp add: bit_iff_odd)
  then have "\<not> bit (word_of_nat n :: u8) 7" by (simp add: bit_unsigned_iff)
  moreover have "bit (0xC0 :: u8) 7" by (simp add: bit_numeral_rec)
  ultimately show "(word_of_nat n :: u8) AND 0xC0 \<noteq> 0xC0" by (metis bit_and_iff)
qed

lemma parse_name_loop_labels:
  assumes "\<forall>l \<in> set ls. label_ok l"
  shows "parse_name_loop (pre @ dns_labels ls @ post) (length pre) orig False jumps out
       = (if jumps < 20
          then Some (int (length pre + length (dns_labels ls)) - int orig,
                     strip_dot (out @ concat (map (\<lambda>l. l @ ''.'') ls)))
          else Some (-1, out))"
  using assms
proof (induction ls arbitrary: pre out)
  case Nil
  then show ?case by (subst parse_name_loop.simps) (simp add: byte_at_def nth_append)
next
  case (Cons l ls)
  then have l: "0 < length l" "length l < 64" by (auto simp: label_ok_def)
  note byte = short_label_byte [OF l]
  let ?pkt = "pre @ dns_labels (l # ls) @ post" and ?b = "word_of_nat (length l) :: u8"
  have b: "byte_at ?pkt (length pre) = Some ?b" by (simp add: byte_at_def nth_append)
  have slice: "slice_at ?pkt (length pre + 1) (length l) = Some (bytes_of_str l)"
    using slice_at_mid [of "pre @ [?b]" "length pre + 1" "bytes_of_str l" "length l" "dns_labels ls @ post"] by simp
  have n: "min (unat ?b) (length ?pkt - (length pre + 1)) = length l"
    using byte(3) by simp
  have "parse_name_loop ?pkt (length pre) orig False jumps out =
    (if jumps < 20 then parse_name_loop ?pkt (length pre + 1 + length l) orig False jumps (out @ l @ ''.'')
     else Some (-1, out))"
    using b slice n byte by (subst parse_name_loop.simps) (simp add: Let_def)
  also have "\<dots> = (if jumps < 20
     then parse_name_loop ((pre @ ?b # bytes_of_str l) @ dns_labels ls @ post) (length (pre @ ?b # bytes_of_str l))
            orig False jumps (out @ l @ ''.'')
     else Some (-1, out))"
    by simp
  finally show ?case
    using Cons.IH [of "pre @ ?b # bytes_of_str l" "out @ l @ ''.''"] Cons.prems by simp
qed

lemma dns_name_dots: "ls \<noteq> [] \<Longrightarrow> concat (map (\<lambda>l. l @ ''.'') ls) = dns_name ls @ ''.''"
  by (induction ls rule: dns_name.induct) auto

text \<open>Building and parsing a name are inverse: for labels of 1 to 63 characters without dots,
  \<open>parseDnsName\<close> reads back, at any position of a packet, the name that was built there, and
  reports the length of its wire form.\<close>

lemma dns_name_roundtrip:
  assumes ok: "\<forall>l \<in> set ls. label_ok l" and "ls \<noteq> []"
  shows "parseDnsName (pre @ buildDnsName (dns_name ls) @ post) (length pre)
       = Some (int (length (buildDnsName (dns_name ls))), dns_name ls)"
  using assms
  by (simp add: parseDnsName_def buildDnsName_labels [OF ok] parse_name_loop_labels [OF ok] dns_name_dots strip_dot_def)

section \<open>The checksum is the one's complement sum\<close>

definition be_word :: "u8 \<Rightarrow> u8 \<Rightarrow> u32" where
  "be_word a b = push_bit 8 (ucast a) OR ucast b"

fun words16 :: "bytes \<Rightarrow> nat list" where
  "words16 (a # b # r) = unat (be_word a b) # words16 r"
| "words16 [a] = [unat (be_word a 0)]"
| "words16 [] = []"

lemma u8_bitD: "bit (w :: u8) n \<Longrightarrow> n < 8"
  using u8_high_bits not_less by blast

lemma unat_ucast_u16: "unat (ucast (w :: u16) :: u32) = unat w"
  using unat_u16_bound [of w] by (simp add: unsigned_ucast_eq take_bit_nat_eq_self_iff)

lemma be_word_ucast: "be_word a b = ucast (push_bit 8 (ucast a) OR ucast b :: u16)"
  unfolding be_word_def by (intro bit_word_eqI) (auto simp: bit_simps dest: u8_bitD)

lemma be_word_le: "unat (be_word a b) \<le> 65535"
  using unat_u16_bound [of "push_bit 8 (ucast a) OR ucast b"] unfolding be_word_ucast unat_ucast_u16 by simp

lemma be_word_be16: "be_word (ucast (drop_bit 8 v)) (ucast v) = ucast (v :: u16)"
  unfolding be_word_ucast word_u16_split ..

lemma unat_csum_add:
  assumes "unat acc \<le> 65535" "unat w \<le> 65535"
  shows "unat (csum_add acc w) = (if unat acc + unat w > 65535 then unat acc + unat w - 65535 else unat acc + unat w)"
proof -
  have s: "unat (acc + w) = unat acc + unat w"
    using assms by (subst unat_add_lem [THEN iffD1]) simp_all
  have gt: "acc + w > 0xFFFF \<longleftrightarrow> unat acc + unat w > 65535"
    unfolding word_less_nat_alt s by simp
  then have "acc + w > 0xFFFF \<Longrightarrow> unat (acc + w - 0xFFFF) = unat acc + unat w - 65535"
    by (subst unat_sub) (simp_all add: s word_le_nat_alt)
  with gt s show ?thesis by (simp add: csum_add_def Let_def)
qed

text \<open>What the folded sum is: the sum of the 16-bit words modulo 65535, as a value in
  \<open>0 .. 65535\<close> that is 0 only when all words are 0.\<close>

definition folded :: "nat \<Rightarrow> nat \<Rightarrow> bool" where
  "folded s v \<longleftrightarrow> v \<le> 65535 \<and> v mod 65535 = s mod 65535 \<and> (v = 0 \<longleftrightarrow> s = 0)"

lemma folded_add:
  assumes "folded s (unat acc)" "unat w \<le> 65535"
  shows "folded (s + unat w) (unat (csum_add acc w))"
proof -
  have acc: "unat acc \<le> 65535" using assms by (simp add: folded_def)
  have "unat acc mod 65535 = s mod 65535" using assms by (simp add: folded_def)
  then have cong: "(unat acc + unat w) mod 65535 = (s + unat w) mod 65535" by (rule mod_add_cong) simp
  have zero: "unat acc = 0 \<longleftrightarrow> s = 0" using assms by (simp add: folded_def)
  show ?thesis
  proof (cases "unat acc + unat w > 65535")
    case True
    then have "(unat acc + unat w - 65535) mod 65535 = (unat acc + unat w) mod 65535"
      by (simp add: le_mod_geq [of 65535])
    with True cong acc assms(2) zero show ?thesis
      unfolding folded_def unat_csum_add [OF acc assms(2)] by auto
  next
    case False
    with cong zero show ?thesis
      unfolding folded_def unat_csum_add [OF acc assms(2)] by simp
  qed
qed

lemma csum_loop_words:
  "folded s (unat acc) \<Longrightarrow> folded (s + sum_list (words16 bs)) (unat (csum_loop bs acc))"
proof (induction bs acc arbitrary: s rule: csum_loop.induct)
  case (1 a b r acc)
  show ?case
    using "1.IH" [of "s + unat (be_word a b)"] folded_add [OF "1.prems" be_word_le, of a b]
    by (simp add: be_word_def add.assoc)
next
  case (2 a acc)
  then show ?case
    using folded_add [OF "2.prems" be_word_le, of a 0] by (simp add: be_word_def)
qed simp

lemma unat_ipCsum: "unat (ipCsum bs) = 65535 - unat (csum_loop bs 0)"
proof -
  let ?s = "csum_loop bs 0"
  have le: "unat ?s \<le> 65535"
    using csum_loop_words [of 0 0 bs] by (simp add: folded_def)
  have m: "(0xFFFF :: u32) = mask 16" by (simp add: mask_eq_exp_minus_1)
  have "ipCsum bs = NOT (ucast ?s)"
    unfolding ipCsum_def m by (intro bit_word_eqI) (auto simp: bit_simps)
  also have "\<dots> = - 1 - ucast ?s" by (simp add: not_eq_complement)
  finally have "unat (ipCsum bs) = unat (- 1 :: u16) - unat (ucast ?s :: u16)"
    by (simp add: unat_sub)
  moreover have "unat (ucast ?s :: u16) = unat ?s"
    using le by (simp add: unsigned_ucast_eq take_bit_nat_eq_self_iff)
  ultimately show ?thesis by (simp add: unsigned_minus_1_eq_mask mask_eq_exp_minus_1)
qed

lemma ip_header_words:
  "sum_list (words16 (ip_header src dst n c)) = sum_list (words16 (ip_header src dst n 0)) + unat c"
  by (simp add: ip_header_def be16_def be32_def be_word_be16 unat_ucast_u16) (simp add: be_word_def)

lemma ip_header_nonzero: "sum_list (words16 (ip_header src dst n c)) \<noteq> 0"
  by (simp add: ip_header_def be_word_def)

text \<open>The checksum of a header that carries its checksum is 0: the receiver's test.\<close>

lemma ip_header_verifies: "ipCsum (ip_header src dst n (ipCsum (ip_header src dst n 0))) = 0"
proof -
  let ?h = "ip_header src dst n 0" and ?c = "ipCsum (ip_header src dst n 0)"
  let ?s = "sum_list (words16 ?h)" and ?v = "unat (csum_loop (ip_header src dst n ?c) 0)"
  have zero: "folded 0 (unat (0 :: u32))" by (simp add: folded_def)
  define t where "t = unat (csum_loop ?h 0)"
  have 0: "folded ?s t"
    using csum_loop_words [OF zero, of ?h] by (simp add: t_def)
  have 1: "folded (?s + unat ?c) ?v"
    using csum_loop_words [OF zero, of "ip_header src dst n ?c"] by (simp add: ip_header_words [of src dst n ?c])
  have c: "unat ?c = 65535 - t" unfolding unat_ipCsum t_def ..
  have "(?s + unat ?c) mod 65535 = (t + unat ?c) mod 65535"
    using 0 by (intro mod_add_cong) (simp_all add: folded_def)
  also have "\<dots> = 0" using 0 c by (simp add: folded_def)
  finally have v: "?v mod 65535 = 0" "?v \<le> 65535" "?v \<noteq> 0"
    using 1 ip_header_nonzero [of src dst n 0] unfolding folded_def by auto
  then obtain k where k: "?v = 65535 * k" by blast
  with v have "k = 1" by (cases k) auto
  with k have "?v = 65535" by simp
  then have "unat (ipCsum (ip_header src dst n ?c)) = 0"
    unfolding unat_ipCsum [of "ip_header src dst n ?c"] by simp
  then show ?thesis by (simp add: unsigned_eq_0_iff)
qed

section \<open>The answer\<close>

lemma length_ip_header [simp]: "length (ip_header src dst n c) = 20"
  by (simp add: ip_header_def)

lemma ip_header_fields:
  "readU16 (ip_header src dst n c @ r) 2 = Some (word_of_nat n)"
  "readU32 (ip_header src dst n c @ r) 12 = Some src"
  "readU32 (ip_header src dst n c @ r) 16 = Some dst"
  using readU16_at [of "[0x45, 0]" 2 "word_of_nat n"]
    readU32_at [of "[0x45, 0] @ be16 (word_of_nat n) @ be16 12345 @ be16 0x4000 @ [64, 17] @ be16 c" 12 src]
    readU32_at [of "[0x45, 0] @ be16 (word_of_nat n) @ be16 12345 @ be16 0x4000 @ [64, 17] @ be16 c @ be32 src" 16 dst]
  by (simp_all add: ip_header_def)

lemma drop_front: "p = a @ b \<Longrightarrow> length a = n \<Longrightarrow> drop n p = b"
  by simp

text \<open>C23. The DNS answer the adapter writes is a packet the operating system accepts: for a query
  of 12 to 496 bytes it is an IPv4 packet whose header checksum verifies and whose length field
  is its length, sent from the tunnel's address to the asking address and from port 53 to the
  asking port; its DNS message has the query's id and question section and ends with the
  resolved address as the record's data.\<close>

theorem dns_reply_wellformed:
  assumes "12 \<le> length query" "length query \<le> 496" "length (inet_addr (c_str ip)) = 4"
  shows "\<exists>pkt. sendDnsReply inet_addr tunIp4 srcIp srcPort dnsId query ip = Some pkt
    \<and> length pkt = 44 + length query
    \<and> readU16 pkt 2 = Some (word_of_nat (length pkt))
    \<and> ipCsum (take 20 pkt) = 0
    \<and> readU32 pkt 12 = Some tunIp4 \<and> readU32 pkt 16 = Some srcIp
    \<and> readU16 pkt 20 = Some 53 \<and> readU16 pkt 22 = Some srcPort
    \<and> readU16 pkt 28 = Some dnsId
    \<and> take (length query - 12) (drop 40 pkt) = drop 12 query
    \<and> drop (length pkt - 4) pkt = inet_addr (c_str ip)"
proof -
  let ?n = "44 + length query"
  let ?h = "ip_header tunIp4 srcIp ?n (ipCsum (ip_header tunIp4 srcIp ?n 0))"
  let ?u = "be16 53 @ be16 srcPort @ be16 (word_of_nat (24 + length query)) @ [0, 0]"
  let ?d = "be16 dnsId @ be16 0x8180 @ be16 1 @ be16 1 @ [0, 0, 0, 0]"
  let ?a = "[0xC0, 12] @ [0, 1] @ [0, 1] @ [0, 0, 0, 60] @ [0, 4]"
  let ?pkt = "?h @ ?u @ ?d @ drop 12 query @ ?a @ inet_addr (c_str ip)"
  have sent: "sendDnsReply inet_addr tunIp4 srcIp srcPort dnsId query ip = Some ?pkt"
    using assms by (simp add: sendDnsReply_def dns_reply_message_def Let_def algebra_simps)
  define pkt where "pkt = ?pkt"
  have len: "length pkt = ?n" using assms by (simp add: pkt_def)
  have "readU16 pkt 20 = Some 53" using readU16_at [of ?h 20 53] by (simp add: pkt_def)
  moreover have "readU16 pkt 22 = Some srcPort" using readU16_at [of "?h @ be16 53" 22 srcPort] by (simp add: pkt_def)
  moreover have "readU16 pkt 28 = Some dnsId" using readU16_at [of "?h @ ?u" 28 dnsId] by (simp add: pkt_def)
  moreover have "ipCsum (take 20 pkt) = 0" by (simp add: pkt_def ip_header_verifies)
  moreover have "readU16 pkt 2 = Some (word_of_nat (length pkt))" "readU32 pkt 12 = Some tunIp4" "readU32 pkt 16 = Some srcIp"
    unfolding len unfolding pkt_def by (rule ip_header_fields)+
  moreover have "take (length query - 12) (drop 40 pkt) = drop 12 query"
    using assms by (simp add: pkt_def)
  moreover have "drop (length pkt - 4) pkt = inet_addr (c_str ip)"
  proof (rule drop_front)
    show "pkt = (?h @ ?u @ ?d @ drop 12 query @ ?a) @ inet_addr (c_str ip)" by (simp add: pkt_def)
    show "length (?h @ ?u @ ?d @ drop 12 query @ ?a) = length pkt - 4" unfolding len using assms by simp
  qed
  ultimately show ?thesis
    using sent len unfolding pkt_def [symmetric] by blast
qed

theorem dns_reply_wellformed_witness:
  "\<exists>pkt. sendDnsReply (\<lambda>_. [1, 2, 3, 4]) 0x0A000001 7 5000 77 (replicate 30 0) ''1.2.3.4'' = Some pkt
     \<and> ipCsum (take 20 pkt) = 0 \<and> length pkt = 74"
  using dns_reply_wellformed [of "replicate 30 0" "\<lambda>_. [1, 2, 3, 4]" "''1.2.3.4''" "0x0A000001" 7 5000 77] by auto


section \<open>Which packets are handled safely\<close>

lemma sendDnsReply_safe:
  "12 \<le> length query \<Longrightarrow> length query \<le> 496 \<Longrightarrow>
     sendDnsReply inet_addr tunIp4 srcIp srcPort dnsId query ip \<noteq> None"
  by (simp add: sendDnsReply_def dns_reply_message_def Let_def)

lemma handleDnsQuery_safe:
  assumes "totalLen \<le> length data" "totalLen - ihl - 8 \<le> 496" "ihl + 8 \<le> totalLen"
  shows "handleDnsQuery resolveHost inet_addr tunIp4 data ihl totalLen srcIp srcPort \<noteq> None"
proof (cases "totalLen - ihl - 8 < 12")
  case True
  then show ?thesis by (simp add: handleDnsQuery_def)
next
  case False
  let ?dns = "take (totalLen - ihl - 8) (drop (ihl + 8) data)"
  have dns: "slice_at data (ihl + 8) (totalLen - ihl - 8) = Some ?dns" "length ?dns = totalLen - ihl - 8"
    using assms by simp_all
  obtain nameLen host where "parseDnsName ?dns 12 = Some (nameLen, host)"
    using parseDnsName_safe [of ?dns 12] by auto
  moreover obtain i q where "readU16 ?dns 0 = Some i" "readU16 ?dns 4 = Some q"
    using readU16_None [of ?dns 0] readU16_None [of ?dns 4] dns(2) False by fastforce
  ultimately show ?thesis
    using False dns assms(2) sendDnsReply_safe [of ?dns inet_addr tunIp4 srcIp srcPort]
    by (simp add: handleDnsQuery_def Let_def split: list.split)
qed

lemma handlePacket_safe:
  assumes "length data \<le> 524"
  shows "handlePacket resolveHost inet_addr tunIp4 data \<noteq> None"
proof (cases "length data < 20")
  case True
  then show ?thesis by (simp add: handlePacket_def)
next
  case False
  obtain t where t: "readU16 data 2 = Some t" using False readU16_None [of data 2] by fastforce
  obtain s where s: "readU32 data 12 = Some s" using False readU32_None [of data 12] by fastforce
  have b: "byte_at data 0 = Some (data ! 0)" "byte_at data 9 = Some (data ! 9)"
    using False by (auto simp: byte_at_def)
  let ?ihl = "unat (data ! 0 AND 0x0F) * 4"
  have "handleDnsQuery resolveHost inet_addr tunIp4 data ?ihl (unat t) s p \<noteq> None"
    if "20 \<le> ?ihl" "?ihl + 8 \<le> unat t" "unat t \<le> length data" for p
    using that assms by (intro handleDnsQuery_safe) simp_all
  then show ?thesis
    using False t s b
    by (auto simp: handlePacket_def Let_def safe_reads not_less split: Option.bind_splits)
qed

text \<open>A query for the host "a" with \<open>n\<close> padding bytes after the name.\<close>

definition sample_query :: "nat \<Rightarrow> bytes" where
  "sample_query n = (be16 7 @ be16 0x0100 @ be16 1 @ replicate 6 0) @ dns_labels [''a''] @ replicate n 0"

definition sample_query_packet :: "nat \<Rightarrow> bytes" where
  "sample_query_packet n =
     ip_header 1 2 (43 + n) 0 @ be16 5000 @ be16 53 @ be16 0 @ [0, 0] @ sample_query n"

lemma sample_query_parsed:
  "readU16 (sample_query n) 0 = Some 7" "readU16 (sample_query n) 4 = Some 1"
  "parseDnsName (sample_query n) 12 = Some (3, ''a'')" "length (sample_query n) = 15 + n"
proof -
  show "readU16 (sample_query n) 0 = Some 7" using readU16_at [of "[]" 0 7] by (simp add: sample_query_def)
  show "readU16 (sample_query n) 4 = Some 1"
    using readU16_at [of "be16 7 @ be16 0x0100" 4 1] by (simp add: sample_query_def)
  show "length (sample_query n) = 15 + n" by (simp add: sample_query_def)
  show "parseDnsName (sample_query n) 12 = Some (3, ''a'')"
    using parse_name_loop_labels [of "[''a'']" "be16 7 @ be16 0x0100 @ be16 1 @ replicate 6 0" "replicate n 0" 12 0 "[]"]
    by (simp add: sample_query_def parseDnsName_def label_ok_def strip_dot_def)
qed

lemma ip_header_heads: "ip_header src dst n c ! 0 = 0x45" "ip_header src dst n c ! 9 = 17"
  by (simp_all add: ip_header_def be16_def)

lemma sample_query_dispatched:
  assumes "n \<le> 1400"
  shows "handlePacket resolveHost inet_addr tunIp4 (sample_query_packet n)
       = handleDnsQuery resolveHost inet_addr tunIp4 (sample_query_packet n) 20 (43 + n) 1 5000"
proof -
  let ?p = "sample_query_packet n" and ?h = "ip_header 1 2 (43 + n) 0"
  have len: "length ?p = 43 + n" by (simp add: sample_query_packet_def sample_query_parsed)
  have b: "byte_at ?p 0 = Some 0x45" "byte_at ?p 9 = Some 17"
    using ip_header_heads [of 1 2 "43 + n" 0] by (simp_all add: byte_at_def sample_query_packet_def nth_append)
  have ports: "readU16 ?p 20 = Some 5000" "readU16 ?p 22 = Some 53"
    using readU16_at [of ?h 20 5000] readU16_at [of "?h @ be16 5000" 22 53] by (simp_all add: sample_query_packet_def)
  have "readU16 ?p 2 = Some (word_of_nat (43 + n))" "readU32 ?p 12 = Some 1"
    unfolding sample_query_packet_def by (rule ip_header_fields)+
  then show ?thesis
    using assms b ports len by (simp add: handlePacket_def del: of_nat_add)
qed

lemma handlePacket_to_lwip:
  "handlePacket resolveHost inet_addr tunIp4 data = Some (To_Lwip p) \<Longrightarrow> length p \<le> length data"
  by (auto simp: handlePacket_def handleDnsQuery_def Let_def split: Option.bind_splits if_splits option.splits list.splits prod.splits)

text \<open>C22. Packets of up to 524 bytes from the adapter are handled without leaving any buffer,
  whatever they contain. A DNS query with more than 496 bytes of DNS message is not: the answer is
  built in a buffer of 512 bytes whose bounds nobody checks, so a padded query for any name that
  resolves overruns the heap.\<close>

theorem handlePacket_memory:
  "(length data \<le> 524 \<longrightarrow> (\<exists>a. handlePacket resolveHost inet_addr tunIp4 data = Some a))
   \<and> (482 \<le> n \<and> n \<le> 1400 \<longrightarrow>
        handlePacket (\<lambda>_. [''1.2.3.4'']) inet_addr tunIp4 (sample_query_packet n) = None)"
proof (intro conjI impI)
  show "\<exists>a. handlePacket resolveHost inet_addr tunIp4 data = Some a" if "length data \<le> 524"
    using handlePacket_safe [OF that] by auto
next
  assume n: "482 \<le> n \<and> n \<le> 1400"
  have slice: "slice_at (sample_query_packet n) 28 (15 + n) = Some (sample_query n)"
    using slice_at_mid [of "ip_header 1 2 (43 + n) 0 @ be16 5000 @ be16 53 @ be16 0 @ [0, 0]" 28 "sample_query n" "15 + n" "[]"]
    by (simp add: sample_query_packet_def sample_query_parsed)
  have "sendDnsReply inet_addr tunIp4 1 5000 7 (sample_query n) ''1.2.3.4'' = None"
    using n by (simp add: sendDnsReply_def dns_reply_message_def sample_query_parsed)
  then show "handlePacket (\<lambda>_. [''1.2.3.4'']) inet_addr tunIp4 (sample_query_packet n) = None"
    using n slice by (simp add: sample_query_dispatched handleDnsQuery_def Let_def sample_query_parsed)
qed

theorem handlePacket_memory_witness:
  "handlePacket (\<lambda>_. [''1.2.3.4'']) (\<lambda>_. [1, 2, 3, 4]) 0 (sample_query_packet 500) = None
   \<and> (\<exists>a. handlePacket (\<lambda>_. []) (\<lambda>_. []) 0 (replicate 100 69) = Some a)"
  using handlePacket_memory [of "replicate 100 69" "\<lambda>_. []" "\<lambda>_. []" 0 500]
    handlePacket_memory [of "[]" "\<lambda>_. []" "\<lambda>_. [1, 2, 3, 4]" 0 500] by simp

end
