(* ===== verification/Frame_Stream.thy ===== *)
theory Frame_Stream
  imports Protocol
begin

text \<open>
  The interface between a frame parser and the loops that drive it. Both ends of the tunnel
  receive an ADNL payload that may hold several frames, and both parse it incrementally:
  \<^verbatim>\<open>EgressNode::onAdnlMessage\<close> with \<^verbatim>\<open>tryGetFrameLength\<close> and \<^verbatim>\<open>decodeMessage\<close>,
  the desktop client with the body of \<^verbatim>\<open>decodeInboundFrames\<close>. The locale
  \<open>frame_stream\<close> states what such a step promises on the wire format; its lemma says that
  the chain of steps recovers every frame of a concatenation. Each parser interprets it.
\<close>

text \<open>
  \<open>parses step xs off ms off'\<close>: starting at \<open>off\<close>, the parser's steps yield the
  messages \<open>ms\<close> and end at \<open>off'\<close>.
\<close>

inductive parses :: "(bytes \<Rightarrow> nat \<Rightarrow> ('m \<times> nat) option option) \<Rightarrow> bytes \<Rightarrow> nat \<Rightarrow> 'm list \<Rightarrow> nat \<Rightarrow> bool"
  for step xs where
  parses_Nil: "parses step xs off [] off"
| parses_Cons: "step xs off = Some (Some (m, off')) \<Longrightarrow> off < length xs \<Longrightarrow> parses step xs off' ms off''
    \<Longrightarrow> parses step xs off (m # ms) off''"

inductive_simps parses_Nil_iff [simp]: "parses step xs off [] off'"
inductive_simps parses_Cons_iff: "parses step xs off (m # ms) off'"

definition payload_of :: "frame list \<Rightarrow> bytes" where
  "payload_of fs = concat (map wire fs)"

lemma payload_of_simps [simp]:
  "payload_of [] = []" "payload_of (f # fs) = wire f @ payload_of fs"
  by (simp_all add: payload_of_def)

locale frame_stream =
  fixes step :: "bytes \<Rightarrow> nat \<Rightarrow> ('m \<times> nat) option option"
    and view :: "frame \<Rightarrow> 'm"
  assumes step_wire: "frame_ok f \<Longrightarrow>
      step (pre @ wire f @ post) (length pre) = Some (Some (view f, length pre + length (wire f)))"
begin

lemma parses_payload:
  "\<forall>f \<in> set fs. frame_ok f \<Longrightarrow>
     parses step (pre @ payload_of fs @ post) (length pre) (map view fs) (length pre + length (payload_of fs))"
proof (induction fs arbitrary: pre)
  case Nil
  then show ?case by (simp add: parses_Nil)
next
  case (Cons f fs)
  have "step (pre @ wire f @ payload_of fs @ post) (length pre)
      = Some (Some (view f, length (pre @ wire f)))"
    using step_wire [of f pre "payload_of fs @ post"] Cons.prems by simp
  moreover have "parses step ((pre @ wire f) @ payload_of fs @ post) (length (pre @ wire f)) (map view fs)
      (length (pre @ wire f) + length (payload_of fs))"
    using Cons.prems by (intro Cons.IH) simp
  ultimately show ?case
    by (auto intro!: parses_Cons simp: add.assoc)
qed

end

end
