(* ===== verification/Ton_Protocol.thy ===== *)
theory Ton_Protocol
  imports Frame_Stream
begin

text \<open>
  The desktop client's codec: \<^verbatim>\<open>TON-Tunnel/TonProtocol.hpp\<close> and
  \<^verbatim>\<open>TON-Tunnel/TonProtocol.cpp\<close>. Its byte-order helpers are the same code as the
  server's and are shared with theory \<open>Protocol\<close>. \<open>decode_frame\<close> is the body of the
  \<^verbatim>\<open>while\<close> loop of \<^verbatim>\<open>decodeInboundFrames\<close>: the outer \<open>None\<close> is a read outside the
  packet, the inner \<open>None\<close> is the early \<^verbatim>\<open>return {}\<close>.
\<close>

section \<open>Frames\<close>

datatype FrameType = FT_Unknown | FT_Open | FT_Data | FT_Close | FT_Error | FT_Other u8

definition frame_type :: "u8 \<Rightarrow> FrameType" where
  "frame_type b =
     (if b = 0 then FT_Unknown else if b = 1 then FT_Open else if b = 2 then FT_Data
      else if b = 3 then FT_Close else if b = 4 then FT_Error else FT_Other b)"

record InboundFrame =
  if_type :: FrameType
  if_streamId :: u32
  if_payload :: bytes
  if_errorMessage :: string
  if_rawFrame :: bytes


section \<open>Encoding\<close>

definition encodeOpenFrame :: "u32 \<Rightarrow> string \<Rightarrow> u16 \<Rightarrow> string \<Rightarrow> bytes" where
  "encodeOpenFrame streamId host port token =
     (let out = writeU32 [1] streamId;
          out = writeU16 out (word_of_nat (length host));
          out = out @ bytes_of_str host;
          out = writeU16 out port;
          out = writeU16 out (word_of_nat (length token))
      in out @ bytes_of_str token)"

definition encodeOpenAckFrame :: "u32 \<Rightarrow> bytes" where
  "encodeOpenAckFrame streamId = writeU32 [1] streamId"

definition encodeDataFrame :: "u32 \<Rightarrow> bytes \<Rightarrow> bytes" where
  "encodeDataFrame streamId payload =
     (let out = writeU32 [2] streamId;
          out = writeU32 out (word_of_nat (length payload))
      in out @ payload)"

definition encodeCloseFrame :: "u32 \<Rightarrow> bytes" where
  "encodeCloseFrame streamId = writeU32 [3] streamId"

definition encodeErrorFrame :: "u32 \<Rightarrow> string \<Rightarrow> bytes" where
  "encodeErrorFrame streamId message =
     (let out = writeU32 [4] streamId;
          out = writeU16 out (word_of_nat (length message))
      in out @ bytes_of_str message)"


section \<open>Decoding\<close>

text \<open>
  The OPEN case accepts the request form and the bare acknowledgement: when the bytes after
  the header do not hold a complete request body, the cursor is rewound to the header's end.
\<close>

definition open_body_end :: "bytes \<Rightarrow> nat \<Rightarrow> nat option" where
  "open_body_end bs cursor =
     (if cursor + 2 \<le> length bs then do {
        hostLen \<leftarrow> readU16 bs cursor;
        if cursor + 2 + unat hostLen + 2 + 2 \<le> length bs then do {
          tokenLen \<leftarrow> readU16 bs (cursor + 2 + unat hostLen + 2);
          if cursor + 2 + unat hostLen + 2 + 2 + unat tokenLen \<le> length bs
          then Some (cursor + 2 + unat hostLen + 2 + 2 + unat tokenLen)
          else Some cursor
        } else Some cursor
      } else Some cursor)"

definition decode_frame :: "bytes \<Rightarrow> nat \<Rightarrow> (InboundFrame \<times> nat) option option" where
  "decode_frame bs frameStart = do {
     b0 \<leftarrow> byte_at bs frameStart;
     let type = frame_type b0;
     streamId \<leftarrow> readU32 bs (frameStart + 1);
     let cursor = frameStart + 5;
     let f = \<lparr>if_type = type, if_streamId = streamId, if_payload = [], if_errorMessage = [], if_rawFrame = []\<rparr>;
     body \<leftarrow>
       (case type of
          FT_Open \<Rightarrow> do { e \<leftarrow> open_body_end bs cursor; Some (Some (f, e)) }
        | FT_Close \<Rightarrow> Some (Some (f, cursor))
        | FT_Data \<Rightarrow>
            if cursor + 4 > length bs then Some None
            else do {
              payloadLen \<leftarrow> readU32 bs cursor;
              if cursor + 4 + unat payloadLen > length bs then Some None
              else do {
                p \<leftarrow> slice_at bs (cursor + 4) (unat payloadLen);
                Some (Some (f\<lparr>if_payload := p\<rparr>, cursor + 4 + unat payloadLen))
              }
            }
        | FT_Error \<Rightarrow>
            if cursor + 2 > length bs then Some None
            else do {
              msgLen \<leftarrow> readU16 bs cursor;
              if cursor + 2 + unat msgLen > length bs then Some None
              else do {
                m \<leftarrow> slice_at bs (cursor + 2) (unat msgLen);
                Some (Some (f\<lparr>if_errorMessage := str_of_bytes m\<rparr>, cursor + 2 + unat msgLen))
              }
            }
        | _ \<Rightarrow> Some None);
     (case body of
        None \<Rightarrow> Some None
      | Some (f, cursor) \<Rightarrow> do {
          raw \<leftarrow> slice_at bs frameStart (cursor - frameStart);
          Some (Some (f\<lparr>if_rawFrame := raw\<rparr>, cursor))
        })
   }"

lemma open_body_end_ge: "open_body_end bs c = Some e \<Longrightarrow> c \<le> e \<and> (c \<le> length bs \<longrightarrow> e \<le> length bs)"
  by (auto simp: open_body_end_def split: if_splits Option.bind_splits)

lemma decode_frame_progress: "decode_frame bs c = Some (Some (f, c')) \<Longrightarrow> c + 5 \<le> c'"
  by (auto simp: decode_frame_def Let_def split: if_splits Option.bind_splits FrameType.splits option.splits
      dest: open_body_end_ge)

function decode_loop :: "bytes \<Rightarrow> nat \<Rightarrow> InboundFrame list \<Rightarrow> InboundFrame list option" where
  "decode_loop bs cursor out =
     (if cursor + 5 \<le> length bs then
        (case decode_frame bs cursor of
           None \<Rightarrow> None
         | Some None \<Rightarrow> Some []
         | Some (Some (f, cursor')) \<Rightarrow> decode_loop bs cursor' (out @ [f]))
      else Some out)"
  by pat_completeness auto
termination
  by (relation "measure (\<lambda>(bs, cursor, out). length bs - cursor)")
     (auto dest: decode_frame_progress)

declare decode_loop.simps [simp del]

definition decodeInboundFrames :: "bytes \<Rightarrow> InboundFrame list option" where
  "decodeInboundFrames bs = decode_loop bs 0 []"


section \<open>The client's encoders write the shared wire format\<close>

lemma client_encoders_wire [codec_simps]:
  "encodeOpenFrame i host port token = wire (Open_Frame i host port token)"
  "encodeDataFrame i payload = wire (Data_Frame i payload)"
  "encodeCloseFrame i = wire (Close_Frame i)"
  "encodeErrorFrame i msg = wire (Error_Frame i msg)"
  by (simp_all add: encodeOpenFrame_def encodeDataFrame_def encodeCloseFrame_def encodeErrorFrame_def
      codec_simps Let_def)

fun inbound_of :: "frame \<Rightarrow> InboundFrame" where
  "inbound_of (Open_Frame i host port token) =
     \<lparr>if_type = FT_Open, if_streamId = i, if_payload = [], if_errorMessage = [],
      if_rawFrame = wire (Open_Frame i host port token)\<rparr>"
| "inbound_of (Data_Frame i p) =
     \<lparr>if_type = FT_Data, if_streamId = i, if_payload = p, if_errorMessage = [],
      if_rawFrame = wire (Data_Frame i p)\<rparr>"
| "inbound_of (Close_Frame i) =
     \<lparr>if_type = FT_Close, if_streamId = i, if_payload = [], if_errorMessage = [],
      if_rawFrame = wire (Close_Frame i)\<rparr>"
| "inbound_of (Error_Frame i m) =
     \<lparr>if_type = FT_Error, if_streamId = i, if_payload = [], if_errorMessage = m,
      if_rawFrame = wire (Error_Frame i m)\<rparr>"


section \<open>Decoding is safe and recovers every frame\<close>

lemma open_body_end_safe: "open_body_end bs c \<noteq> None"
  by (auto simp: open_body_end_def safe_reads not_less split: Option.bind_splits)

lemma open_body_end_le: "open_body_end bs c = Some e \<Longrightarrow> c \<le> length bs \<Longrightarrow> e \<le> length bs"
  using open_body_end_ge by blast

lemma decode_frame_safe: "c + 5 \<le> length bs \<Longrightarrow> decode_frame bs c \<noteq> None"
  using open_body_end_safe [of bs "c + 5"]
  by (auto simp: decode_frame_def Let_def safe_reads not_less open_body_end_safe
      split: Option.bind_splits FrameType.splits option.splits if_splits
      dest: open_body_end_le open_body_end_ge)

lemma decode_loop_safe: "decode_loop bs cursor out \<noteq> None"
proof (induction bs cursor out rule: decode_loop.induct)
  case (1 bs cursor out)
  then show ?case
    using decode_frame_safe [of cursor bs]
    by (subst decode_loop.simps) (auto split: option.splits prod.splits)
qed

text \<open>C30. The client's packet parser never reads outside the packet and always terminates:
  for every byte string it returns a (possibly empty) list of frames.\<close>

theorem decodeInboundFrames_total_safe: "\<exists>frames. decodeInboundFrames bs = Some frames"
  using decode_loop_safe [of bs 0 "[]"] by (simp add: decodeInboundFrames_def)

lemma raw_slice: "length xs = i \<Longrightarrow> slice_at (xs @ ys @ zs) i (length ys) = Some ys"
  by (rule slice_at_mid) simp_all

lemma decode_frame_close:
  "decode_frame (pre @ wire (Close_Frame i) @ post) (length pre) =
     Some (Some (inbound_of (Close_Frame i), length pre + length (wire (Close_Frame i))))"
proof -
  have "readU32 (pre @ wire (Close_Frame i) @ post) (Suc (length pre)) = Some i"
    using readU32_at [of "pre @ [3]" "Suc (length pre)" i] by simp
  moreover have "slice_at (pre @ wire (Close_Frame i) @ post) (length pre) 5 = Some (wire (Close_Frame i))"
    using raw_slice [of pre "length pre" "wire (Close_Frame i)"] by simp
  ultimately show ?thesis
    by (simp add: decode_frame_def frame_type_def byte_at_def)
qed

lemma decode_frame_data:
  assumes "length p < 2 ^ 32"
  shows "decode_frame (pre @ wire (Data_Frame i p) @ post) (length pre) =
     Some (Some (inbound_of (Data_Frame i p), length pre + length (wire (Data_Frame i p))))"
proof -
  let ?l = "word_of_nat (length p) :: u32" and ?in = "pre @ wire (Data_Frame i p) @ post"
  have "readU32 ?in (Suc (length pre)) = Some i"
    using readU32_at [of "pre @ [2]" "Suc (length pre)" i] by simp
  moreover have "readU32 ?in (length pre + 5) = Some ?l"
    using readU32_at [of "pre @ 2 # be32 i" "length pre + 5" ?l] by simp
  moreover have "slice_at ?in (length pre + 9) (length p) = Some p"
    using slice_at_mid [of "pre @ 2 # be32 i @ be32 ?l" "length pre + 9" p] by simp
  moreover have "slice_at ?in (length pre) (9 + length p) = Some (wire (Data_Frame i p))"
    using raw_slice [of pre "length pre" "wire (Data_Frame i p)"] by simp
  ultimately show ?thesis
    using assms by (simp add: decode_frame_def frame_type_def byte_at_def)
qed

lemma decode_frame_error:
  assumes "length m < 2 ^ 16"
  shows "decode_frame (pre @ wire (Error_Frame i m) @ post) (length pre) =
     Some (Some (inbound_of (Error_Frame i m), length pre + length (wire (Error_Frame i m))))"
proof -
  let ?l = "word_of_nat (length m) :: u16" and ?in = "pre @ wire (Error_Frame i m) @ post"
  have "readU32 ?in (Suc (length pre)) = Some i"
    using readU32_at [of "pre @ [4]" "Suc (length pre)" i] by simp
  moreover have "readU16 ?in (length pre + 5) = Some ?l"
    using readU16_at [of "pre @ 4 # be32 i" "length pre + 5" ?l] by simp
  moreover have "slice_at ?in (length pre + 7) (length m) = Some (bytes_of_str m)"
    using slice_at_mid [of "pre @ 4 # be32 i @ be16 ?l" "length pre + 7" "bytes_of_str m"] by simp
  moreover have "slice_at ?in (length pre) (7 + length m) = Some (wire (Error_Frame i m))"
    using raw_slice [of pre "length pre" "wire (Error_Frame i m)"] by simp
  ultimately show ?thesis
    using assms by (simp add: decode_frame_def frame_type_def byte_at_def)
qed

lemma open_body_end_request:
  assumes "length host < 2 ^ 16" "length token < 2 ^ 16" and c: "c = length pre"
  shows "open_body_end (pre @ be16 (word_of_nat (length host)) @ bytes_of_str host @ be16 port
           @ be16 (word_of_nat (length token)) @ bytes_of_str token @ post) c
       = Some (c + 6 + length host + length token)" (is "open_body_end ?in c = _")
proof -
  let ?hl = "word_of_nat (length host) :: u16" and ?tl = "word_of_nat (length token) :: u16"
  have "readU16 ?in c = Some ?hl"
    using readU16_at [of pre c ?hl] c by simp
  moreover have "readU16 ?in (c + 2 + length host + 2) = Some ?tl"
    using readU16_at [of "pre @ be16 ?hl @ bytes_of_str host @ be16 port" "c + 2 + length host + 2" ?tl] c
    by simp
  ultimately show ?thesis
    using assms by (simp add: open_body_end_def)
qed

lemma decode_frame_open:
  assumes "length host < 2 ^ 16" "length token < 2 ^ 16"
  shows "decode_frame (pre @ wire (Open_Frame i host port token) @ post) (length pre) =
     Some (Some (inbound_of (Open_Frame i host port token),
                 length pre + length (wire (Open_Frame i host port token))))"
proof -
  let ?w = "wire (Open_Frame i host port token)" and ?in = "pre @ wire (Open_Frame i host port token) @ post"
  have "readU32 ?in (Suc (length pre)) = Some i"
    using readU32_at [of "pre @ [1]" "Suc (length pre)" i] by simp
  moreover have "open_body_end ?in (length pre + 5) = Some (length pre + 11 + length host + length token)"
    using open_body_end_request [OF assms, of "length pre + 5" "pre @ 1 # be32 i" port post] by simp
  moreover have "slice_at ?in (length pre) (11 + (length host + length token)) = Some ?w"
    using raw_slice [of pre "length pre" ?w post] by simp
  ultimately show ?thesis
    by (simp add: add.assoc decode_frame_def frame_type_def byte_at_def)
qed

interpretation client_frames: frame_stream decode_frame inbound_of
proof unfold_locales
  fix f pre post assume "frame_ok f"
  then show "decode_frame (pre @ wire f @ post) (length pre)
      = Some (Some (inbound_of f, length pre + length (wire f)))"
    using decode_frame_open decode_frame_data decode_frame_close decode_frame_error
    by (cases f) (simp_all del: wire.simps inbound_of.simps)
qed

lemma decode_frame_header: "decode_frame bs c = Some (Some r) \<Longrightarrow> c + 5 \<le> length bs"
  by (auto simp: decode_frame_def Let_def dest: readU32_SomeD(1) split: Option.bind_splits)

lemma decode_loop_parses:
  "parses decode_frame bs cursor fs cursor' \<Longrightarrow> decode_loop bs cursor out = decode_loop bs cursor' (out @ fs)"
proof (induction arbitrary: out rule: parses.induct)
  case (parses_Nil off)
  then show ?case by simp
next
  case (parses_Cons off m off' ms off'')
  then have "decode_loop bs off out = decode_loop bs off' (out @ [m])"
    using decode_frame_header by (subst decode_loop.simps) simp
  with parses_Cons.IH show ?case by simp
qed

lemma decode_loop_stop: "length bs < cursor + 5 \<Longrightarrow> decode_loop bs cursor out = Some out"
  by (subst decode_loop.simps) simp

lemma decode_payload:
  assumes ok: "\<forall>f \<in> set fs. frame_ok f" and stray: "length tail < 5"
  shows "decodeInboundFrames (payload_of fs @ tail) = Some (map inbound_of fs)"
proof -
  have "parses decode_frame (payload_of fs @ tail) 0 (map inbound_of fs) (length (payload_of fs))"
    using client_frames.parses_payload [OF ok, of "[]" tail] by simp
  then have "decodeInboundFrames (payload_of fs @ tail)
      = decode_loop (payload_of fs @ tail) (length (payload_of fs)) (map inbound_of fs)"
    by (simp add: decodeInboundFrames_def decode_loop_parses)
  then show ?thesis
    using stray by (simp add: decode_loop_stop)
qed

text \<open>C29. Every sequence of well-formed frames, concatenated in one ADNL payload, is recovered
  by the client frame by frame and in order, each with its raw bytes; up to four stray bytes
  at the end are ignored.\<close>

theorem decodeInboundFrames_payload:
  assumes ok: "\<forall>f \<in> set fs. frame_ok f" and stray: "length tail < 5"
  shows "decodeInboundFrames (payload_of fs @ tail) = Some (map inbound_of fs)"
  using assms by (rule decode_payload)

theorem decodeInboundFrames_payload_witness:
  "decodeInboundFrames (payload_of [Data_Frame 5 [0xAB], Close_Frame 5] @ [0])
     = Some [inbound_of (Data_Frame 5 [0xAB]), inbound_of (Close_Frame 5)]"
  using decodeInboundFrames_payload [of "[Data_Frame 5 [0xAB], Close_Frame 5]" "[0]"] by simp

definition ack_frame :: "u32 \<Rightarrow> InboundFrame" where
  "ack_frame i = \<lparr>if_type = FT_Open, if_streamId = i, if_payload = [], if_errorMessage = [],
                  if_rawFrame = encodeOpenAckFrame i\<rparr>"

lemma ack_bytes: "encodeOpenAckFrame i = 1 # be32 i"
  by (simp add: encodeOpenAckFrame_def codec_simps)

lemma decode_ack: "decodeInboundFrames (encodeOpenAckFrame i) = Some [ack_frame i]"
proof -
  have "readU32 (1 # be32 i) 1 = Some i"
    using readU32_at [of "[1]" 1 i "[]"] by simp
  then have "decode_frame (1 # be32 i) 0 = Some (Some (ack_frame i, 5))"
    by (simp add: decode_frame_def frame_type_def open_body_end_def ack_frame_def ack_bytes)
  then show ?thesis
    by (simp add: decodeInboundFrames_def ack_bytes decode_loop.simps [of _ 0] decode_loop_stop)
qed

text \<open>A bare OPEN acknowledgement that travels alone (as the server sends it) is decoded
  as an OPEN frame of that stream, whichever side encoded it.\<close>

lemma open_ack_alone:
  "decodeInboundFrames (encodeOpenAckFrame i) = Some [ack_frame i]
   \<and> encodeOpen \<lparr>cm_stream_id = i\<rparr> = encodeOpenAckFrame i"
proof
  show "decodeInboundFrames (encodeOpenAckFrame i) = Some [ack_frame i]" by (rule decode_ack)
  show "encodeOpen \<lparr>cm_stream_id = i\<rparr> = encodeOpenAckFrame i" by (simp add: codec_simps ack_bytes)
qed

lemma nth_zero_tail: "length A \<le> k \<Longrightarrow> k < length A + n \<Longrightarrow> (A @ replicate n (0 :: u8)) ! k = 0"
  by (simp add: nth_append)

lemma read_zero_tail:
  "length A \<le> k \<Longrightarrow> k + 2 \<le> length A + n \<Longrightarrow> readU16 (A @ replicate n 0) k = Some 0"
  by (simp add: readU16_def nth_zero_tail)

text \<open>A bare acknowledgement that shares its ADNL payload with a following DATA frame is
  misread: the DATA frame's header is taken for the host length of an OPEN request. For a
  stream id below \<open>2 ^ 24\<close> and a payload of at least 514 zero bytes the parser then meets an
  unknown type and drops the whole packet, the acknowledgement included.\<close>

lemma batched_open_ack_is_lost:
  assumes j: "drop_bit 24 j = 0" and n: "514 \<le> n"
  shows "decodeInboundFrames (encodeOpenAckFrame i @ encodeDataFrame j (replicate n 0)) = Some []"
proof -
  define A where "A = 1 # be32 i @ 2 # be32 j @ be32 (word_of_nat n)"
  have eq: "encodeOpenAckFrame i @ encodeDataFrame j (replicate n 0) = A @ replicate n 0"
    by (simp add: A_def ack_bytes codec_simps)
  have len: "length A = 14" by (simp add: A_def)
  let ?bs = "A @ replicate n 0"
  have lbs: "length ?bs = 14 + n" using len by simp
  have b0: "byte_at ?bs 0 = Some 1" by (simp add: A_def)
  have id: "readU32 ?bs 1 = Some i"
    using readU32_at [of "[1]" 1 i] by (simp add: A_def)
  have "A ! 5 = 2" "A ! 6 = 0"
    using j by (simp_all add: A_def be32_def)
  then have hl: "readU16 ?bs 5 = Some 0x200"
    using len by (simp add: readU16_def nth_append)
  have tl: "readU16 ?bs 521 = Some 0"
    using n len by (intro read_zero_tail) simp_all
  have body: "open_body_end ?bs 5 = Some 523"
    using hl tl n lbs by (simp add: open_body_end_def)
  have "\<exists>f. decode_frame ?bs 0 = Some (Some (f, 523))"
    using b0 id body n lbs by (simp add: decode_frame_def frame_type_def)
  then obtain f where f: "decode_frame ?bs 0 = Some (Some (f, 523))" ..
  have "?bs ! 523 = 0"
    using n len by (intro nth_zero_tail) simp_all
  moreover obtain v where "readU32 ?bs 524 = Some v"
    using n lbs readU32_None [of ?bs 524] by fastforce
  ultimately have "decode_frame ?bs 523 = Some None"
    using n lbs by (simp add: decode_frame_def frame_type_def)
  then have "decode_loop ?bs 523 [f] = Some []"
    using n lbs by (subst decode_loop.simps) simp
  then show ?thesis
    using f n lbs by (simp add: decodeInboundFrames_def eq decode_loop.simps [of ?bs 0])
qed

end
