(* ===== verification/Client_Core.thy ===== *)
theory Client_Core
  imports Ton_Protocol
begin

text \<open>
  The desktop client's stream multiplexer: \<^verbatim>\<open>TON-Tunnel/TonClientCore.hpp\<close> and
  \<^verbatim>\<open>TonClientCore.cpp\<close>. The core is a record over the state \<open>'b\<close> of its
  \<^verbatim>\<open>ITransportBackend\<close>, whose two operations are arguments; the locale
  \<open>transport_backend\<close> states their contract. Waiting on the condition variable is modelled
  by turns: in each turn of the loop of \<open>openStream\<close> the environment (the receiver thread)
  may change the core before the queue is inspected.
\<close>

section \<open>The backend interface\<close>

type_synonym 'b packet_sender = "bytes \<Rightarrow> 'b \<Rightarrow> int \<times> 'b"
type_synonym 'b packet_receiver = "'b \<Rightarrow> bytes option \<times> 'b"

text \<open>
  \<open>accepted\<close> lists the packets taken over for transmission, \<open>inbound\<close> those waiting to be
  received, \<open>carried\<close> are the packets the backend transmits at all (the DATA frames of the
  core are among them): for these a send is recorded exactly when it reports 0. Packets are
  received in the order in which they wait.
\<close>

locale transport_backend =
  fixes sendPacket :: "'b packet_sender"
    and receivePacket :: "'b packet_receiver"
    and accepted :: "'b \<Rightarrow> bytes list"
    and inbound :: "'b \<Rightarrow> bytes list"
    and carried :: "bytes \<Rightarrow> bool"
  assumes send_accepted: "carried p \<Longrightarrow>
      accepted (snd (sendPacket p b)) = accepted b @ (if fst (sendPacket p b) = 0 then [p] else [])"
    and data_carried: "d \<noteq> [] \<Longrightarrow> length d \<le> 1200 \<Longrightarrow> carried (encodeDataFrame i d)"
    and receive_empty: "inbound b = [] \<Longrightarrow> fst (receivePacket b) = None"
    and receive_next: "inbound b = p # ps \<Longrightarrow> fst (receivePacket b) = Some p \<and> inbound (snd (receivePacket b)) = ps"
    and receive_accepted: "accepted (snd (receivePacket b)) = accepted b"


section \<open>The loopback backend\<close>

text \<open>\<open>lb_accepted\<close> is a ghost log; the code keeps only the queue of responses.\<close>

record loopback =
  lb_queue :: "bytes list"
  lb_accepted :: "bytes list"

definition LoopbackBackend :: loopback where
  "LoopbackBackend = \<lparr>lb_queue = [], lb_accepted = []\<rparr>"

definition loopback_response :: "InboundFrame \<Rightarrow> bytes option" where
  "loopback_response f =
     (case if_type f of
        FT_Open \<Rightarrow> Some (encodeOpenAckFrame (if_streamId f))
      | FT_Data \<Rightarrow> Some (encodeDataFrame (if_streamId f) (if_payload f))
      | FT_Close \<Rightarrow> Some (encodeCloseFrame (if_streamId f))
      | FT_Error \<Rightarrow> Some (encodeErrorFrame (if_streamId f)
                     (if if_errorMessage f = [] then ''loopback'' else if_errorMessage f))
      | _ \<Rightarrow> None)"

definition loopback_sendPacket :: "loopback packet_sender" where
  "loopback_sendPacket packet lb =
     (case the (decodeInboundFrames packet) of
        [] \<Rightarrow> (-1, lb)
      | f # _ \<Rightarrow>
          (case loopback_response f of
             None \<Rightarrow> (-2, lb)
           | Some response \<Rightarrow> (0, lb\<lparr>lb_queue := lb_queue lb @ [response], lb_accepted := lb_accepted lb @ [packet]\<rparr>)))"

definition loopback_receivePacket :: "loopback packet_receiver" where
  "loopback_receivePacket lb =
     (case lb_queue lb of [] \<Rightarrow> (None, lb) | p # ps \<Rightarrow> (Some p, lb\<lparr>lb_queue := ps\<rparr>))"

interpretation loopback: transport_backend loopback_sendPacket loopback_receivePacket lb_accepted lb_queue "\<lambda>_. True"
  by unfold_locales
     (auto simp: loopback_sendPacket_def loopback_receivePacket_def split: list.splits option.splits)


section \<open>The core\<close>

record 'b core =
  backend :: 'b
  core_running :: bool
  streamQueues :: "(u32 \<times> InboundFrame list) list"
  pendingOpenMs :: "(u32 \<times> int) list"
  openOk :: int
  openFail :: int
  openTimeout :: int
  txBytes :: int
  rxBytes :: int

definition kOpenTimeoutMs :: int where "kOpenTimeoutMs = 20000"
definition kOpenCloseGraceMs :: int where "kOpenCloseGraceMs = 250"
definition kDataSegmentSize :: nat where "kDataSegmentSize = 1200"

definition TonClientCore :: "'b \<Rightarrow> 'b core" where
  "TonClientCore b = \<lparr>backend = b, core_running = False, streamQueues = [], pendingOpenMs = [],
     openOk = 0, openFail = 0, openTimeout = 0, txBytes = 0, rxBytes = 0\<rparr>"

text \<open>\<open>has_backend\<close> is \<^verbatim>\<open>backend_ != nullptr\<close>; the second start finds \<^verbatim>\<open>running_\<close> set and
  changes nothing.\<close>

definition core_start :: "bool \<Rightarrow> 'b core \<Rightarrow> bool \<times> 'b core" where
  "core_start has_backend c = (if \<not> has_backend then (False, c) else (True, c\<lparr>core_running := True\<rparr>))"

definition core_stop :: "'b core \<Rightarrow> 'b core" where
  "core_stop c = c\<lparr>core_running := False\<rparr>"

definition registerStream :: "u32 \<Rightarrow> 'b core \<Rightarrow> 'b core" where
  "registerStream streamId c =
     (case map_of (streamQueues c) streamId of
        Some q \<Rightarrow> c
      | None \<Rightarrow> c\<lparr>streamQueues := AList.update streamId [] (streamQueues c)\<rparr>)"

definition unregisterStream :: "u32 \<Rightarrow> 'b core \<Rightarrow> 'b core" where
  "unregisterStream streamId c =
     c\<lparr>streamQueues := AList.delete streamId (streamQueues c),
       pendingOpenMs := AList.delete streamId (pendingOpenMs c)\<rparr>"

text \<open>The wait on the condition variable ended (frame or timeout): take the next frame, if
  any.\<close>

definition awaitStreamFrame :: "u32 \<Rightarrow> 'b core \<Rightarrow> InboundFrame option \<times> 'b core" where
  "awaitStreamFrame streamId c =
     (case map_of (streamQueues c) streamId of
        Some (f # q) \<Rightarrow> (Some f, c\<lparr>streamQueues := AList.update streamId q (streamQueues c)\<rparr>)
      | _ \<Rightarrow> (None, c))"

definition send_packet :: "'b packet_sender \<Rightarrow> bytes \<Rightarrow> 'b core \<Rightarrow> int \<times> 'b core" where
  "send_packet send packet c =
     (case send packet (backend c) of (rc, b) \<Rightarrow>
        (rc, c\<lparr>backend := b, txBytes := txBytes c + int (length packet)\<rparr>))"

definition erase_pending :: "u32 \<Rightarrow> 'b core \<Rightarrow> 'b core" where
  "erase_pending streamId c = c\<lparr>pendingOpenMs := AList.delete streamId (pendingOpenMs c)\<rparr>"

text \<open>
  One turn of the waiting loop of \<open>openStream\<close>: the clock read by the loop condition and by
  the grace check, what the receiver thread does during the wait, and the clock when a CLOSE
  was taken. The loop has not returned (\<open>None\<close>) when the turns run out before the deadline.
\<close>

record 'b turn =
  t_now :: int
  t_grace :: int
  t_receiver :: "'b core \<Rightarrow> 'b core"
  t_after :: int

fun open_loop :: "u32 \<Rightarrow> int \<Rightarrow> 'b turn list \<Rightarrow> int option \<Rightarrow> 'b core \<Rightarrow> (int \<times> 'b core) option" where
  "open_loop streamId deadline [] closeSeenAt c = None"
| "open_loop streamId deadline (t # ts) closeSeenAt c =
     (if \<not> t_now t < deadline then
        Some (-2, (erase_pending streamId c)\<lparr>openTimeout := openTimeout c + 1\<rparr>)
      else if (case closeSeenAt of None \<Rightarrow> False | Some seen \<Rightarrow> kOpenCloseGraceMs - (t_grace t - seen) \<le> 0) then
        Some (-4, c\<lparr>openFail := openFail c + 1\<rparr>)
      else
        case awaitStreamFrame streamId (t_receiver t c) of
          (None, c) \<Rightarrow> open_loop streamId deadline ts closeSeenAt c
        | (Some f, c) \<Rightarrow>
            (case if_type f of
               FT_Open \<Rightarrow> Some (0, (erase_pending streamId c)\<lparr>openOk := openOk c + 1\<rparr>)
             | FT_Error \<Rightarrow> Some (-3, c\<lparr>openFail := openFail c + 1\<rparr>)
             | FT_Close \<Rightarrow>
                 open_loop streamId deadline ts
                   (case closeSeenAt of None \<Rightarrow> Some (t_after t) | Some s \<Rightarrow> Some s) c
             | _ \<Rightarrow> open_loop streamId deadline ts closeSeenAt c))"

text \<open>\<open>now\<close> is the clock when the OPEN is recorded as pending, \<open>sent\<close> after it was sent.\<close>

definition openStream ::
  "'b packet_sender \<Rightarrow> int \<Rightarrow> int \<Rightarrow> 'b turn list \<Rightarrow> u32 \<Rightarrow> string \<Rightarrow> u16 \<Rightarrow> string \<Rightarrow> 'b core \<Rightarrow> (int \<times> 'b core) option" where
  "openStream send now sent turns streamId host port token c =
     (let c = registerStream streamId c;
          c = c\<lparr>pendingOpenMs := AList.update streamId now (pendingOpenMs c)\<rparr> in
      case send_packet send (encodeOpenFrame streamId host port token) c of (rc, c) \<Rightarrow>
      if rc \<noteq> 0 then Some (-1, c\<lparr>openFail := openFail c + 1\<rparr>)
      else open_loop streamId (sent + kOpenTimeoutMs) turns None c)"

function sendStreamData :: "'b packet_sender \<Rightarrow> u32 \<Rightarrow> bytes \<Rightarrow> 'b core \<Rightarrow> int \<times> 'b core" where
  "sendStreamData send streamId payload c =
     (if payload = [] then (0, c)
      else
        case send_packet send (encodeDataFrame streamId (take kDataSegmentSize payload)) c of (rc, c) \<Rightarrow>
        if rc \<noteq> 0 then (-1, c)
        else sendStreamData send streamId (drop kDataSegmentSize payload) c)"
  by pat_completeness auto
termination
  by (relation "measure (\<lambda>(_, _, payload, _). length payload)") (auto simp: kDataSegmentSize_def)

declare sendStreamData.simps [simp del]

definition core_closeStream :: "'b packet_sender \<Rightarrow> u32 \<Rightarrow> 'b core \<Rightarrow> int \<times> 'b core" where
  "core_closeStream send streamId c = send_packet send (encodeCloseFrame streamId) (erase_pending streamId c)"

definition snapshotCounters :: "'b core \<Rightarrow> int \<times> int \<times> int \<times> int \<times> int" where
  "snapshotCounters c = (openOk c, openFail c, openTimeout c, txBytes c, rxBytes c)"

text \<open>The receiver thread: one frame, one packet.\<close>

definition deliver_frame :: "InboundFrame \<Rightarrow> (u32 \<times> InboundFrame list) list \<Rightarrow> (u32 \<times> InboundFrame list) list" where
  "deliver_frame f qs =
     (case map_of qs (if_streamId f) of
        Some q \<Rightarrow> AList.update (if_streamId f) (q @ [f]) qs
      | None \<Rightarrow>
          if if_type f = FT_Open \<or> if_type f = FT_Close \<or> if_type f = FT_Error
          then AList.update (if_streamId f) [f] qs else qs)"

definition receiver_iteration :: "'b packet_receiver \<Rightarrow> 'b core \<Rightarrow> 'b core" where
  "receiver_iteration receive c =
     (case receive (backend c) of
        (None, b) \<Rightarrow> c\<lparr>backend := b\<rparr>
      | (Some packet, b) \<Rightarrow>
          let c = c\<lparr>backend := b, rxBytes := rxBytes c + int (length packet)\<rparr>;
              frames = the (decodeInboundFrames packet) in
          if frames = [] then c
          else c\<lparr>streamQueues := fold deliver_frame frames (streamQueues c)\<rparr>)"

section \<open>Waiting for the acknowledgement\<close>

abbreviation open_counters :: "'b core \<Rightarrow> int \<times> int \<times> int" where
  "open_counters c \<equiv> (openOk c, openFail c, openTimeout c)"

lemma awaitStreamFrame_fields [simp]:
  "openOk (snd (awaitStreamFrame i c)) = openOk c"
  "openFail (snd (awaitStreamFrame i c)) = openFail c"
  "openTimeout (snd (awaitStreamFrame i c)) = openTimeout c"
  "backend (snd (awaitStreamFrame i c)) = backend c"
  "pendingOpenMs (snd (awaitStreamFrame i c)) = pendingOpenMs c"
  by (simp_all add: awaitStreamFrame_def split: option.split list.split)

lemma registerStream_fields [simp]:
  "openOk (registerStream i c) = openOk c"
  "openFail (registerStream i c) = openFail c"
  "openTimeout (registerStream i c) = openTimeout c"
  "backend (registerStream i c) = backend c"
  "map_of (streamQueues (registerStream i c)) j
     = (if j = i \<and> map_of (streamQueues c) i = None then Some [] else map_of (streamQueues c) j)"
  by (simp_all add: registerStream_def split: option.split)

lemma send_packet_fields [simp]:
  "openOk (snd (send_packet send p c)) = openOk c"
  "openFail (snd (send_packet send p c)) = openFail c"
  "openTimeout (snd (send_packet send p c)) = openTimeout c"
  "streamQueues (snd (send_packet send p c)) = streamQueues c"
  "pendingOpenMs (snd (send_packet send p c)) = pendingOpenMs c"
  "backend (snd (send_packet send p c)) = snd (send p (backend c))"
  "fst (send_packet send p c) = fst (send p (backend c))"
  "txBytes (snd (send_packet send p c)) = txBytes c + int (length p)"
  "rxBytes (snd (send_packet send p c)) = rxBytes c"
  by (simp_all add: send_packet_def split: prod.split)

lemma erase_pending_fields [simp]:
  "openOk (erase_pending i c) = openOk c"
  "openFail (erase_pending i c) = openFail c"
  "openTimeout (erase_pending i c) = openTimeout c"
  "streamQueues (erase_pending i c) = streamQueues c"
  "backend (erase_pending i c) = backend c"
  "pendingOpenMs (erase_pending i c) = AList.delete i (pendingOpenMs c)"
  by (simp_all add: erase_pending_def)

text \<open>What a call of \<open>openStream\<close> reports and which of its three counters it moves.\<close>

definition open_accounted :: "int \<Rightarrow> 'b core \<Rightarrow> 'b core \<Rightarrow> bool" where
  "open_accounted r c c' \<longleftrightarrow>
     r = 0 \<and> open_counters c' = (openOk c + 1, openFail c, openTimeout c)
   \<or> r = -2 \<and> open_counters c' = (openOk c, openFail c, openTimeout c + 1)
   \<or> r \<in> {-1, -3, -4} \<and> open_counters c' = (openOk c, openFail c + 1, openTimeout c)"

lemma open_accounted_cong:
  "open_counters d = open_counters c \<Longrightarrow> open_accounted r d c' = open_accounted r c c'"
  by (simp add: open_accounted_def)

lemma open_loop_returns:
  assumes "\<exists>t \<in> set turns. deadline \<le> t_now t"
    and "\<forall>t \<in> set turns. \<forall>c. open_counters (t_receiver t c) = open_counters c"
  shows "\<exists>r c'. open_loop i deadline turns seen c = Some (r, c') \<and> open_accounted r c c'"
  using assms
proof (induction turns arbitrary: seen c)
  case Nil
  then show ?case by simp
next
  case (Cons t ts)
  show ?case
  proof (cases "t_now t < deadline")
    case False
    then show ?thesis by (simp add: open_accounted_def)
  next
    case True
    obtain f d where await: "awaitStreamFrame i (t_receiver t c) = (f, d)" by fastforce
    then have d: "open_counters d = open_counters c"
      using awaitStreamFrame_fields(1-3) [of i "t_receiver t c"] Cons.prems(2) by simp
    have "\<exists>r c'. open_loop i deadline ts seen' d = Some (r, c') \<and> open_accounted r c c'" for seen'
      using Cons.IH [of seen' d] Cons.prems True open_accounted_cong [OF d] by auto
    with True await d show ?thesis
      by (auto simp: open_accounted_def split: option.split FrameType.split)
  qed
qed


text \<open>Two turns over the loopback backend: the receiver thread runs once, then time is up.\<close>

definition sample_turns :: "loopback turn list" where
  "sample_turns =
     [\<lparr>t_now = 5, t_grace = 5, t_receiver = receiver_iteration loopback_receivePacket, t_after = 6\<rparr>,
      \<lparr>t_now = 30000, t_grace = 30000, t_receiver = id, t_after = 30000\<rparr>]"

lemma receiver_iteration_counters [simp]:
  "openOk (receiver_iteration receive c) = openOk c"
  "openFail (receiver_iteration receive c) = openFail c"
  "openTimeout (receiver_iteration receive c) = openTimeout c"
  by (simp_all add: receiver_iteration_def Let_def split: prod.split option.split)


section \<open>Distribution of the received frames\<close>

definition of_stream :: "u32 \<Rightarrow> InboundFrame list \<Rightarrow> InboundFrame list" where
  "of_stream i fs = filter (\<lambda>f. if_streamId f = i) fs"

definition is_control :: "InboundFrame \<Rightarrow> bool" where
  "is_control f \<longleftrightarrow> if_type f \<in> {FT_Open, FT_Close, FT_Error}"

text \<open>The abstract queue of one stream: frames are appended in order; for a stream without a
  queue everything before the first control frame is dropped.\<close>

definition queue_after :: "InboundFrame list option \<Rightarrow> InboundFrame list \<Rightarrow> InboundFrame list option" where
  "queue_after q fs =
     (case q of
        Some q \<Rightarrow> Some (q @ fs)
      | None \<Rightarrow> (case dropWhile (Not \<circ> is_control) fs of [] \<Rightarrow> None | fs \<Rightarrow> Some fs))"

lemma queue_after_Nil [simp]: "queue_after q [] = q"
  by (simp add: queue_after_def split: option.split)

lemma queue_after_Cons:
  "queue_after q (f # fs) =
     queue_after (case q of Some q \<Rightarrow> Some (q @ [f]) | None \<Rightarrow> if is_control f then Some [f] else None) fs"
  by (simp add: queue_after_def split: option.split)

lemma deliver_frame_queue:
  "map_of (deliver_frame f qs) i =
     (if if_streamId f = i
      then case map_of qs i of Some q \<Rightarrow> Some (q @ [f]) | None \<Rightarrow> if is_control f then Some [f] else None
      else map_of qs i)"
  by (simp add: deliver_frame_def is_control_def split: option.split)

lemma deliver_frames_queue: "map_of (fold deliver_frame fs qs) i = queue_after (map_of qs i) (of_stream i fs)"
  by (induction fs arbitrary: qs) (simp_all add: of_stream_def deliver_frame_queue queue_after_Cons)

lemma receiver_iteration_packet:
  assumes "receive (backend c) = (Some packet, b)"
  shows "backend (receiver_iteration receive c) = b"
    and "rxBytes (receiver_iteration receive c) = rxBytes c + int (length packet)"
    and "map_of (streamQueues (receiver_iteration receive c)) i
           = queue_after (map_of (streamQueues c) i) (of_stream i (the (decodeInboundFrames packet)))"
  using assms by (simp_all add: receiver_iteration_def Let_def deliver_frames_queue of_stream_def)

text \<open>C16. The receiver thread demultiplexes without loss or reordering: when a packet made of
  well-formed frames arrives, every registered stream finds exactly its own frames appended to
  its queue in order, a stream that is not registered gets a queue that starts with the first
  OPEN, CLOSE or ERROR frame for it, and nothing else in the core's tables changes.\<close>

theorem receiver_demultiplexes:
  assumes packet: "receive (backend c) = (Some (payload_of fs @ tail), b)"
    and ok: "\<forall>f \<in> set fs. frame_ok f" and stray: "length tail < 5"
  shows "map_of (streamQueues (receiver_iteration receive c)) i
           = queue_after (map_of (streamQueues c) i) (of_stream i (map inbound_of fs))
       \<and> backend (receiver_iteration receive c) = b
       \<and> pendingOpenMs (receiver_iteration receive c) = pendingOpenMs c"
  using receiver_iteration_packet [of receive c "payload_of fs @ tail" b] decode_payload [OF ok stray] packet
  by (simp add: receiver_iteration_def Let_def)

theorem receiver_demultiplexes_witness:
  "map_of (streamQueues (receiver_iteration loopback_receivePacket
      ((registerStream 3 (TonClientCore LoopbackBackend))
         \<lparr>backend := \<lparr>lb_queue = [payload_of [Data_Frame 3 [1], Data_Frame 4 [2], Data_Frame 3 [5]] @ []],
                    lb_accepted = []\<rparr>\<rparr>))) 3
     = Some [inbound_of (Data_Frame 3 [1]), inbound_of (Data_Frame 3 [5])]"
proof -
  let ?fs = "[Data_Frame 3 [1], Data_Frame 4 [2], Data_Frame 3 [5]]"
  let ?c = "(registerStream 3 (TonClientCore LoopbackBackend))
    \<lparr>backend := \<lparr>lb_queue = [payload_of ?fs @ []], lb_accepted = []\<rparr>\<rparr>"
  have "map_of (streamQueues (receiver_iteration loopback_receivePacket ?c)) 3
      = queue_after (map_of (streamQueues ?c) 3) (of_stream 3 (map inbound_of ?fs))"
    using receiver_demultiplexes [of loopback_receivePacket ?c ?fs "[]" "\<lparr>lb_queue = [], lb_accepted = []\<rparr>" 3]
    by (simp add: loopback_receivePacket_def)
  then show ?thesis
    by (simp add: TonClientCore_def queue_after_def of_stream_def)
qed

text \<open>A DATA frame that overtakes the acknowledgement is taken from the queue by
  \<open>openStream\<close> and thrown away.\<close>

lemma open_discards_early_data:
  assumes "map_of (streamQueues (t_receiver t c)) i = Some (f # q)" "if_type f = FT_Data"
    and "t_now t < deadline"
  shows "open_loop i deadline (t # ts) None c
       = open_loop i deadline ts None ((t_receiver t c)\<lparr>streamQueues := AList.update i q (streamQueues (t_receiver t c))\<rparr>)"
  using assms by (simp add: awaitStreamFrame_def)

text \<open>A CLOSE that arrives after \<open>unregisterStream\<close> creates a queue that nobody removes.\<close>

lemma late_close_recreates_queue:
  "map_of (deliver_frame (inbound_of (Close_Frame i)) (streamQueues (unregisterStream i c))) i
     = Some [inbound_of (Close_Frame i)]"
  by (simp add: deliver_frame_queue is_control_def unregisterStream_def)


abbreviation data_frame :: "u32 \<Rightarrow> bytes \<Rightarrow> InboundFrame" where
  "data_frame i p \<equiv> inbound_of (Data_Frame i p)"

lemma decode_data: "length p < 2 ^ 32 \<Longrightarrow> decodeInboundFrames (encodeDataFrame i p) = Some [data_frame i p]"
  using decode_payload [of "[Data_Frame i p]" "[]"] by (simp add: client_encoders_wire payload_of_def)

section \<open>Sending stream data\<close>

context transport_backend
begin

lemma send_packet_accepted:
  "send_packet sendPacket p c = (rc, c') \<Longrightarrow> carried p \<Longrightarrow>
     accepted (backend c') = accepted (backend c) @ (if rc = 0 then [p] else [])"
  using send_packet_fields(6,7) [of sendPacket p c] send_accepted [of p "backend c"] by simp

text \<open>The payload leaves as DATA frames of at most 1200 bytes in order; 0 means all of them
  were accepted, otherwise a proper prefix was.\<close>

lemma sendStreamData_accepted:
  assumes "sendStreamData sendPacket i payload c = (rc, c')"
  shows "\<exists>n. accepted (backend c') = accepted (backend c)
                 @ map (encodeDataFrame i) (take n (chunks kDataSegmentSize payload))
           \<and> (if rc = 0 then n = length (chunks kDataSegmentSize payload)
              else rc = -1 \<and> n < length (chunks kDataSegmentSize payload))"
  using assms
proof (induction payload arbitrary: c rule: length_induct)
  case (1 payload)
  let ?head = "take kDataSegmentSize payload" and ?rest = "drop kDataSegmentSize payload"
  have pos: "0 < kDataSegmentSize" by (simp add: kDataSegmentSize_def)
  show ?case
  proof (cases "payload = []")
    case True
    with 1 show ?thesis by (simp add: sendStreamData.simps [of _ _ "[]"])
  next
    case False
    obtain rc1 d where send: "send_packet sendPacket (encodeDataFrame i ?head) c = (rc1, d)" by fastforce
    have "carried (encodeDataFrame i ?head)"
      using False pos by (intro data_carried) (simp_all add: kDataSegmentSize_def)
    note acc = send_packet_accepted [OF send this] and split = chunks_step [OF pos False]
    show ?thesis
    proof (cases "rc1 = 0")
      case False
      with 1 send acc split \<open>payload \<noteq> []\<close> show ?thesis
        by (intro exI [of _ 0]) (simp add: sendStreamData.simps [of _ _ payload])
    next
      case True
      with 1 send \<open>payload \<noteq> []\<close> have rest: "sendStreamData sendPacket i ?rest d = (rc, c')"
        by (simp add: sendStreamData.simps [of _ _ payload])
      have "length ?rest < length payload" using False pos by simp
      with 1 rest obtain n where
        "accepted (backend c') = accepted (backend d) @ map (encodeDataFrame i) (take n (chunks kDataSegmentSize ?rest))"
        "if rc = 0 then n = length (chunks kDataSegmentSize ?rest) else rc = -1 \<and> n < length (chunks kDataSegmentSize ?rest)"
        by blast
      with True acc split show ?thesis by (intro exI [of _ "Suc n"]) (simp split: if_splits)
    qed
  qed
qed

text \<open>The receiver thread takes the waiting DATA frames of a registered stream one by one and
  appends them to its queue.\<close>

lemma receiver_drains:
  assumes "inbound (backend c) = map (encodeDataFrame i) ps" "\<forall>p \<in> set ps. length p < 2 ^ 32"
    and "map_of (streamQueues c) i = Some q"
  shows "map_of (streamQueues ((receiver_iteration receivePacket ^^ length ps) c)) i = Some (q @ map (data_frame i) ps)"
  using assms
proof (induction ps arbitrary: c q)
  case Nil
  then show ?case by simp
next
  case (Cons p ps)
  let ?c = "receiver_iteration receivePacket c"
  obtain b where recv: "receivePacket (backend c) = (Some (encodeDataFrame i p), b)" "inbound b = map (encodeDataFrame i) ps"
    using receive_next [of "backend c" "encodeDataFrame i p"] Cons.prems(1) by (metis list.simps(9) prod.collapse)
  note step = receiver_iteration_packet [of receivePacket c "encodeDataFrame i p" b, OF recv(1)]
  have "map_of (streamQueues ?c) i = Some (q @ [data_frame i p])"
    using Cons.prems by (simp add: step(3) decode_data of_stream_def queue_after_def)
  then show ?case
    using Cons.IH [of ?c "q @ [data_frame i p]"] Cons.prems(2) recv(2) by (simp add: step(1) funpow_swap1)
qed

end

section \<open>The loopback echoes\<close>

lemma loopback_send_data:
  assumes "length p < 2 ^ 32"
  shows "loopback_sendPacket (encodeDataFrame i p) lb
    = (0, lb\<lparr>lb_queue := lb_queue lb @ [encodeDataFrame i p], lb_accepted := lb_accepted lb @ [encodeDataFrame i p]\<rparr>)"
  using assms by (simp add: loopback_sendPacket_def decode_data loopback_response_def)

lemma sendStreamData_loopback:
  assumes "sendStreamData loopback_sendPacket i payload c = (rc, c')"
  shows "rc = 0 \<and> streamQueues c' = streamQueues c
       \<and> lb_queue (backend c') = lb_queue (backend c) @ map (encodeDataFrame i) (chunks kDataSegmentSize payload)"
  using assms
proof (induction payload arbitrary: c rule: length_induct)
  case (1 payload)
  let ?head = "take kDataSegmentSize payload" and ?rest = "drop kDataSegmentSize payload"
  have pos: "0 < kDataSegmentSize" and short: "length ?head < 2 ^ 32" by (simp_all add: kDataSegmentSize_def)
  show ?case
  proof (cases "payload = []")
    case True
    with 1 show ?thesis by (simp add: sendStreamData.simps [of _ _ "[]"])
  next
    case False
    obtain d where send: "send_packet loopback_sendPacket (encodeDataFrame i ?head) c = (0, d)"
      and d: "streamQueues d = streamQueues c"
        "lb_queue (backend d) = lb_queue (backend c) @ [encodeDataFrame i ?head]"
      by (simp add: send_packet_def loopback_send_data [OF short])
    have "sendStreamData loopback_sendPacket i ?rest d = (rc, c')" "length ?rest < length payload"
      using False pos send "1.prems" by (simp_all add: sendStreamData.simps [of _ _ payload])
    then have "rc = 0 \<and> streamQueues c' = streamQueues d
        \<and> lb_queue (backend c') = lb_queue (backend d) @ map (encodeDataFrame i) (chunks kDataSegmentSize ?rest)"
      using "1.IH" by blast
    with d chunks_step [OF pos False] show ?thesis by simp
  qed
qed

text \<open>Over the loopback backend a stream is an echo: whatever is sent on a registered stream
  is accepted, and after the receiver thread has taken one packet per segment the stream's
  queue holds DATA frames of 1 to 1200 bytes whose payloads concatenate to what was sent.\<close>

lemma loopback_echo:
  assumes "sendStreamData loopback_sendPacket i payload c = (rc, c')"
    and "map_of (streamQueues c) i = Some []" and "lb_queue (backend c) = []"
  shows "rc = 0 \<and> (\<exists>n frames.
      map_of (streamQueues ((receiver_iteration loopback_receivePacket ^^ n) c')) i = Some frames
    \<and> concat (map if_payload frames) = payload
    \<and> (\<forall>f \<in> set frames. if_type f = FT_Data \<and> if_streamId f = i
          \<and> 1 \<le> length (if_payload f) \<and> length (if_payload f) \<le> 1200))"
proof -
  let ?ps = "chunks kDataSegmentSize payload"
  have pos: "0 < kDataSegmentSize" by (simp add: kDataSegmentSize_def)
  have bounds: "p \<noteq> [] \<and> length p \<le> 1200" if "p \<in> set ?ps" for p
    using chunks_bounds [OF pos that] by (simp add: kDataSegmentSize_def)
  then have short: "\<forall>p \<in> set ?ps. length p < 2 ^ 32" by fastforce
  have "map_of (streamQueues ((receiver_iteration loopback_receivePacket ^^ length ?ps) c')) i
      = Some (map (data_frame i) ?ps)"
    using loopback.receiver_drains [OF _ short, of c' i "[]"] sendStreamData_loopback [OF assms(1)] assms
    by simp
  moreover have "concat (map if_payload (map (data_frame i) ?ps)) = payload"
    using concat_chunks [OF pos, of payload] by (simp add: comp_def)
  moreover have "\<forall>f \<in> set (map (data_frame i) ?ps). if_type f = FT_Data \<and> if_streamId f = i
          \<and> 1 \<le> length (if_payload f) \<and> length (if_payload f) \<le> 1200"
    using bounds by (auto simp: Suc_le_eq)
  ultimately show ?thesis
    using sendStreamData_loopback [OF assms(1)] by blast
qed

end
