(* ===== verification/Local_Socks5.thy ===== *)
theory Local_Socks5
  imports Client_Core
begin

text \<open>
  The local proxy of the desktop client: \<^verbatim>\<open>TON-Tunnel/LocalSocks5Server.hpp\<close> and
  \<^verbatim>\<open>LocalSocks5Server.cpp\<close>. A connected socket is the record \<open>csock\<close>: the chunks in which
  its peer's bytes arrive (an empty chunk, or no further chunk, is a \<^verbatim>\<open>recv\<close> that returns 0
  or an error, the 5-second timeout included), the kernel's answers to the next calls of
  \<^verbatim>\<open>send\<close> (none left: everything is accepted), and what was accepted so far. A bridged
  connection is a step relation whose steps are the iterations of its two threads.
\<close>

section \<open>Sockets\<close>

record csock =
  c_in :: "bytes list"
  c_send :: "int list"
  c_out :: bytes
  c_closed :: bool

definition sock_recv :: "nat \<Rightarrow> csock \<Rightarrow> bytes \<times> csock" where
  "sock_recv n s =
     (if c_closed s then ([], s)
      else case c_in s of
        [] \<Rightarrow> ([], s)
      | c # cs \<Rightarrow> (take n c, s\<lparr>c_in := (if drop n c = [] then cs else drop n c # cs)\<rparr>))"

definition sock_send :: "bytes \<Rightarrow> csock \<Rightarrow> int \<times> csock" where
  "sock_send data s =
     (if c_closed s then (-1, s)
      else case c_send s of
        [] \<Rightarrow> (int (length data), s\<lparr>c_out := c_out s @ data\<rparr>)
      | n # ns \<Rightarrow>
          if n \<le> 0 then (-1, s\<lparr>c_send := ns\<rparr>)
          else (min n (int (length data)), s\<lparr>c_send := ns, c_out := c_out s @ take (nat n) data\<rparr>))"

function recv_loop :: "nat \<Rightarrow> bytes \<Rightarrow> csock \<Rightarrow> bytes option \<times> csock" where
  "recv_loop len got s =
     (if length got < len then
        case sock_recv (len - length got) s of (d, s) \<Rightarrow>
        if d = [] then (None, s) else recv_loop len (got @ d) s
      else (Some got, s))"
  by pat_completeness auto
termination by (relation "measure (\<lambda>(len, got, s). len - length got)") (auto intro: diff_less_mono2)

declare recv_loop.simps [simp del]

definition recvExact :: "nat \<Rightarrow> csock \<Rightarrow> bytes option \<times> csock" where
  "recvExact len s = recv_loop len [] s"

lemma sock_send_progress: "sock_send data s = (n, s') \<Longrightarrow> 0 < n \<Longrightarrow> data \<noteq> [] \<Longrightarrow> 0 < nat n \<and> nat n \<le> length data"
  by (auto simp: sock_send_def split: if_splits list.splits)

function sendAll :: "bytes \<Rightarrow> csock \<Rightarrow> bool \<times> csock" where
  "sendAll data s =
     (if data = [] then (True, s)
      else case sock_send data s of (n, s) \<Rightarrow>
        if n \<le> 0 then (False, s) else sendAll (drop (nat n) data) s)"
  by pat_completeness auto
termination by (relation "measure (\<lambda>(data, s). length data)") auto

declare sendAll.simps [simp del]

text \<open>Both directions are shut down; the pause before \<^verbatim>\<open>closesocket\<close> is not visible here.\<close>

definition gracefulCloseClient :: "csock \<Rightarrow> csock" where
  "gracefulCloseClient s = s\<lparr>c_closed := True\<rparr>"

text \<open>One entry per resolved address: did \<^verbatim>\<open>socket\<close> and \<^verbatim>\<open>connect\<close> succeed, and the socket
  then obtained. The second component counts the sockets that were opened and closed again.\<close>

fun connect_first :: "(bool \<times> bool \<times> csock) list \<Rightarrow> nat \<Rightarrow> csock option \<times> nat" where
  "connect_first [] released = (None, released)"
| "connect_first ((socket_ok, connect_ok, s) # ais) released =
     (if \<not> socket_ok then connect_first ais released
      else if connect_ok then (Some s, released)
      else connect_first ais (released + 1))"

definition connectRemoteTcp ::
  "(string \<Rightarrow> string \<Rightarrow> (bool \<times> bool \<times> csock) list option) \<Rightarrow> string \<Rightarrow> u16 \<Rightarrow> csock option" where
  "connectRemoteTcp resolve host port =
     (case resolve (c_str host) (to_string (unat port)) of
        None \<Rightarrow> None
      | Some ais \<Rightarrow> fst (connect_first ais 0))"


section \<open>The handshake\<close>

text \<open>Every failure of the handshake closes the client; \<open>bind_io\<close> passes it on.\<close>

definition bind_io :: "(csock \<Rightarrow> 'a option \<times> csock) \<Rightarrow> ('a \<Rightarrow> csock \<Rightarrow> 'c option \<times> csock) \<Rightarrow> csock \<Rightarrow> 'c option \<times> csock" where
  "bind_io m f s = (case m s of (None, s) \<Rightarrow> (None, s) | (Some x, s) \<Rightarrow> f x s)"

definition fail_io :: "csock \<Rightarrow> 'a option \<times> csock" where
  "fail_io s = (None, s)"

definition return_io :: "'a \<Rightarrow> csock \<Rightarrow> 'a option \<times> csock" where
  "return_io x s = (Some x, s)"

definition send_io :: "bytes \<Rightarrow> csock \<Rightarrow> unit option \<times> csock" where
  "send_io data s = (case sendAll data s of (ok, s) \<Rightarrow> (if ok then Some () else None, s))"

text \<open>A zero-terminated string of at most \<open>n\<close> characters; when no zero is found within them
  the code goes on as if there had been one.\<close>

fun read_zstring :: "nat \<Rightarrow> bytes \<Rightarrow> csock \<Rightarrow> bytes option \<times> csock" where
  "read_zstring 0 acc s = (Some acc, s)"
| "read_zstring (Suc n) acc s =
     (case recvExact 1 s of
        (Some (ch # _), s) \<Rightarrow> if ch = 0 then (Some acc, s) else read_zstring n (acc @ [ch]) s
      | (_, s) \<Rightarrow> (None, s))"

text \<open>\<^verbatim>\<open>inet_ntop\<close> for IPv4.\<close>

definition ntop4 :: "bytes \<Rightarrow> string" where
  "ntop4 ip = to_string (unat (ip ! 0)) @ ''.'' @ to_string (unat (ip ! 1)) @ ''.'' @
              to_string (unat (ip ! 2)) @ ''.'' @ to_string (unat (ip ! 3))"

definition port_of :: "bytes \<Rightarrow> u16" where
  "port_of b = push_bit 8 (ucast (b ! 0)) OR ucast (b ! 1)"

definition socks4_fail :: bytes where "socks4_fail = [0x00, 0x5B, 0, 0, 0, 0, 0, 0]"
definition socks4_ok :: bytes where "socks4_ok = [0x00, 0x5A, 0, 0, 0, 0, 0, 0]"
definition socks5_ok :: bytes where "socks5_ok = [0x05, 0x00, 0x00, 0x01, 0, 0, 0, 0, 0, 0]"

text \<open>A reply whose own success does not matter, then the failure.\<close>

definition reject_io :: "bytes \<Rightarrow> csock \<Rightarrow> 'a option \<times> csock" where
  "reject_io reply s = fail_io (snd (sendAll reply s))"

definition socks4_request :: "u8 \<Rightarrow> csock \<Rightarrow> (string \<times> u16) option \<times> csock" where
  "socks4_request cmd =
     (if cmd \<noteq> 0x01 then reject_io socks4_fail
      else
        bind_io (recvExact 2) (\<lambda>portBytes.
        bind_io (recvExact 4) (\<lambda>ipBytes.
        bind_io (read_zstring 512 []) (\<lambda>userid.
        bind_io (if ipBytes ! 0 = 0 \<and> ipBytes ! 1 = 0 \<and> ipBytes ! 2 = 0 \<and> ipBytes ! 3 \<noteq> 0
                 then bind_io (read_zstring 512 []) (\<lambda>domain.
                        if domain = [] then reject_io socks4_fail else return_io (str_of_bytes domain))
                 else return_io (ntop4 ipBytes)) (\<lambda>targetHost.
        bind_io (send_io socks4_ok) (\<lambda>_.
        return_io (targetHost, port_of portBytes)))))))"

text \<open>\<open>ntop6\<close> is \<^verbatim>\<open>inet_ntop\<close> for IPv6.\<close>

definition socks5_address :: "(bytes \<Rightarrow> string option) \<Rightarrow> u8 \<Rightarrow> csock \<Rightarrow> string option \<times> csock" where
  "socks5_address ntop6 atyp =
     (if atyp = 0x01 then bind_io (recvExact 4) (\<lambda>ip. return_io (ntop4 ip))
      else if atyp = 0x03 then
        bind_io (recvExact 1) (\<lambda>len. bind_io (recvExact (unat (len ! 0))) (\<lambda>name. return_io (str_of_bytes name)))
      else if atyp = 0x04 then
        bind_io (recvExact 16) (\<lambda>ip6. case ntop6 ip6 of None \<Rightarrow> fail_io | Some host \<Rightarrow> return_io host)
      else fail_io)"

definition socks5_request :: "(bytes \<Rightarrow> string option) \<Rightarrow> u8 \<Rightarrow> csock \<Rightarrow> (string \<times> u16) option \<times> csock" where
  "socks5_request ntop6 nmethods =
     bind_io (recvExact (unat nmethods)) (\<lambda>methods.
     bind_io (send_io [0x05, 0x00]) (\<lambda>_.
     bind_io (recvExact 4) (\<lambda>reqHead.
     if reqHead ! 0 \<noteq> 0x05 \<or> reqHead ! 1 \<noteq> 0x01 then fail_io
     else
       bind_io (socks5_address ntop6 (reqHead ! 3)) (\<lambda>targetHost.
       bind_io (recvExact 2) (\<lambda>portBytes.
       bind_io (send_io socks5_ok) (\<lambda>_.
       return_io (targetHost, port_of portBytes)))))))"

definition socks_handshake :: "(bytes \<Rightarrow> string option) \<Rightarrow> csock \<Rightarrow> (string \<times> u16) option \<times> csock" where
  "socks_handshake ntop6 s =
     (case bind_io (recvExact 2) (\<lambda>greetingHead.
             if greetingHead ! 0 = 0x04 then socks4_request (greetingHead ! 1)
             else if greetingHead ! 0 \<noteq> 0x05 then fail_io
             else socks5_request ntop6 (greetingHead ! 1)) s of
        (None, s) \<Rightarrow> (None, gracefulCloseClient s)
      | (Some target, s) \<Rightarrow> (Some target, s))"

section \<open>The bridge\<close>

text \<open>
  \<open>br_read\<close> and \<open>br_got\<close> are ghosts: the bytes read from the client and the payload bytes
  taken from the stream's queue since the stream was opened.
\<close>

record 'b bridge =
  br_sock :: csock
  br_core :: "'b core"
  br_alive :: bool
  br_uplink :: bool
  br_down :: bool
  br_remoteEnded :: bool
  br_read :: bytes
  br_got :: bytes

definition bridge_opened :: "csock \<Rightarrow> 'b core \<Rightarrow> 'b bridge" where
  "bridge_opened s c = \<lparr>br_sock = s, br_core = c, br_alive = True, br_uplink = True, br_down = True,
     br_remoteEnded = False, br_read = [], br_got = []\<rparr>"

definition kBridgeBuffer :: nat where "kBridgeBuffer = 16 * 1024"

text \<open>One iteration of the uplink thread; \<open>running\<close> is the server's flag.\<close>

definition uplink_step :: "'b packet_sender \<Rightarrow> u32 \<Rightarrow> bool \<Rightarrow> 'b bridge \<Rightarrow> 'b bridge" where
  "uplink_step send streamId running b =
     (if \<not> br_uplink b then b
      else if \<not> (br_alive b \<and> running) then b\<lparr>br_uplink := False, br_alive := False\<rparr>
      else
        case sock_recv kBridgeBuffer (br_sock b) of (payload, s) \<Rightarrow>
        if payload = [] then b\<lparr>br_sock := s, br_uplink := False, br_alive := False\<rparr>
        else
          case sendStreamData send streamId payload (br_core b) of (rc, c) \<Rightarrow>
          let b = b\<lparr>br_sock := s, br_core := c, br_read := br_read b @ payload\<rparr> in
          if rc \<noteq> 0 then b\<lparr>br_uplink := False, br_alive := False\<rparr> else b)"

text \<open>One iteration of the worker's own loop.\<close>

definition downlink_step :: "u32 \<Rightarrow> bool \<Rightarrow> 'b bridge \<Rightarrow> 'b bridge" where
  "downlink_step streamId running b =
     (if \<not> br_down b then b
      else if \<not> (br_alive b \<and> running) then b\<lparr>br_down := False\<rparr>
      else
        case awaitStreamFrame streamId (br_core b) of
          (None, c) \<Rightarrow> b\<lparr>br_core := c\<rparr>
        | (Some frame, c) \<Rightarrow>
            let b = b\<lparr>br_core := c\<rparr> in
            if if_type frame = FT_Data then
              (case sendAll (if_payload frame) (br_sock b) of (ok, s) \<Rightarrow>
                 let b = b\<lparr>br_sock := s, br_got := br_got b @ if_payload frame\<rparr> in
                 if ok then b else b\<lparr>br_down := False\<rparr>)
            else if if_type frame = FT_Close \<or> if_type frame = FT_Error then
              b\<lparr>br_remoteEnded := True, br_down := False\<rparr>
            else b)"

text \<open>After the loop: the client is closed, which ends the uplink, and once that thread has been
  joined the stream is closed and unregistered.\<close>

definition bridge_close :: "'b bridge \<Rightarrow> 'b bridge" where
  "bridge_close b = b\<lparr>br_alive := False, br_sock := gracefulCloseClient (br_sock b)\<rparr>"

definition bridge_finish :: "'b packet_sender \<Rightarrow> u32 \<Rightarrow> 'b bridge \<Rightarrow> 'b core" where
  "bridge_finish send streamId b =
     unregisterStream streamId
       (if br_remoteEnded b then br_core b else snd (core_closeStream send streamId (br_core b)))"

inductive bridge_step :: "'b packet_sender \<Rightarrow> 'b packet_receiver \<Rightarrow> u32 \<Rightarrow> 'b bridge \<Rightarrow> 'b bridge \<Rightarrow> bool"
  for send :: "'b packet_sender" and receive :: "'b packet_receiver" and streamId :: u32 where
  uplink: "bridge_step send receive streamId b (uplink_step send streamId running b)"
| downlink: "bridge_step send receive streamId b (downlink_step streamId running b)"
| receiver: "bridge_step send receive streamId b (b\<lparr>br_core := receiver_iteration receive (br_core b)\<rparr>)"
| close: "\<not> br_down b \<Longrightarrow> bridge_step send receive streamId b (bridge_close b)"

text \<open>The direct connection used when there is no core: the same two loops between two
  sockets.\<close>

record direct_bridge =
  db_client :: csock
  db_remote :: csock
  db_alive :: bool
  db_uplink :: bool
  db_down :: bool

definition direct_uplink_step :: "bool \<Rightarrow> direct_bridge \<Rightarrow> direct_bridge" where
  "direct_uplink_step running b =
     (if \<not> db_uplink b then b
      else if \<not> (db_alive b \<and> running) then b\<lparr>db_uplink := False, db_alive := False\<rparr>
      else
        case sock_recv kBridgeBuffer (db_client b) of (payload, s) \<Rightarrow>
        if payload = [] then b\<lparr>db_client := s, db_uplink := False, db_alive := False\<rparr>
        else case sendAll payload (db_remote b) of (ok, r) \<Rightarrow>
          let b = b\<lparr>db_client := s, db_remote := r\<rparr> in
          if ok then b else b\<lparr>db_uplink := False, db_alive := False\<rparr>)"

definition direct_downlink_step :: "bool \<Rightarrow> direct_bridge \<Rightarrow> direct_bridge" where
  "direct_downlink_step running b =
     (if \<not> db_down b then b
      else if \<not> (db_alive b \<and> running) then b\<lparr>db_down := False\<rparr>
      else
        case sock_recv kBridgeBuffer (db_remote b) of (payload, r) \<Rightarrow>
        if payload = [] then b\<lparr>db_remote := r, db_down := False\<rparr>
        else case sendAll payload (db_client b) of (ok, s) \<Rightarrow>
          let b = b\<lparr>db_client := s, db_remote := r\<rparr> in
          if ok then b else b\<lparr>db_down := False\<rparr>)"

definition direct_close :: "direct_bridge \<Rightarrow> direct_bridge" where
  "direct_close b = b\<lparr>db_alive := False, db_remote := gracefulCloseClient (db_remote b),
                      db_client := gracefulCloseClient (db_client b)\<rparr>"


section \<open>The server\<close>

record socks_server =
  sv_running :: bool
  sv_listening :: bool
  sv_port :: u16
  sv_nextStreamId :: u32
  sv_workers :: nat
  sv_wsa :: nat

definition LocalSocks5Server :: socks_server where
  "LocalSocks5Server = \<lparr>sv_running = False, sv_listening = False, sv_port = 0, sv_nextStreamId = 1000,
     sv_workers = 0, sv_wsa = 0\<rparr>"

text \<open>Which of the four system calls succeed is an argument; \<open>sv_wsa\<close> counts the calls of
  \<^verbatim>\<open>WSAStartup\<close> without their \<^verbatim>\<open>WSACleanup\<close>.\<close>

definition socks_start ::
  "bool \<Rightarrow> bool \<Rightarrow> bool \<Rightarrow> bool \<Rightarrow> u16 \<Rightarrow> socks_server \<Rightarrow> (string + unit) \<times> socks_server" where
  "socks_start wsa_ok socket_ok bind_ok listen_ok port sv =
     (if sv_running sv then (Inr (), sv)
      else if \<not> wsa_ok then (Inl ''Socks5: WSAStartup failed'', sv)
      else if \<not> socket_ok then (Inl ''Socks5: socket() failed'', sv)
      else if \<not> bind_ok then (Inl (''Socks5: bind() failed on 127.0.0.1:'' @ to_string (unat port)), sv)
      else if \<not> listen_ok then (Inl ''Socks5: listen() failed'', sv)
      else (Inr (), sv\<lparr>sv_running := True, sv_wsa := sv_wsa sv + 1, sv_listening := True, sv_port := port\<rparr>))"

definition socks_stop :: "socks_server \<Rightarrow> socks_server" where
  "socks_stop sv =
     (if \<not> sv_running sv then sv
      else sv\<lparr>sv_running := False, sv_listening := False, sv_workers := 0, sv_wsa := sv_wsa sv - 1\<rparr>)"

text \<open>One turn of the accept loop: \<open>accept\<close> failed, or a worker was (or could not be) started
  for the client.\<close>

definition accept_turn :: "bool \<Rightarrow> bool \<Rightarrow> socks_server \<Rightarrow> socks_server" where
  "accept_turn accepted thread_ok sv =
     (if \<not> sv_running sv \<or> \<not> accepted \<or> \<not> thread_ok then sv else sv\<lparr>sv_workers := sv_workers sv + 1\<rparr>)"

text \<open>A worker up to the loops of its bridge: the handshake, then the direct connection when
  there is no core, otherwise a fresh stream id and the OPEN. The result tells how the client's
  connection goes on: \<open>Connected\<close> and \<open>Bridged\<close> with the steps above, every other outcome ends
  the worker.\<close>

datatype 'b client_outcome =
    Handshake_Failed csock
  | Connect_Failed csock
  | Connected direct_bridge
  | Open_Pending
  | Open_Failed csock "'b core" int
  | Bridged u32 "'b bridge"

definition bridgeViaBackend ::
  "(string \<Rightarrow> string \<Rightarrow> (bool \<times> bool \<times> csock) list option) \<Rightarrow> 'b packet_sender \<Rightarrow> int \<Rightarrow> int \<Rightarrow> 'b turn list \<Rightarrow> string
     \<Rightarrow> string \<Rightarrow> u16 \<Rightarrow> csock \<Rightarrow> socks_server \<Rightarrow> 'b core option \<Rightarrow> 'b client_outcome \<times> socks_server" where
  "bridgeViaBackend resolve send now sent turns authToken targetHost targetPort client sv core_opt =
     (case core_opt of
        None \<Rightarrow>
          (case connectRemoteTcp resolve targetHost targetPort of
             None \<Rightarrow> (Connect_Failed client, sv)
           | Some remote \<Rightarrow>
               (Connected \<lparr>db_client = client, db_remote = remote, db_alive = True, db_uplink = True, db_down = True\<rparr>, sv))
      | Some core \<Rightarrow>
          let streamId = sv_nextStreamId sv; sv = sv\<lparr>sv_nextStreamId := streamId + 1\<rparr> in
          case openStream send now sent turns streamId targetHost targetPort authToken core of
            None \<Rightarrow> (Open_Pending, sv)
          | Some (openCode, core) \<Rightarrow>
              if openCode \<noteq> 0 then (Open_Failed client (unregisterStream streamId core) openCode, sv)
              else (Bridged streamId (bridge_opened client core), sv))"

definition handleClient ::
  "(bytes \<Rightarrow> string option) \<Rightarrow> (string \<Rightarrow> string \<Rightarrow> (bool \<times> bool \<times> csock) list option) \<Rightarrow> 'b packet_sender \<Rightarrow> int \<Rightarrow> int
     \<Rightarrow> 'b turn list \<Rightarrow> string \<Rightarrow> csock \<Rightarrow> socks_server \<Rightarrow> 'b core option \<Rightarrow> 'b client_outcome \<times> socks_server" where
  "handleClient ntop6 resolve send now sent turns authToken client sv core_opt =
     (case socks_handshake ntop6 client of
        (None, client) \<Rightarrow> (Handshake_Failed client, sv)
      | (Some (targetHost, targetPort), client) \<Rightarrow>
          bridgeViaBackend resolve send now sent turns authToken targetHost targetPort client sv core_opt)"

section \<open>Reading does not depend on how the bytes arrive\<close>

text \<open>What can be read before the first failing \<^verbatim>\<open>recv\<close>.\<close>

definition avail :: "csock \<Rightarrow> bytes" where
  "avail s = (if c_closed s then [] else concat (takeWhile (\<lambda>c. c \<noteq> []) (c_in s)))"

text \<open>Reading leaves the sending side of a socket alone.\<close>

definition same_out :: "csock \<Rightarrow> csock \<Rightarrow> bool" where
  "same_out s s' \<longleftrightarrow> c_send s' = c_send s \<and> c_out s' = c_out s \<and> c_closed s' = c_closed s"

lemma same_out_refl [simp]: "same_out s s"
  by (simp add: same_out_def)

lemma same_out_trans: "same_out s s' \<Longrightarrow> same_out s' s'' \<Longrightarrow> same_out s s''"
  by (simp add: same_out_def)

lemma sock_recv_avail:
  assumes recv: "sock_recv n s = (d, s')" and n: "0 < n"
  shows "d \<noteq> [] \<Longrightarrow> avail s = d @ avail s'" and "length d \<le> n"
    and "d = [] \<longleftrightarrow> avail s = []" and "same_out s s'"
proof -
  consider "c_closed s \<or> c_in s = []" | c cs where "\<not> c_closed s" "c_in s = c # cs"
    by (cases "c_in s") auto
  then have all: "(d \<noteq> [] \<longrightarrow> avail s = d @ avail s') \<and> length d \<le> n
      \<and> (d = [] \<longleftrightarrow> avail s = []) \<and> same_out s s'"
  proof cases
    case 1
    with recv show ?thesis by (auto simp: sock_recv_def avail_def)
  next
    case (2 c cs)
    with recv have d: "d = take n c" and s': "s' = s\<lparr>c_in := (if drop n c = [] then cs else drop n c # cs)\<rparr>"
      by (simp_all add: sock_recv_def)
    show ?thesis
    proof (cases "drop n c = []")
      case True
      with 2 d s' n show ?thesis by (cases "c = []") (simp_all add: avail_def same_out_def)
    next
      case False
      then have "c \<noteq> []" by auto
      with False 2 d s' n append_take_drop_id [of n c] show ?thesis
        by (simp add: avail_def same_out_def flip: append_assoc)
    qed
  qed
  from all show "length d \<le> n" "d = [] \<longleftrightarrow> avail s = []" "same_out s s'" by blast+
  from all show "d \<noteq> [] \<Longrightarrow> avail s = d @ avail s'" by blast
qed

lemma recv_loop_avail:
  assumes "recv_loop len got s = (r, s')" "length got \<le> len"
  shows "same_out s s' \<and>
    (if len - length got \<le> length (avail s)
     then r = Some (got @ take (len - length got) (avail s)) \<and> avail s' = drop (len - length got) (avail s)
     else r = None)"
  using assms
proof (induction len got s rule: recv_loop.induct)
  case (1 len got s)
  show ?case
  proof (cases "length got < len")
    case False
    with 1 show ?thesis by (simp add: recv_loop.simps [of len got])
  next
    case True
    obtain d t where recv: "sock_recv (len - length got) s = (d, t)" by fastforce
    note facts = sock_recv_avail [OF recv]
    show ?thesis
    proof (cases "d = []")
      case True
      with recv facts(3,4) "1.prems" \<open>length got < len\<close> show ?thesis
        by (simp add: recv_loop.simps [of len got])
    next
      case False
      have av: "avail s = d @ avail t" using facts(1) True False by simp
      have rest: "recv_loop len (got @ d) t = (r, s')" "length (got @ d) \<le> len"
        using recv False True facts(2) "1.prems" by (simp_all add: recv_loop.simps [of len got])
      have "same_out t s' \<and>
         (if len - length (got @ d) \<le> length (avail t)
          then r = Some ((got @ d) @ take (len - length (got @ d)) (avail t)) \<and> avail s' = drop (len - length (got @ d)) (avail t)
          else r = None)"
        using "1.IH" [OF True recv [symmetric] False rest] .
      moreover have "same_out s t" using facts(4) True by simp
      ultimately show ?thesis
        using av rest(2) same_out_trans [of s t s'] by (simp split: if_splits)
    qed
  qed
qed

lemma recvExact_avail:
  assumes "avail s = xs @ ys" "length xs = n"
  obtains s' where "recvExact n s = (Some xs, s')" "avail s' = ys" "same_out s s'"
proof -
  obtain r s' where "recvExact n s = (r, s')" by fastforce
  with recv_loop_avail [of n "[]" s r s'] assms that show thesis
    by (simp add: recvExact_def)
qed

lemma recvExact_short:
  assumes "length (avail s) < n"
  obtains s' where "recvExact n s = (None, s')" "same_out s s'"
proof -
  obtain r s' where "recvExact n s = (r, s')" by fastforce
  with recv_loop_avail [of n "[]" s r s'] assms that show thesis
    by (simp add: recvExact_def)
qed

lemma sendAll_result:
  assumes "sendAll data s = (ok, s')"
  shows "\<exists>n \<le> length data. c_out s' = c_out s @ take n data \<and> (ok \<longrightarrow> n = length data)
       \<and> c_in s' = c_in s \<and> c_closed s' = c_closed s"
  using assms
proof (induction data s rule: sendAll.induct)
  case (1 data s)
  show ?case
  proof (cases "data = []")
    case True
    with 1 show ?thesis by (simp add: sendAll.simps)
  next
    case False
    obtain k t where send: "sock_send data s = (k, t)" by fastforce
    have t: "c_in t = c_in s" "c_closed t = c_closed s" "0 < k \<Longrightarrow> c_out t = c_out s @ take (nat k) data"
      "k \<le> 0 \<Longrightarrow> c_out t = c_out s"
      using send False by (auto simp: sock_send_def min_def split: if_splits list.splits)
    show ?thesis
    proof (cases "k \<le> 0")
      case True
      with False send t 1 show ?thesis
        by (intro exI [of _ 0]) (simp add: sendAll.simps [of data])
    next
      case pos: False
      then have "sendAll (drop (nat k) data) t = (ok, s')"
        using "1.prems" False send by (simp add: sendAll.simps [of data])
      with "1.IH" [OF False send [symmetric] pos] obtain n where
        n: "n \<le> length (drop (nat k) data)" "c_out s' = c_out t @ take n (drop (nat k) data)"
          "ok \<longrightarrow> n = length (drop (nat k) data)" "c_in s' = c_in t" "c_closed s' = c_closed t"
        by blast
      have "nat k \<le> length data" using sock_send_progress [OF send _ False] pos by simp
      with n t pos show ?thesis
        by (intro exI [of _ "nat k + n"]) (auto simp: take_add)
    qed
  qed
qed

lemma sendAll_accepting:
  assumes "c_send s = []" "\<not> c_closed s"
  shows "sendAll data s = (True, if data = [] then s else s\<lparr>c_out := c_out s @ data\<rparr>)"
  using assms by (simp add: sendAll.simps [of data] sendAll.simps [of "[]"] sock_send_def)

section \<open>The handshake\<close>

datatype socks_addr = Domain bytes | IPv4 bytes | IPv6 bytes

fun addr_bytes :: "socks_addr \<Rightarrow> bytes" where
  "addr_bytes (Domain name) = 3 # word_of_nat (length name) # name"
| "addr_bytes (IPv4 ip) = 1 # ip"
| "addr_bytes (IPv6 ip) = 4 # ip"

fun addr_text :: "(bytes \<Rightarrow> string option) \<Rightarrow> socks_addr \<Rightarrow> string option" where
  "addr_text ntop6 (Domain name) = (if length name < 256 then Some (str_of_bytes name) else None)"
| "addr_text ntop6 (IPv4 ip) = (if length ip = 4 then Some (ntop4 ip) else None)"
| "addr_text ntop6 (IPv6 ip) = (if length ip = 16 then ntop6 ip else None)"

lemma bind_io_Some: "m s = (Some x, s') \<Longrightarrow> bind_io m f s = f x s'"
  by (simp add: bind_io_def)

lemma unat_of_nat_u8: "n < 256 \<Longrightarrow> unat (word_of_nat n :: u8) = n"
  by (simp add: unat_of_nat)

lemma socks5_address_reads:
  assumes av: "avail s = tl (addr_bytes a) @ ys" and named: "addr_text ntop6 a = Some host"
  obtains s' where "socks5_address ntop6 (hd (addr_bytes a)) s = (Some host, s')" "avail s' = ys" "same_out s s'"
proof (cases a)
  case (Domain name)
  with named have len: "length name < 256" and host: "host = str_of_bytes name" by (auto split: if_splits)
  obtain s1 where 1: "recvExact 1 s = (Some [word_of_nat (length name)], s1)" "avail s1 = name @ ys" "same_out s s1"
    using recvExact_avail [of s "[word_of_nat (length name)]" "name @ ys" 1] av Domain by auto
  obtain s2 where 2: "recvExact (length name) s1 = (Some name, s2)" "avail s2 = ys" "same_out s1 s2"
    using recvExact_avail [OF 1(2) refl] .
  have "socks5_address ntop6 3 s = (Some host, s2)"
    using 1(1) 2(1) len host
    by (simp add: socks5_address_def bind_io_def return_io_def unat_of_nat_u8)
  with 1 2 Domain that show thesis by (auto intro: same_out_trans)
next
  case (IPv4 ip)
  with named have len: "length ip = 4" and host: "host = ntop4 ip" by (auto split: if_splits)
  obtain s1 where "recvExact 4 s = (Some ip, s1)" "avail s1 = ys" "same_out s s1"
    using recvExact_avail [of s ip ys 4] av len IPv4 by auto
  with host IPv4 that show thesis by (simp add: socks5_address_def bind_io_def return_io_def)
next
  case (IPv6 ip)
  with named have len: "length ip = 16" and host: "ntop6 ip = Some host" by (auto split: if_splits)
  obtain s1 where "recvExact 16 s = (Some ip, s1)" "avail s1 = ys" "same_out s s1"
    using recvExact_avail [of s ip ys 16] av len IPv6 by auto
  with host IPv6 that show thesis by (simp add: socks5_address_def bind_io_def return_io_def)
qed

lemma port_of_be16: "port_of (be16 v) = v"
  using word_u16_split [of v] by (simp add: port_of_def be16_def)

lemma send_io_accepting:
  assumes "c_send s = []" "\<not> c_closed s" "data \<noteq> []"
  obtains s' where "send_io data s = (Some (), s')" "c_out s' = c_out s @ data" "c_send s' = []" "\<not> c_closed s'"
    "avail s' = avail s"
  using assms that by (simp add: send_io_def sendAll_accepting avail_def)

lemma socks5_request_reads:
  assumes av: "avail s = methods @ [5, 1, rsv] @ addr_bytes a @ be16 port @ rest"
    and m: "length methods = unat nmethods" and named: "addr_text ntop6 a = Some host"
    and out: "c_send s = []" "\<not> c_closed s"
  obtains s' where "socks5_request ntop6 nmethods s = (Some (host, port), s')" "avail s' = rest"
    "c_out s' = c_out s @ [5, 0] @ socks5_ok" "\<not> c_closed s'"
proof -
  obtain t as where a: "addr_bytes a = t # as" by (cases a) auto
  obtain s1 where 1: "recvExact (unat nmethods) s = (Some methods, s1)"
    "avail s1 = [5, 1, rsv] @ addr_bytes a @ be16 port @ rest" "same_out s s1"
    using recvExact_avail [OF av m] .
  obtain s2 where 2: "send_io [5, 0] s1 = (Some (), s2)" "c_out s2 = c_out s1 @ [5, 0]" "c_send s2 = []"
    "\<not> c_closed s2" "avail s2 = [5, 1, rsv, t] @ as @ be16 port @ rest"
    using send_io_accepting [of s1 "[5, 0]"] 1 out a by (auto simp: same_out_def)
  obtain s3 where 3: "recvExact 4 s2 = (Some [5, 1, rsv, t], s3)" "avail s3 = as @ be16 port @ rest" "same_out s2 s3"
    using recvExact_avail [OF 2(5), of 4] by auto
  obtain s4 where 4: "socks5_address ntop6 t s3 = (Some host, s4)" "avail s4 = be16 port @ rest" "same_out s3 s4"
    using socks5_address_reads [of s3 a "be16 port @ rest", OF _ named] 3(2) a by auto
  obtain s5 where 5: "recvExact 2 s4 = (Some (be16 port), s5)" "avail s5 = rest" "same_out s4 s5"
    using recvExact_avail [OF 4(2), of 2] by auto
  obtain s6 where 6: "send_io socks5_ok s5 = (Some (), s6)" "c_out s6 = c_out s5 @ socks5_ok" "\<not> c_closed s6"
    "avail s6 = rest"
    using send_io_accepting [of s5 socks5_ok] 2 3 4 5 by (auto simp: same_out_def socks5_ok_def)
  have "socks5_request ntop6 nmethods s = (Some (host, port), s6)"
    using 1(1) 2(1) 3(1) 4(1) 5(1) 6(1)
    by (simp add: socks5_request_def bind_io_Some return_io_def port_of_be16)
  moreover have "c_out s6 = c_out s @ [5, 0] @ socks5_ok"
    using 1 2 3 4 5 6 by (simp add: same_out_def)
  ultimately show thesis using that 6 by blast
qed

text \<open>A SOCKS 5 client's side of the handshake.\<close>

definition socks5_client_bytes :: "bytes \<Rightarrow> u8 \<Rightarrow> socks_addr \<Rightarrow> u16 \<Rightarrow> bytes" where
  "socks5_client_bytes methods rsv a port =
     [5, word_of_nat (length methods)] @ methods @ [5, 1, rsv] @ addr_bytes a @ be16 port"

lemma socks5_handshake_completes:
  assumes av: "avail s = socks5_client_bytes methods rsv a port @ rest"
    and m: "length methods < 256" and named: "addr_text ntop6 a = Some host"
    and out: "c_send s = []" "\<not> c_closed s"
  obtains s' where "socks_handshake ntop6 s = (Some (host, port), s')" "avail s' = rest"
    "c_out s' = c_out s @ [5, 0] @ socks5_ok" "\<not> c_closed s'"
proof -
  let ?n = "word_of_nat (length methods) :: u8"
  obtain s1 where 1: "recvExact 2 s = (Some [5, ?n], s1)"
    "avail s1 = methods @ [5, 1, rsv] @ addr_bytes a @ be16 port @ rest" "same_out s s1"
    using recvExact_avail [of s "[5, ?n]" _ 2] av by (auto simp: socks5_client_bytes_def)
  have "length methods = unat ?n" using m by (simp add: unat_of_nat_u8)
  then obtain s2 where 2: "socks5_request ntop6 ?n s1 = (Some (host, port), s2)" "avail s2 = rest"
    "c_out s2 = c_out s1 @ [5, 0] @ socks5_ok" "\<not> c_closed s2"
    using socks5_request_reads [OF 1(2) _ named] 1(3) out by (auto simp: same_out_def)
  with 1 that show thesis
    by (simp add: socks_handshake_def bind_io_Some same_out_def)
qed

text \<open>C18. However the bytes of a SOCKS 5 CONNECT request are cut into TCP segments, the proxy
  recognizes its target: it answers the greeting and the request, hands exactly the requested
  host (domain, dotted IPv4 or IPv6 named) and port to the bridge, and leaves the bytes after
  the request unread.\<close>

theorem socks5_handshake_reads_target:
  assumes "avail s = socks5_client_bytes methods rsv a port @ rest"
    and "length methods < 256" and "addr_text ntop6 a = Some host"
    and "c_send s = []" "\<not> c_closed s"
  shows "\<exists>s'. socks_handshake ntop6 s = (Some (host, port), s') \<and> avail s' = rest
            \<and> c_out s' = c_out s @ [5, 0] @ socks5_ok \<and> \<not> c_closed s'"
  using socks5_handshake_completes [OF assms] by blast

definition sample_sock :: csock where
  "sample_sock = \<lparr>c_in = [[5], [1, 0, 5, 1], [0, 3, 2, 97], [98, 0, 80, 7]], c_send = [], c_out = [], c_closed = False\<rparr>"

lemma sample_chars: "char_of_byte 97 = CHR ''a''" "char_of_byte 98 = CHR ''b''"
  by (simp_all add: char_of_byte_def char_of_def bit_Suc_0_iff)

theorem socks5_handshake_reads_target_witness:
  "\<exists>s'. socks_handshake (\<lambda>_. None) sample_sock = (Some (''ab'', 80), s') \<and> avail s' = [7]
      \<and> c_out s' = c_out sample_sock @ [5, 0] @ socks5_ok \<and> \<not> c_closed s'"
  by (rule socks5_handshake_reads_target [of _ "[0]" 0 "Domain [97, 98]"])
     (simp_all add: sample_sock_def avail_def socks5_client_bytes_def be16_def sample_chars)

text \<open>A handshake that fails has closed the client, whatever was wrong.\<close>

lemma handshake_failed_closed: "socks_handshake ntop6 s = (None, s') \<Longrightarrow> c_closed s'"
  by (auto simp: socks_handshake_def gracefulCloseClient_def split: prod.splits option.splits)

section \<open>The bridge is transparent\<close>

text \<open>
  \<open>sent\<close> are the packets accepted before the bridge began, \<open>out\<close> the bytes written to the
  client before: since then exactly the bytes read from the client have been accepted as DATA
  frames of the stream, in order, and exactly the payload bytes taken from the stream have been
  written to the client, each up to a cut at the end once that direction has failed.
\<close>

definition bridge_wf :: "('b \<Rightarrow> bytes list) \<Rightarrow> u32 \<Rightarrow> bytes list \<Rightarrow> bytes \<Rightarrow> 'b bridge \<Rightarrow> bool" where
  "bridge_wf accepted i sent out b \<longleftrightarrow>
     (\<exists>segs lost. accepted (backend (br_core b)) = sent @ map (encodeDataFrame i) segs
        \<and> (\<forall>d \<in> set segs. d \<noteq> [] \<and> length d \<le> 1200)
        \<and> br_read b = concat segs @ lost \<and> (br_uplink b \<longrightarrow> lost = []))
   \<and> (\<exists>written lost. c_out (br_sock b) = out @ written \<and> br_got b = written @ lost \<and> (br_down b \<longrightarrow> lost = []))"

lemma bridge_wf_opened: "bridge_wf accepted i (accepted (backend c)) (c_out s) (bridge_opened s c)"
  by (simp add: bridge_wf_def bridge_opened_def)

lemma bridge_wf_close: "bridge_wf accepted i sent out b \<Longrightarrow> bridge_wf accepted i sent out (bridge_close b)"
  by (simp add: bridge_wf_def bridge_close_def gracefulCloseClient_def)

lemma bridge_wf_downlink:
  assumes wf: "bridge_wf accepted i sent out b"
  shows "bridge_wf accepted i sent out (downlink_step j running b)"
proof (cases "br_down b \<and> br_alive b \<and> running")
  case False
  with wf show ?thesis by (auto simp: bridge_wf_def downlink_step_def)
next
  case True
  then have down: "br_down b" by simp
  obtain f c where await: "awaitStreamFrame j (br_core b) = (f, c)" by fastforce
  have c: "backend c = backend (br_core b)"
    using awaitStreamFrame_fields(4) [of j "br_core b"] await by simp
  from wf down obtain segs lost where up:
    "accepted (backend (br_core b)) = sent @ map (encodeDataFrame i) segs" "\<forall>d \<in> set segs. d \<noteq> [] \<and> length d \<le> 1200"
    "br_read b = concat segs @ lost" "br_uplink b \<longrightarrow> lost = []" and got: "c_out (br_sock b) = out @ br_got b"
    unfolding bridge_wf_def by auto
  show ?thesis
  proof (cases f)
    case None
    with True await c wf show ?thesis by (simp add: downlink_step_def bridge_wf_def)
  next
    case (Some fr)
    obtain ok s where sa: "sendAll (if_payload fr) (br_sock b) = (ok, s)" by fastforce
    from sendAll_result [OF sa] got obtain n where
      "c_out s = out @ (br_got b @ take n (if_payload fr))" "ok \<longrightarrow> n = length (if_payload fr)" by auto
    then have "\<exists>written lost'. c_out s = out @ written \<and> br_got b @ if_payload fr = written @ lost' \<and> (ok \<longrightarrow> lost' = [])"
      by (intro exI [of _ "br_got b @ take n (if_payload fr)"] exI [of _ "drop n (if_payload fr)"]) simp
    with True await c up got Some sa show ?thesis
      by (auto simp: downlink_step_def bridge_wf_def Let_def)
  qed
qed

context transport_backend
begin

lemma bridge_wf_uplink:
  assumes wf: "bridge_wf accepted i sent out b"
  shows "bridge_wf accepted i sent out (uplink_step sendPacket i running b)"
proof (cases "br_uplink b \<and> br_alive b \<and> running")
  case False
  with wf show ?thesis by (auto simp: bridge_wf_def uplink_step_def)
next
  case True
  obtain d s where recv: "sock_recv kBridgeBuffer (br_sock b) = (d, s)" by fastforce
  have s: "c_out s = c_out (br_sock b)"
    using sock_recv_avail(4) [OF recv] by (simp add: kBridgeBuffer_def same_out_def)
  obtain rc c where send: "sendStreamData sendPacket i d (br_core b) = (rc, c)" by fastforce
  let ?chs = "chunks kDataSegmentSize d"
  have pos: "0 < kDataSegmentSize" by (simp add: kDataSegmentSize_def)
  obtain n where n: "accepted (backend c) = accepted (backend (br_core b)) @ map (encodeDataFrame i) (take n ?chs)"
    "if rc = 0 then n = length ?chs else rc = -1 \<and> n < length ?chs"
    using sendStreamData_accepted [OF send] by blast
  from wf True obtain segs where up:
    "accepted (backend (br_core b)) = sent @ map (encodeDataFrame i) segs" "\<forall>d \<in> set segs. d \<noteq> [] \<and> length d \<le> 1200"
    "br_read b = concat segs" unfolding bridge_wf_def by auto
  have bounds: "\<forall>x \<in> set (take n ?chs). x \<noteq> [] \<and> length x \<le> 1200"
    using chunks_bounds [OF pos, of _ d] by (auto simp: kDataSegmentSize_def dest: in_set_takeD)
  have "d = concat (take n ?chs) @ concat (drop n ?chs)"
    using concat_chunks [OF pos, of d] by (metis append_take_drop_id concat_append)
  then have "\<exists>segs lost. accepted (backend c) = sent @ map (encodeDataFrame i) segs
      \<and> (\<forall>d \<in> set segs. d \<noteq> [] \<and> length d \<le> 1200) \<and> br_read b @ d = concat segs @ lost \<and> (rc = 0 \<longrightarrow> lost = [])"
    using n up bounds by (intro exI [of _ "segs @ take n ?chs"] exI [of _ "concat (drop n ?chs)"]) auto
  with True wf recv send s show ?thesis
    by (auto simp: uplink_step_def bridge_wf_def Let_def)
qed

lemma bridge_wf_step:
  assumes "bridge_step sendPacket receivePacket i b b'" "bridge_wf accepted i sent out b"
  shows "bridge_wf accepted i sent out b'"
  using assms
proof (induction rule: bridge_step.induct)
  case (receiver b)
  have "backend (receiver_iteration receivePacket (br_core b)) = snd (receivePacket (backend (br_core b)))"
    by (simp add: receiver_iteration_def Let_def split: prod.split option.split)
  with receiver show ?case by (simp add: bridge_wf_def receive_accepted)
qed (simp_all add: bridge_wf_uplink bridge_wf_downlink bridge_wf_close)

lemma bridge_wf_reachable:
  assumes "(bridge_step sendPacket receivePacket i)\<^sup>*\<^sup>* (bridge_opened s c) b"
  shows "bridge_wf accepted i (accepted (backend c)) (c_out s) b"
  using assms by (induction rule: rtranclp_induct) (auto simp: bridge_wf_opened bridge_wf_step)

end

definition sample_browser :: csock where
  "sample_browser = \<lparr>c_in = [[1, 2]], c_send = [], c_out = [], c_closed = False\<rparr>"


section \<open>The end of a connection\<close>

text \<open>After a bridge its stream is gone from the core's tables, and the server was told with a
  CLOSE unless it ended the stream itself.\<close>

lemma bridge_finish_unregisters:
  "map_of (streamQueues (bridge_finish send i b)) i = None"
  "map_of (pendingOpenMs (bridge_finish send i b)) i = None"
  by (simp_all add: bridge_finish_def unregisterStream_def)

lemma bridge_finish_tells_server:
  "backend (bridge_finish send i b) =
     (if br_remoteEnded b then backend (br_core b) else snd (send (encodeCloseFrame i) (backend (br_core b))))"
  by (simp add: bridge_finish_def unregisterStream_def core_closeStream_def)

text \<open>When the OPEN fails the client has already been told that it succeeded, and its socket
  stays open: nothing closes it.\<close>

lemma open_failure_leaks_client:
  assumes "socks_handshake ntop6 client = (Some (host, port), client')" "\<not> c_closed client'"
    and "openStream send now sent turns (sv_nextStreamId sv) host port token core = Some (rc, core')" "rc \<noteq> 0"
  shows "\<exists>sv'. handleClient ntop6 resolve send now sent turns token client sv (Some core)
           = (Open_Failed client' (unregisterStream (sv_nextStreamId sv) core') rc, sv') \<and> \<not> c_closed client'"
  using assms by (simp add: handleClient_def bridgeViaBackend_def Let_def)

text \<open>Starting and stopping are balanced, on every path.\<close>

lemma socks_start_stop:
  assumes "socks_start wsa_ok socket_ok bind_ok listen_ok port sv = (r, sv')" "\<not> sv_running sv" "\<not> sv_listening sv"
  shows "(case r of Inl e \<Rightarrow> sv' = sv | Inr _ \<Rightarrow> sv_running sv' \<and> sv_listening sv' \<and> sv_port sv' = port)"
    and "sv_wsa (socks_stop sv') = sv_wsa sv" and "\<not> sv_listening (socks_stop sv')" and "\<not> sv_running (socks_stop sv')"
  using assms by (auto simp: socks_start_def socks_stop_def split: if_splits)

end
