(* ===== verification/Egress_Policy.thy ===== *)
theory Egress_Policy
  imports Egress_Config
begin

text \<open>
  The stateless checks of \<^verbatim>\<open>ton-egress-node/src/egress_node.cpp\<close>: who may open a stream,
  to which port, host and address; the key under which a stream is stored; and the TCP connect
  helper. The operating system's \<^verbatim>\<open>inet_pton\<close> (composed with \<^verbatim>\<open>ntohl\<close>) is a
  parameter \<open>pton\<close>; the results of the socket calls are the fields of \<open>tcp_sys\<close>.
\<close>

section \<open>Policy checks\<close>

definition isClientAllowed :: "Config \<Rightarrow> string \<Rightarrow> string \<Rightarrow> bool" where
  "isClientAllowed cfg client_id token =
     (if auth_token cfg \<noteq> [] \<and> token \<noteq> auth_token cfg then False
      else if allowed_clients cfg = [] then True
      else client_id \<in> set (allowed_clients cfg))"

definition isPortAllowed :: "Config \<Rightarrow> u16 \<Rightarrow> bool" where
  "isPortAllowed cfg port \<longleftrightarrow> port \<in> set (allowed_ports (egress cfg))"

text \<open>\<^verbatim>\<open>std::tolower\<close> in the C locale.\<close>

definition tolower :: "char \<Rightarrow> char" where
  "tolower c = (if 65 \<le> (of_char c :: nat) \<and> (of_char c :: nat) \<le> 90 then char_of (of_char c + 32 :: nat) else c)"

definition isHostBlocked :: "string \<Rightarrow> bool" where
  "isHostBlocked host =
     (let lowered = map tolower host in lowered = ''localhost'' \<or> lowered = ''localhost.localdomain'')"

definition isAddressBlocked :: "(string \<Rightarrow> u32 option) \<Rightarrow> string \<Rightarrow> bool" where
  "isAddressBlocked pton ip =
     (if ip = ''127.0.0.1'' \<or> ip = ''169.254.169.254'' then True
      else (case pton (c_str ip) of
              None \<Rightarrow> True
            | Some v \<Rightarrow>
                let is10 = (v AND 0xFF000000 = 0x0A000000);
                    is172 = (v AND 0xFFF00000 = 0xAC100000);
                    is192 = (v AND 0xFFFF0000 = 0xC0A80000);
                    isLoopback = (v AND 0xFF000000 = 0x7F000000);
                    isLinkLocal = (v AND 0xFFFF0000 = 0xA9FE0000)
                in is10 \<or> is172 \<or> is192 \<or> isLoopback \<or> isLinkLocal))"

definition keyFor :: "string \<Rightarrow> u32 \<Rightarrow> string" where
  "keyFor client_id stream_id = client_id @ ''#'' @ to_string (unat stream_id)"


section \<open>The TCP connect helper\<close>

record tcp_sys =
  sys_socket :: int
  sys_getfl :: int
  sys_setfl :: int
  sys_connect :: int
  sys_einprogress :: bool
  sys_select :: int
  sys_getsockopt :: int
  sys_so_error :: int

text \<open>What a handler does to its sockets, in order.\<close>

datatype sock_op =
    Set_Nonblock int
  | Restore_Flags int
  | Connect_To int string u16
  | Shutdown_Fd int
  | Close_Fd int
  | Send_To int bytes

text \<open>
  The result is the descriptor (or \<open>-1\<close>) and the socket operations performed.
  \<^verbatim>\<open>FD_SET\<close> writes into a bit set of \<^verbatim>\<open>FD_SETSIZE\<close> entries on the stack; a
  descriptor beyond it is undefined behaviour, hence the outer \<open>None\<close>.
\<close>

definition fd_setsize :: int where "fd_setsize = 1024"

definition connectIPv4WithTimeout ::
  "tcp_sys \<Rightarrow> (string \<Rightarrow> u32 option) \<Rightarrow> string \<Rightarrow> u16 \<Rightarrow> (int \<times> sock_op list) option" where
  "connectIPv4WithTimeout sys pton ip port =
     (let fd = sys_socket sys;
          nb = [Set_Nonblock fd];
          co = nb @ [Connect_To fd ip port] in
      if fd < 0 then Some (-1, [])
      else if sys_getfl sys < 0 then Some (-1, [Close_Fd fd])
      else if sys_setfl sys \<noteq> 0 then Some (-1, nb @ [Close_Fd fd])
      else if pton (c_str ip) = None then Some (-1, nb @ [Close_Fd fd])
      else if sys_connect sys = 0 then Some (fd, co @ [Restore_Flags fd])
      else if \<not> sys_einprogress sys then Some (-1, co @ [Close_Fd fd])
      else if fd \<ge> fd_setsize then None
      else if sys_select sys \<le> 0 then Some (-1, co @ [Close_Fd fd])
      else if sys_getsockopt sys \<noteq> 0 \<or> sys_so_error sys \<noteq> 0 then Some (-1, co @ [Close_Fd fd])
      else Some (fd, co @ [Restore_Flags fd]))"


section \<open>Properties\<close>

lemma connect_cases:
  assumes "connectIPv4WithTimeout sys pton ip port = Some (fd, ops)"
  shows "(fd = sys_socket sys \<and> 0 \<le> fd \<and> ops = [Set_Nonblock fd, Connect_To fd ip port, Restore_Flags fd])
    \<or> (fd = -1 \<and> (\<exists>pre. ops = pre @ (if sys_socket sys < 0 then [] else [Close_Fd (sys_socket sys)]) \<and>
         set pre \<subseteq> {Set_Nonblock (sys_socket sys), Connect_To (sys_socket sys) ip port}))"
  using assms by (auto simp: connectIPv4WithTimeout_def Let_def split: if_splits)

lemma connect_defined:
  "sys_socket sys < fd_setsize \<Longrightarrow> connectIPv4WithTimeout sys pton ip port \<noteq> None"
  by (simp add: connectIPv4WithTimeout_def Let_def)

lemma connect_fd_set_overflow:
  "0 \<le> sys_getfl sys \<Longrightarrow> sys_setfl sys = 0 \<Longrightarrow> pton (c_str ip) = Some v \<Longrightarrow> sys_connect sys \<noteq> 0 \<Longrightarrow>
   sys_einprogress sys \<Longrightarrow> fd_setsize \<le> sys_socket sys \<Longrightarrow> connectIPv4WithTimeout sys pton ip port = None"
  by (simp add: connectIPv4WithTimeout_def Let_def fd_setsize_def)


definition sample_sys :: tcp_sys where
  "sample_sys = \<lparr>sys_socket = 7, sys_getfl = 2, sys_setfl = 0, sys_connect = -1, sys_einprogress = True,
     sys_select = 1, sys_getsockopt = 0, sys_so_error = 0\<rparr>"


lemma and_high_mask:
  fixes v :: u32
  assumes "n \<le> 32"
  shows "v AND push_bit n (mask (32 - n)) = push_bit n (drop_bit n v)"
  using assms by (intro bit_word_eqI) (auto simp: bit_simps)

lemma unat_high_part:
  fixes v :: u32
  shows "unat (push_bit n (drop_bit n v)) = unat v div 2 ^ n * 2 ^ n"
proof -
  have "unat v div 2 ^ n * 2 ^ n < 4294967296"
    by (rule le_less_trans [OF div_times_less_eq_dividend unat_u32_bound])
  then have "take_bit 32 (unat v div 2 ^ n * 2 ^ n) = unat v div 2 ^ n * 2 ^ n"
    by (simp add: take_bit_nat_eq_self_iff)
  moreover have "take_bit 32 (unat v) = unat v"
    using unat_u32_bound [of v] by (simp add: take_bit_nat_eq_self_iff)
  ultimately show ?thesis
    by (simp only: unsigned_push_bit_eq unsigned_drop_bit_eq) (simp add: push_bit_eq_mult drop_bit_eq_div)
qed

lemma high_mask_eq:
  fixes v :: u32
  assumes "m = push_bit n (mask (32 - n))" "n \<le> 32"
  shows "v AND m = b \<longleftrightarrow> unat v div 2 ^ n * 2 ^ n = unat b"
  unfolding assms(1) and_high_mask [OF assms(2)] by (simp only: word_unat_eq_iff unat_high_part)

definition in_range :: "u32 \<Rightarrow> nat \<Rightarrow> nat \<Rightarrow> bool" where
  "in_range v lo hi \<longleftrightarrow> lo \<le> unat v \<and> unat v \<le> hi"

lemma blocked_prefixes:
  fixes v :: u32
  shows "v AND 0xFF000000 = 0x0A000000 \<longleftrightarrow> in_range v 0x0A000000 0x0AFFFFFF"
    and "v AND 0xFFF00000 = 0xAC100000 \<longleftrightarrow> in_range v 0xAC100000 0xAC1FFFFF"
    and "v AND 0xFFFF0000 = 0xC0A80000 \<longleftrightarrow> in_range v 0xC0A80000 0xC0A8FFFF"
    and "v AND 0xFF000000 = 0x7F000000 \<longleftrightarrow> in_range v 0x7F000000 0x7FFFFFFF"
    and "v AND 0xFFFF0000 = 0xA9FE0000 \<longleftrightarrow> in_range v 0xA9FE0000 0xA9FEFFFF"
  by (auto simp: high_mask_eq [of _ 24] high_mask_eq [of _ 20] high_mask_eq [of _ 16]
      mask_eq_exp_minus_1 push_bit_eq_mult in_range_def)

text \<open>C39. The address filter blocks exactly 10.0.0.0/8, 172.16.0.0/12, 192.168.0.0/16,
  127.0.0.0/8 and 169.254.0.0/16, every string that is not an IPv4 address, and the two
  literals it compares first. Any other address passes, 0.0.0.0 among them.\<close>

theorem isAddressBlocked_ranges:
  "isAddressBlocked pton ip \<longleftrightarrow>
     ip \<in> {''127.0.0.1'', ''169.254.169.254''} \<or>
     (case pton (c_str ip) of
        None \<Rightarrow> True
      | Some v \<Rightarrow> in_range v 0x0A000000 0x0AFFFFFF \<or> in_range v 0xAC100000 0xAC1FFFFF \<or>
                  in_range v 0xC0A80000 0xC0A8FFFF \<or> in_range v 0x7F000000 0x7FFFFFFF \<or>
                  in_range v 0xA9FE0000 0xA9FEFFFF)"
  by (simp add: isAddressBlocked_def Let_def blocked_prefixes split: option.splits)

lemma zero_address_passes: "pton ''0.0.0.0'' = Some 0 \<Longrightarrow> \<not> isAddressBlocked pton ''0.0.0.0''"
  by (simp add: isAddressBlocked_def c_str_def)

text \<open>The host filter looks at the whole \<^verbatim>\<open>std::string\<close>, the resolver at its C-string
  prefix: a host name with an embedded NUL passes the filter and is resolved as
  ``localhost''. With \<open>block_private_ips\<close> off nothing else stops it.\<close>

lemma host_filter_nul_bypass:
  assumes "rest \<noteq> []"
  shows "\<not> isHostBlocked (''localhost'' @ CHR 0x00 # rest) \<and>
    c_str (''localhost'' @ CHR 0x00 # rest) = ''localhost'' \<and> isHostBlocked ''localhost''"
proof -
  have "tolower (CHR 0x00) = CHR 0x00" by (simp add: tolower_def)
  then show ?thesis
    using assms by (simp add: isHostBlocked_def c_str_def tolower_def)
qed

lemma last_hash_split:
  assumes "a @ CHR ''#'' # u = b @ CHR ''#'' # v" "CHR ''#'' \<notin> set u" "CHR ''#'' \<notin> set v"
  shows "a = b \<and> u = v"
proof -
  from assms have "rev u @ CHR ''#'' # rev a = rev v @ CHR ''#'' # rev b"
    by (metis append_Cons append_Nil append_assoc rev.simps(2) rev_append)
  then have eq: "takeWhile ((\<noteq>) CHR ''#'') (rev u @ CHR ''#'' # rev a) =
      takeWhile ((\<noteq>) CHR ''#'') (rev v @ CHR ''#'' # rev b)" by simp
  have "takeWhile ((\<noteq>) CHR ''#'') (rev w @ CHR ''#'' # r) = rev w" if "CHR ''#'' \<notin> set w" for w r
    using that by (subst takeWhile_append2) auto
  with eq assms have "u = v" by simp
  with assms show ?thesis by simp
qed

lemma to_string_no_hash: "CHR ''#'' \<notin> set (to_string n)"
  using to_string_digits [of n] by (auto simp: is_digit_def)

lemma keyFor_eq_iff [simp]: "keyFor c i = keyFor c' i' \<longleftrightarrow> c = c' \<and> i = i'"
proof
  assume "keyFor c i = keyFor c' i'"
  then have "c @ CHR ''#'' # to_string (unat i) = c' @ CHR ''#'' # to_string (unat i')"
    by (simp add: keyFor_def)
  from last_hash_split [OF this to_string_no_hash to_string_no_hash]
  show "c = c' \<and> i = i'" by (simp add: word_unat_eq_iff)
qed simp

text \<open>Stream keys are unambiguous: two streams share a key only when they belong to the
  same client and have the same id, whatever characters client ids contain.\<close>

lemma keyFor_injective: "inj (\<lambda>(client_id, stream_id). keyFor client_id stream_id)"
  by (auto simp: inj_def)

text \<open>With authentication on, \<open>isClientAllowed\<close> requires the shared token when one is
  configured and membership in the list when there is one. When neither is configured it
  accepts everybody, so the last of the three log messages of \<open>handleOpen\<close>
  (``unauthorized'', no token mismatch and an empty list) is never reached.\<close>

lemma isClientAllowed_iff:
  "(isClientAllowed cfg c token \<longleftrightarrow>
      (auth_token cfg = [] \<or> token = auth_token cfg) \<and>
      (allowed_clients cfg = [] \<or> c \<in> set (allowed_clients cfg)))
   \<and> (isClientAllowed cfg c token \<or>
      (auth_token cfg \<noteq> [] \<and> token \<noteq> auth_token cfg) \<or> allowed_clients cfg \<noteq> [])"
  by (auto simp: isClientAllowed_def)

end
