(* ===== verification/Wintun_Bridge.thy ===== *)
theory Wintun_Bridge
  imports Wintun_Dns Local_Socks5 Egress_Policy
begin

text \<open>
  The rest of \<^verbatim>\<open>TON-Tunnel/WintunLwipBridge.cpp\<close>: loading the driver, starting and
  stopping, the SOCKS client, the table of TCP connections with the callbacks lwIP invokes, and
  the two threads that move data. wintun, lwIP and the adapter list of Windows are parameters:
  the arguments say which calls succeed. A \<^verbatim>\<open>tcp_pcb\<close> is a number, a \<^verbatim>\<open>pbuf\<close> the list of
  its segments; \<open>wt_closed\<close> and \<open>wt_tun\<close> record the calls of \<^verbatim>\<open>tcp_close\<close> or
  \<^verbatim>\<open>tcp_abort\<close> and the packets written to the adapter. \<open>cn_queued\<close> and \<open>cn_written\<close> are
  ghosts: the bytes queued for the connection and those accepted by \<^verbatim>\<open>tcp_write\<close>.
\<close>

section \<open>Loading the driver\<close>

definition wintun_symbols :: "string list" where
  "wintun_symbols = [''WintunCreateAdapter'', ''WintunCloseAdapter'', ''WintunStartSession'', ''WintunEndSession'',
     ''WintunGetReadWaitEvent'', ''WintunReceivePacket'', ''WintunReleaseReceivePacket'',
     ''WintunAllocateSendPacket'', ''WintunSendPacket'', ''WintunGetAdapterLUID'']"

text \<open>\<open>exePath\<close> is the path of the executable when it could be read; the backslash is character 92.\<close>

definition is_slash :: "char \<Rightarrow> bool" where
  "is_slash c \<longleftrightarrow> c = char_of (92 :: nat) \<or> c = CHR ''/''"

definition loadWintunDll :: "(string \<Rightarrow> bool) \<Rightarrow> (string \<Rightarrow> bool) \<Rightarrow> string option \<Rightarrow> string \<Rightarrow> string + unit" where
  "loadWintunDll load has_symbol exePath path =
     (let beside = (case exePath of
                      None \<Rightarrow> False
                    | Some full \<Rightarrow>
                        list_ex is_slash full \<and>
                        load (rev (dropWhile (\<lambda>c. \<not> is_slash c) (rev full)) @ ''wintun.dll''))
      in if \<not> (load path \<or> beside)
         then Inl ''LoadLibrary wintun.dll failed (put wintun.dll near TON_Tunnel.exe)''
         else case List.find (\<lambda>fn. \<not> has_symbol fn) wintun_symbols of
                Some fn \<Rightarrow> Inl (''Missing '' @ fn)
              | None \<Rightarrow> Inr ())"

text \<open>An adapter: its friendly name, its index, its IPv4 addresses.\<close>

definition adapter_matches :: "string \<Rightarrow> bool" where
  "adapter_matches name =
     (let name = map tolower name in find_str ''ton-tunnel'' name \<noteq> None \<or> find_str ''wintun'' name \<noteq> None)"

definition findAdapterIndex :: "(string \<times> u32 \<times> u32 list) list option \<Rightarrow> (u32 \<times> u32 option) option" where
  "findAdapterIndex addrs =
     (case addrs of
        None \<Rightarrow> None
      | Some ps \<Rightarrow>
          (case List.find (\<lambda>(name, idx, ips). adapter_matches name) ps of
             None \<Rightarrow> None
           | Some (name, idx, ips) \<Rightarrow> Some (idx, case ips of [] \<Rightarrow> None | ip # _ \<Rightarrow> Some ip)))"


section \<open>State\<close>

definition kMaxPendingSize :: nat where "kMaxPendingSize = 256 * 1024"

record conn =
  cn_socks :: "csock option"
  cn_connected :: bool
  cn_pending :: "bytes list"
  cn_size :: nat
  cn_remoteClosed :: bool
  cn_localClosed :: bool
  cn_queued :: bytes
  cn_written :: bytes

definition TcpConnState :: conn where
  "TcpConnState = \<lparr>cn_socks = None, cn_connected = False, cn_pending = [], cn_size = 0,
     cn_remoteClosed = False, cn_localClosed = False, cn_queued = [], cn_written = []\<rparr>"

record wintun =
  wt_running :: bool
  wt_dll :: bool
  wt_adapter :: bool
  wt_session :: bool
  wt_lwip :: bool
  wt_ifIndex :: u32
  wt_tunIp4 :: u32
  wt_socksHost :: string
  wt_socksPort :: u16
  wt_conns :: "(nat \<times> conn) list"
  wt_closed :: "nat list"
  wt_tun :: "bytes list"

definition WintunLwipBridge :: wintun where
  "WintunLwipBridge = \<lparr>wt_running = False, wt_dll = False, wt_adapter = False, wt_session = False, wt_lwip = False,
     wt_ifIndex = 0, wt_tunIp4 = 0, wt_socksHost = [], wt_socksPort = 0, wt_conns = [], wt_closed = [], wt_tun = []\<rparr>"


section \<open>Start and stop\<close>

text \<open>Error numbers in the messages are left out.\<close>

text \<open>\<open>polls\<close> are the adapter lists seen by the successive calls of \<open>findAdapterIndex\<close>, of which
  there are at most 20.\<close>

definition poll_adapter :: "(string \<times> u32 \<times> u32 list) list option list \<Rightarrow> wintun \<Rightarrow> wintun" where
  "poll_adapter polls w =
     (case List.find (\<lambda>p. findAdapterIndex p \<noteq> None) (take 20 polls) of
        None \<Rightarrow> w
      | Some p \<Rightarrow>
          (case findAdapterIndex p of
             None \<Rightarrow> w
           | Some (idx, ip) \<Rightarrow>
               w\<lparr>wt_ifIndex := idx, wt_tunIp4 := (case ip of None \<Rightarrow> wt_tunIp4 w | Some ip \<Rightarrow> ip)\<rparr>))"

definition unloadWintunDll :: "wintun \<Rightarrow> wintun" where
  "unloadWintunDll w = w\<lparr>wt_dll := False\<rparr>"

definition initLwipStack :: "bool \<Rightarrow> wintun \<Rightarrow> (string + unit) \<times> wintun" where
  "initLwipStack netif_ok w = (if \<not> netif_ok then (Inl ''netif_add failed'', w) else (Inr (), w\<lparr>wt_lwip := True\<rparr>))"

definition shutdownLwipStack :: "wintun \<Rightarrow> wintun" where
  "shutdownLwipStack w = (if wt_lwip w then w\<lparr>wt_lwip := False\<rparr> else w)"

definition wintun_start ::
  "string + unit \<Rightarrow> bool \<Rightarrow> bool \<Rightarrow> (string \<times> u32 \<times> u32 list) list option list \<Rightarrow> bool \<Rightarrow> string \<Rightarrow> u16
     \<Rightarrow> wintun \<Rightarrow> (string + unit) \<times> wintun" where
  "wintun_start loaded adapter_ok session_ok polls lwip_ok host port w =
     (if wt_running w then (Inl ''already running'', w)
      else
        let w = w\<lparr>wt_socksHost := host, wt_socksPort := port\<rparr> in
        case loaded of
          Inl e \<Rightarrow> (Inl e, w\<lparr>wt_dll := False\<rparr>)
        | Inr _ \<Rightarrow>
            let w = w\<lparr>wt_dll := True\<rparr> in
            if \<not> adapter_ok then (Inl ''WintunCreateAdapter failed'', unloadWintunDll (w\<lparr>wt_adapter := False\<rparr>))
            else
              let w = w\<lparr>wt_adapter := True\<rparr> in
              if \<not> session_ok
              then (Inl ''WintunStartSession failed'', unloadWintunDll (w\<lparr>wt_session := False, wt_adapter := False\<rparr>))
              else
                let w = poll_adapter polls (w\<lparr>wt_session := True\<rparr>);
                    w = (if wt_ifIndex w = 0 then w\<lparr>wt_tunIp4 := 0x0A000001\<rparr> else w) in
                case initLwipStack lwip_ok w of
                  (Inl e, w) \<Rightarrow> (Inl e, unloadWintunDll (w\<lparr>wt_adapter := False\<rparr>))
                | (Inr _, w) \<Rightarrow> (Inr (), w\<lparr>wt_running := True\<rparr>))"

definition wintun_stop :: "wintun \<Rightarrow> wintun" where
  "wintun_stop w =
     (if \<not> wt_running w then w
      else let w = shutdownLwipStack (w\<lparr>wt_running := False, wt_conns := []\<rparr>)
           in unloadWintunDll (w\<lparr>wt_session := False, wt_adapter := False\<rparr>))"


section \<open>The SOCKS client\<close>

definition socks5Greet :: "csock \<Rightarrow> bool \<times> csock" where
  "socks5Greet s =
     (case sendAll [0x05, 0x01, 0x00] s of
        (False, s) \<Rightarrow> (False, s)
      | (True, s) \<Rightarrow>
          (case recvExact 2 s of
             (None, s) \<Rightarrow> (False, s)
           | (Some resp, s) \<Rightarrow> (resp ! 0 = 0x05 \<and> resp ! 1 = 0x00, s)))"

definition socks5Connect :: "u32 \<Rightarrow> u16 \<Rightarrow> csock \<Rightarrow> bool \<times> csock" where
  "socks5Connect ip port s =
     (case sendAll ([0x05, 0x01, 0x00, 0x01] @ be32 ip @ be16 port) s of
        (False, s) \<Rightarrow> (False, s)
      | (True, s) \<Rightarrow>
          (case recvExact 10 s of
             (None, s) \<Rightarrow> (False, s)
           | (Some resp, s) \<Rightarrow> (resp ! 1 = 0x00, s)))"

definition ipToStr :: "u32 \<Rightarrow> string" where
  "ipToStr ip = ntop4 (be32 ip)"


section \<open>Connections\<close>

definition createConnection :: "nat \<Rightarrow> wintun \<Rightarrow> wintun" where
  "createConnection pcb w = w\<lparr>wt_conns := AList.update pcb TcpConnState (wt_conns w)\<rparr>"

definition destroyConnection :: "nat \<Rightarrow> wintun \<Rightarrow> wintun" where
  "destroyConnection pcb w = w\<lparr>wt_conns := AList.delete pcb (wt_conns w)\<rparr>"

datatype err_t = ERR_OK | ERR_VAL | ERR_ABRT | ERR_IF

definition tcpAcceptCallback :: "err_t \<Rightarrow> nat option \<Rightarrow> wintun \<Rightarrow> err_t \<times> wintun" where
  "tcpAcceptCallback err newpcb w =
     (case newpcb of
        None \<Rightarrow> (ERR_VAL, w)
      | Some pcb \<Rightarrow> if err \<noteq> ERR_OK then (ERR_VAL, w) else (ERR_OK, createConnection pcb w))"

text \<open>\<open>None\<close> as the packet buffer is the end of the stream. The code sends \<^verbatim>\<open>tot_len\<close> bytes from
  the payload of the first segment: the outer \<open>None\<close> when the buffer has further segments.\<close>

definition tcpRecvCallback :: "nat \<Rightarrow> bytes list option \<Rightarrow> wintun \<Rightarrow> wintun option" where
  "tcpRecvCallback pcb p w =
     (case map_of (wt_conns w) pcb of
        None \<Rightarrow> Some w
      | Some st \<Rightarrow>
          (case p of
             None \<Rightarrow> Some (w\<lparr>wt_conns := AList.update pcb (st\<lparr>cn_localClosed := True\<rparr>) (wt_conns w)\<rparr>)
           | Some segs \<Rightarrow>
               (case cn_socks st of
                  Some s \<Rightarrow>
                    if \<not> cn_connected st then Some w
                    else do {
                      d \<leftarrow> slice_at (hd segs) 0 (length (concat segs));
                      (case sendAll d s of (ok, s) \<Rightarrow>
                         Some (w\<lparr>wt_conns := AList.update pcb
                           (if ok then st\<lparr>cn_socks := Some s\<rparr>
                            else st\<lparr>cn_remoteClosed := True, cn_socks := None\<rparr>) (wt_conns w)\<rparr>))
                    }
                | None \<Rightarrow> Some w)))"

text \<open>Hand queued buffers to lwIP while it accepts them; \<open>accepts\<close> are its next answers. (The
  second condition of the loop in \<^verbatim>\<open>tcpSentCallback\<close>, a positive size, holds whenever something
  is queued: buffers are not empty and the size is their total, see \<open>conn_ok\<close> below.)\<close>

fun flush_pending :: "bool list \<Rightarrow> conn \<Rightarrow> conn" where
  "flush_pending (True # as) st =
     (case cn_pending st of
        [] \<Rightarrow> st
      | b # bs \<Rightarrow> flush_pending as (st\<lparr>cn_pending := bs, cn_size := cn_size st - length b,
                                        cn_written := cn_written st @ b\<rparr>))"
| "flush_pending _ st = st"

definition tcpSentCallback :: "nat \<Rightarrow> bool list \<Rightarrow> wintun \<Rightarrow> wintun" where
  "tcpSentCallback pcb accepts w =
     (case map_of (wt_conns w) pcb of
        None \<Rightarrow> w
      | Some st \<Rightarrow> w\<lparr>wt_conns := AList.update pcb (flush_pending accepts st) (wt_conns w)\<rparr>)"

definition tcpErrCallback :: "wintun \<Rightarrow> wintun" where
  "tcpErrCallback w = w\<lparr>wt_closed := wt_closed w @ keys (wt_conns w), wt_conns := []\<rparr>"

definition tcpPollCallback :: "nat \<Rightarrow> wintun \<Rightarrow> wintun" where
  "tcpPollCallback pcb w =
     (case map_of (wt_conns w) pcb of
        None \<Rightarrow> w
      | Some st \<Rightarrow>
          if cn_remoteClosed st \<and> \<not> cn_localClosed st
          then w\<lparr>wt_closed := wt_closed w @ [pcb], wt_conns := AList.delete pcb (wt_conns w)\<rparr>
          else w)"

text \<open>One iteration of a relay thread (with its exit).\<close>

definition relay_step :: "bool \<Rightarrow> conn \<Rightarrow> conn" where
  "relay_step running st =
     (case cn_socks st of
        None \<Rightarrow> st
      | Some s \<Rightarrow>
          if \<not> running \<or> cn_remoteClosed st \<or> cn_localClosed st then st\<lparr>cn_socks := None\<rparr>
          else
            case sock_recv (16 * 1024) s of (d, s) \<Rightarrow>
            if d = [] then st\<lparr>cn_remoteClosed := True, cn_socks := None\<rparr>
            else if cn_size st + length d > kMaxPendingSize then st\<lparr>cn_remoteClosed := True, cn_socks := None\<rparr>
            else st\<lparr>cn_socks := Some s, cn_pending := cn_pending st @ [d], cn_size := cn_size st + length d,
                    cn_queued := cn_queued st @ d\<rparr>)"

definition socksRelay_turn :: "nat \<Rightarrow> wintun \<Rightarrow> wintun" where
  "socksRelay_turn pcb w =
     (case map_of (wt_conns w) pcb of
        None \<Rightarrow> w
      | Some st \<Rightarrow> w\<lparr>wt_conns := AList.update pcb (relay_step (wt_running w) st) (wt_conns w)\<rparr>)"

text \<open>The part of the read thread that serves the connections; \<open>accepts pcb\<close> are lwIP's answers
  for one of them.\<close>

definition readThread_flush :: "(nat \<Rightarrow> bool list) \<Rightarrow> wintun \<Rightarrow> wintun" where
  "readThread_flush accepts w =
     w\<lparr>wt_conns := map (\<lambda>(pcb, st).
         (pcb, if cn_localClosed st \<or> cn_remoteClosed st then st else flush_pending (accepts pcb) st)) (wt_conns w)\<rparr>"

definition writeTunPacket :: "bool \<Rightarrow> bytes \<Rightarrow> wintun \<Rightarrow> bool \<times> wintun" where
  "writeTunPacket allocated data w =
     (if \<not> wt_session w \<or> \<not> wt_running w \<or> data = [] then (False, w)
      else if \<not> allocated then (False, w)
      else (True, w\<lparr>wt_tun := wt_tun w @ [data]\<rparr>))"

definition netifLinkOutputCallback :: "bool \<Rightarrow> bytes list \<Rightarrow> wintun \<Rightarrow> err_t \<times> wintun" where
  "netifLinkOutputCallback allocated p w =
     (if \<not> wt_running w then (ERR_IF, w) else (ERR_OK, snd (writeTunPacket allocated (concat p) w)))"

text \<open>The resolver: the addresses of \<^verbatim>\<open>getaddrinfo\<close> as dotted text.\<close>

definition resolveHost :: "(string \<Rightarrow> u32 list option) \<Rightarrow> string \<Rightarrow> string list" where
  "resolveHost getaddrinfo host =
     (case getaddrinfo (c_str host) of None \<Rightarrow> [] | Some addrs \<Rightarrow> map (\<lambda>a. ntop4 (be32 a)) addrs)"

text \<open>\<open>pbuf_alloc\<close> gives the capacities of the segments of a buffer of the requested size, whose
  type is 16 bits wide; the copy goes to the first segment. The inner result is the packet
  handed to lwIP's input function.\<close>

definition feedPacketToLwip :: "(u16 \<Rightarrow> nat list option) \<Rightarrow> bytes \<Rightarrow> wintun \<Rightarrow> bytes option option" where
  "feedPacketToLwip pbuf_alloc data w =
     (if \<not> wt_lwip w then Some None
      else case pbuf_alloc (word_of_nat (length data)) of
             None \<Rightarrow> Some None
           | Some segs \<Rightarrow> if segs = [] \<or> length data > hd segs then None else Some (Some data))"

text \<open>A packet from the adapter: \<open>handlePacket\<close> of theory \<open>Wintun_Dns\<close> with its effect; packets
  for lwIP are returned.\<close>

definition handle_tun_packet ::
  "(string \<Rightarrow> u32 list option) \<Rightarrow> (string \<Rightarrow> bytes) \<Rightarrow> (u16 \<Rightarrow> nat list option) \<Rightarrow> bool \<Rightarrow> bytes \<Rightarrow> wintun
     \<Rightarrow> (bytes option \<times> wintun) option" where
  "handle_tun_packet getaddrinfo inet_addr pbuf_alloc allocated data w =
     (case handlePacket (resolveHost getaddrinfo) inet_addr (wt_tunIp4 w) data of
        None \<Rightarrow> None
      | Some Ignored \<Rightarrow> Some (None, w)
      | Some (To_Lwip p) \<Rightarrow> map_option (\<lambda>input. (input, w)) (feedPacketToLwip pbuf_alloc p w)
      | Some (Dns_Reply p) \<Rightarrow> Some (None, snd (writeTunPacket allocated p w)))"

text \<open>One turn of the read thread: the queues are flushed, then the packets that wait in the
  adapter are handled; what lwIP does with its packets are steps of its own.\<close>

fun read_packets ::
  "(string \<Rightarrow> u32 list option) \<Rightarrow> (string \<Rightarrow> bytes) \<Rightarrow> (u16 \<Rightarrow> nat list option) \<Rightarrow> (bool \<times> bytes) list \<Rightarrow> wintun
     \<Rightarrow> wintun option" where
  "read_packets getaddrinfo inet_addr pbuf_alloc [] w = Some w"
| "read_packets getaddrinfo inet_addr pbuf_alloc ((allocated, data) # packets) w =
     (if \<not> wt_running w then Some w
      else case handle_tun_packet getaddrinfo inet_addr pbuf_alloc allocated data w of
             None \<Rightarrow> None
           | Some (input, w) \<Rightarrow> read_packets getaddrinfo inet_addr pbuf_alloc packets w)"

definition readThread_turn ::
  "(string \<Rightarrow> u32 list option) \<Rightarrow> (string \<Rightarrow> bytes) \<Rightarrow> (u16 \<Rightarrow> nat list option) \<Rightarrow> (nat \<Rightarrow> bool list)
     \<Rightarrow> (bool \<times> bytes) list \<Rightarrow> wintun \<Rightarrow> wintun option" where
  "readThread_turn getaddrinfo inet_addr pbuf_alloc accepts packets w =
     (if \<not> wt_running w then Some w
      else read_packets getaddrinfo inet_addr pbuf_alloc packets (readThread_flush accepts w))"

section \<open>The queues are bounded and lose nothing\<close>

definition conn_ok :: "conn \<Rightarrow> bool" where
  "conn_ok st \<longleftrightarrow>
     cn_size st = length (concat (cn_pending st)) \<and> cn_size st \<le> kMaxPendingSize
   \<and> [] \<notin> set (cn_pending st) \<and> cn_queued st = cn_written st @ concat (cn_pending st)"

lemma conn_ok_initial: "conn_ok TcpConnState"
  by (simp add: conn_ok_def TcpConnState_def)

lemma conn_ok_flush: "conn_ok st \<Longrightarrow> conn_ok (flush_pending accepts st)"
proof (induction accepts st rule: flush_pending.induct)
  case (1 as st)
  show ?case
  proof (cases "cn_pending st")
    case Nil
    with 1 show ?thesis by simp
  next
    case (Cons b bs)
    with "1.prems" have "conn_ok (st\<lparr>cn_pending := bs, cn_size := cn_size st - length b, cn_written := cn_written st @ b\<rparr>)"
      by (auto simp: conn_ok_def)
    with 1 Cons show ?thesis by simp
  qed
qed simp_all

lemma conn_ok_relay: "conn_ok st \<Longrightarrow> conn_ok (relay_step running st)"
  by (auto simp: conn_ok_def relay_step_def split: option.split prod.split)

definition conns_ok :: "wintun \<Rightarrow> bool" where
  "conns_ok w \<longleftrightarrow> (\<forall>x \<in> set (wt_conns w). conn_ok (snd x))"

lemma conns_ok_lookup: "conns_ok w \<Longrightarrow> map_of (wt_conns w) pcb = Some st \<Longrightarrow> conn_ok st"
  by (force simp: conns_ok_def dest: map_of_SomeD)

lemma update_entries: "x \<in> set (AList.update k v al) \<Longrightarrow> x = (k, v) \<or> x \<in> set al"
  by (induction al) (auto split: if_splits)

lemma conns_ok_update: "conns_ok w \<Longrightarrow> conn_ok st \<Longrightarrow> conns_ok (w\<lparr>wt_conns := AList.update pcb st (wt_conns w)\<rparr>)"
  by (auto simp: conns_ok_def dest!: update_entries)

lemma conns_ok_delete: "conns_ok w \<Longrightarrow> conns_ok (w\<lparr>wt_conns := AList.delete pcb (wt_conns w)\<rparr>)"
  by (auto simp: conns_ok_def AList.delete_eq)

inductive wintun_step :: "wintun \<Rightarrow> wintun \<Rightarrow> bool" where
  start: "wintun_step w (snd (wintun_start loaded adapter_ok session_ok polls lwip_ok host port w))"
| stop: "wintun_step w (wintun_stop w)"
| accept: "wintun_step w (snd (tcpAcceptCallback err newpcb w))"
| recv: "tcpRecvCallback pcb p w = Some w' \<Longrightarrow> wintun_step w w'"
| sent: "wintun_step w (tcpSentCallback pcb accepts w)"
| err: "wintun_step w (tcpErrCallback w)"
| poll: "wintun_step w (tcpPollCallback pcb w)"
| relay: "wintun_step w (socksRelay_turn pcb w)"
| flush: "wintun_step w (readThread_flush accept_fun w)"
| tun: "handle_tun_packet getaddrinfo inet_addr pbuf_alloc allocated data w = Some (p, w') \<Longrightarrow> wintun_step w w'"
| read: "readThread_turn getaddrinfo inet_addr pbuf_alloc accept_fun packets w = Some w' \<Longrightarrow> wintun_step w w'"

lemma wintun_start_conns [simp]: "wt_conns (snd (wintun_start loaded a s polls l host port w)) = wt_conns w"
  by (simp add: wintun_start_def poll_adapter_def unloadWintunDll_def initLwipStack_def Let_def
      split: sum.split option.split prod.split)

lemma conns_ok_recv:
  assumes "tcpRecvCallback pcb p w = Some w'" "conns_ok w"
  shows "conns_ok w'"
proof (cases "map_of (wt_conns w) pcb")
  case None
  with assms show ?thesis by (simp add: tcpRecvCallback_def)
next
  case (Some st)
  then have "conn_ok st" using assms(2) conns_ok_lookup by blast
  then have "conn_ok (st\<lparr>cn_localClosed := True\<rparr>)" "conn_ok (st\<lparr>cn_socks := s\<rparr>)"
    "conn_ok (st\<lparr>cn_remoteClosed := True, cn_socks := s\<rparr>)" for s
    by (simp_all add: conn_ok_def)
  with assms Some show ?thesis
    by (auto simp: tcpRecvCallback_def intro: conns_ok_update split: option.splits if_splits Option.bind_splits prod.splits)
qed

lemma conns_ok_tun:
  "handle_tun_packet getaddrinfo inet_addr pbuf_alloc allocated data w = Some (p, w') \<Longrightarrow> conns_ok w \<Longrightarrow> conns_ok w'"
  by (auto simp: handle_tun_packet_def writeTunPacket_def conns_ok_def split: option.splits tun_action.splits if_splits)

lemma conns_ok_flush: "conns_ok w \<Longrightarrow> conns_ok (readThread_flush accepts w)"
  by (force simp: readThread_flush_def conns_ok_def intro: conn_ok_flush)

lemma conns_ok_read_packets:
  "read_packets getaddrinfo inet_addr pbuf_alloc packets w = Some w' \<Longrightarrow> conns_ok w \<Longrightarrow> conns_ok w'"
  by (induction getaddrinfo inet_addr pbuf_alloc packets w rule: read_packets.induct)
     (auto split: if_splits option.splits dest: conns_ok_tun)

lemma conns_ok_step: "wintun_step w w' \<Longrightarrow> conns_ok w \<Longrightarrow> conns_ok w'"
proof (induction rule: wintun_step.induct)
  case (start w loaded adapter_ok session_ok polls lwip_ok host port)
  then show ?case by (simp add: conns_ok_def)
next
  case (stop w)
  then show ?case by (simp add: conns_ok_def wintun_stop_def unloadWintunDll_def shutdownLwipStack_def)
next
  case (accept w err newpcb)
  then show ?case
    by (auto simp: tcpAcceptCallback_def createConnection_def intro: conns_ok_update conn_ok_initial split: option.split)
next
  case (sent w pcb accepts)
  then show ?case
    by (auto simp: tcpSentCallback_def split: option.split intro!: conns_ok_update conn_ok_flush dest: conns_ok_lookup)
next
  case (err w)
  then show ?case by (simp add: tcpErrCallback_def conns_ok_def)
next
  case (poll w pcb)
  then show ?case
    using conns_ok_delete [of w pcb] by (auto simp: tcpPollCallback_def conns_ok_def split: option.split)
next
  case (relay w pcb)
  then show ?case
    by (auto simp: socksRelay_turn_def split: option.split intro!: conns_ok_update conn_ok_relay dest: conns_ok_lookup)
next
  case (flush w accept_fun)
  then show ?case by (rule conns_ok_flush)
next
  case (read getaddrinfo inet_addr pbuf_alloc accept_fun packets w w')
  then show ?case
    using conns_ok_read_packets conns_ok_flush by (auto simp: readThread_turn_def split: if_splits)
qed (simp_all add: conns_ok_recv conns_ok_tun)

lemma conns_ok_initial: "conns_ok WintunLwipBridge"
  by (simp add: conns_ok_def WintunLwipBridge_def)

lemma conns_ok_steps: "wintun_step\<^sup>*\<^sup>* w0 w \<Longrightarrow> conns_ok w0 \<Longrightarrow> conns_ok w"
  by (induction rule: rtranclp_induct) (auto simp: conns_ok_step)


definition sample_relaying :: wintun where
  "sample_relaying = WintunLwipBridge\<lparr>wt_running := True,
     wt_conns := [(4, TcpConnState\<lparr>cn_socks := Some sample_browser, cn_connected := True\<rparr>)]\<rparr>"


section \<open>The SOCKS client and the local proxy understand each other\<close>

lemma avail_out [simp]: "avail (s\<lparr>c_out := x\<rparr>) = avail s"
  by (simp add: avail_def)

lemma client_bytes_of_bridge:
  "[0x05, 0x01, 0x00] @ ([0x05, 0x01, 0x00, 0x01] @ be32 ip @ be16 port) = socks5_client_bytes [0] 0 (IPv4 (be32 ip)) port"
  by (simp add: socks5_client_bytes_def)

lemma greet_connect_replies:
  assumes "avail s = [5, 0] @ socks5_ok" "c_send s = []" "\<not> c_closed s"
  obtains s1 s2 where "socks5Greet s = (True, s1)" "socks5Connect ip port s1 = (True, s2)"
    "c_out s2 = c_out s @ socks5_client_bytes [0] 0 (IPv4 (be32 ip)) port"
proof -
  let ?g = "[0x05, 0x01, 0x00] :: bytes" and ?r = "[0x05, 0x01, 0x00, 0x01] @ be32 ip @ be16 port"
  let ?t = "s\<lparr>c_out := c_out s @ ?g\<rparr>"
  have 1: "sendAll ?g s = (True, ?t)" using sendAll_accepting [OF assms(2,3), of ?g] by simp
  have "avail ?t = [5, 0] @ socks5_ok" using assms(1) by simp
  from recvExact_avail [OF this, of 2] obtain s1 where
    2: "recvExact 2 ?t = (Some [5, 0], s1)" "avail s1 = socks5_ok" "same_out ?t s1" by auto
  have out: "c_send s1 = []" "\<not> c_closed s1" using 2(3) assms by (simp_all add: same_out_def)
  let ?u = "s1\<lparr>c_out := c_out s1 @ ?r\<rparr>"
  have 3: "sendAll ?r s1 = (True, ?u)" using sendAll_accepting [OF out, of ?r] by simp
  have "avail ?u = socks5_ok @ []" using 2(2) by simp
  from recvExact_avail [OF this, of 10] obtain s2 where
    4: "recvExact 10 ?u = (Some socks5_ok, s2)" "same_out ?u s2" by (auto simp: socks5_ok_def)
  show thesis
  proof (rule that)
    show "socks5Greet s = (True, s1)" using 1 2 by (simp add: socks5Greet_def)
    show "socks5Connect ip port s1 = (True, s2)" using 3 4 by (simp add: socks5Connect_def socks5_ok_def)
    show "c_out s2 = c_out s @ socks5_client_bytes [0] 0 (IPv4 (be32 ip)) port"
      using 2(3) 4(2) client_bytes_of_bridge [of ip port] by (simp add: same_out_def)
  qed
qed

text \<open>C25. The bridge's SOCKS client and the local proxy agree: given the proxy's two replies the
  client's greeting and CONNECT both succeed, and the bytes the client has then sent make the
  proxy's handshake succeed, with exactly these replies, for the address (as dotted text) and
  port the client asked for.\<close>

theorem socks_client_meets_proxy:
  assumes "avail c = [5, 0] @ socks5_ok" "c_send c = []" "\<not> c_closed c" "c_out c = []"
    and "avail p = c_out (snd (socks5Connect ip port (snd (socks5Greet c)))) @ rest"
    and "c_send p = []" "\<not> c_closed p" "c_out p = []"
  shows "fst (socks5Greet c) \<and> fst (socks5Connect ip port (snd (socks5Greet c)))
       \<and> (\<exists>p'. socks_handshake ntop6 p = (Some (ipToStr ip, port), p') \<and> c_out p' = avail c \<and> avail p' = rest)"
proof -
  obtain s1 s2 where c: "socks5Greet c = (True, s1)" "socks5Connect ip port s1 = (True, s2)"
    "c_out s2 = c_out c @ socks5_client_bytes [0] 0 (IPv4 (be32 ip)) port"
    using greet_connect_replies [OF assms(1-3)] .
  then have "avail p = socks5_client_bytes [0] 0 (IPv4 (be32 ip)) port @ rest" using assms(4,5) by simp
  then obtain p' where "socks_handshake ntop6 p = (Some (ipToStr ip, port), p')" "avail p' = rest"
    "c_out p' = c_out p @ [5, 0] @ socks5_ok"
    using socks5_handshake_completes [of p "[0]" 0 "IPv4 (be32 ip)" port rest ntop6 "ipToStr ip"] assms(6,7)
    by (auto simp: ipToStr_def)
  with c assms show ?thesis by simp
qed

definition sample_end :: "bytes list \<Rightarrow> csock" where
  "sample_end cs = \<lparr>c_in = cs, c_send = [], c_out = [], c_closed = False\<rparr>"

theorem socks_client_meets_proxy_witness:
  "\<exists>p'. socks_handshake (\<lambda>_. None)
          (sample_end [c_out (snd (socks5Connect 0x01020304 443 (snd (socks5Greet (sample_end [[5, 0], socks5_ok])))))])
        = (Some (ipToStr 0x01020304, 443), p')"
proof -
  let ?c = "sample_end [[5, 0], socks5_ok]"
  let ?o = "c_out (snd (socks5Connect 0x01020304 443 (snd (socks5Greet ?c))))"
  have c: "avail ?c = [5, 0] @ socks5_ok" "c_send ?c = []" "\<not> c_closed ?c" "c_out ?c = []"
    by (simp_all add: sample_end_def avail_def socks5_ok_def)
  obtain s1 s2 where "socks5Greet ?c = (True, s1)" "socks5Connect 0x01020304 443 s1 = (True, s2)"
    "c_out s2 = c_out ?c @ socks5_client_bytes [0] 0 (IPv4 (be32 0x01020304)) 443"
    using greet_connect_replies [OF c(1-3)] .
  then have "?o = socks5_client_bytes [0] 0 (IPv4 (be32 0x01020304)) 443" using c(4) by simp
  then have "avail (sample_end [?o]) = ?o @ []"
    by (simp add: sample_end_def avail_def socks5_client_bytes_def)
  from socks_client_meets_proxy [OF c this, of "\<lambda>_. None"] show ?thesis
    by (auto simp: sample_end_def)
qed


section \<open>Starting and stopping\<close>

text \<open>A failed start has released the adapter and the driver, and a stopped bridge holds
  nothing.\<close>

lemma wintun_start_failed:
  assumes "wintun_start loaded adapter_ok session_ok polls lwip_ok host port w = (Inl e, w')"
    and "\<not> wt_running w" "\<not> wt_adapter w"
  shows "\<not> wt_running w' \<and> \<not> wt_adapter w' \<and> \<not> wt_dll w'"
  using assms
  by (auto simp: wintun_start_def poll_adapter_def unloadWintunDll_def initLwipStack_def Let_def
      split: sum.splits if_splits option.splits)

lemma wintun_stop_releases:
  "wt_running w \<Longrightarrow> wt_conns (wintun_stop w) = [] \<and> \<not> wt_session (wintun_stop w) \<and> \<not> wt_adapter (wintun_stop w)
     \<and> \<not> wt_dll (wintun_stop w) \<and> \<not> wt_running (wintun_stop w)"
  by (simp add: wintun_stop_def unloadWintunDll_def shutdownLwipStack_def)

text \<open>The stack is fed safely as long as a packet fits the first segment of its buffer; a packet
  that needs a chain of segments overruns it.\<close>

lemma feed_safe_iff_one_segment:
  assumes "wt_lwip w" "pbuf_alloc (word_of_nat (length data)) = Some (first # rest)"
  shows "feedPacketToLwip pbuf_alloc data w = (if length data \<le> first then Some (Some data) else None)"
  using assms by (simp add: feedPacketToLwip_def)

text \<open>The read thread survives every batch of packets of up to 524 bytes when the buffers of
  lwIP hold that much in their first segment.\<close>

lemma read_packets_safe:
  assumes "\<forall>(allocated, data) \<in> set packets. length data \<le> 524"
    and "\<forall>n segs. pbuf_alloc n = Some segs \<longrightarrow> segs \<noteq> [] \<and> 524 \<le> hd segs"
  shows "read_packets getaddrinfo inet_addr pbuf_alloc packets w \<noteq> None"
  using assms
proof (induction getaddrinfo inet_addr pbuf_alloc packets w rule: read_packets.induct)
  case (2 getaddrinfo inet_addr pbuf_alloc allocated data packets w)
  have len: "length data \<le> 524" using "2.prems"(1) by auto
  obtain a where a: "handlePacket (resolveHost getaddrinfo) inet_addr (wt_tunIp4 w) data = Some a"
    using handlePacket_safe [OF len] by blast
  have "length p \<le> 524" if "a = To_Lwip p" for p
    using handlePacket_to_lwip [OF a [unfolded that]] len by simp
  then have "handle_tun_packet getaddrinfo inet_addr pbuf_alloc allocated data w \<noteq> None"
    using a "2.prems"(2)
    by (auto simp: handle_tun_packet_def feedPacketToLwip_def split: tun_action.split option.split)
       (metis leD order.trans)
  then show ?case using "2.IH" "2.prems" by (auto split: option.split)
qed simp

text \<open>An error on one connection closes all of them.\<close>

lemma tcp_error_closes_all: "wt_conns (tcpErrCallback w) = []"
  by (simp add: tcpErrCallback_def)

text \<open>Data that arrives in a buffer of two segments makes the callback read past the first.\<close>

lemma chained_pbuf_overread:
  assumes "map_of (wt_conns w) pcb = Some st" "cn_socks st = Some s" "cn_connected st"
  shows "tcpRecvCallback pcb (Some [a, b # bs]) w = None"
  using assms by (simp add: tcpRecvCallback_def slice_at_def)

end
