(* ===== verification/Egress_Framing.thy ===== *)
theory Egress_Framing
  imports Frame_Stream
begin

text \<open>
  How the egress node cuts an ADNL payload into frames: \<^verbatim>\<open>tryGetFrameLength\<close> of
  \<^verbatim>\<open>ton-egress-node/src/egress_node.cpp\<close> and the part of
  \<^verbatim>\<open>EgressNode::onAdnlMessage\<close> that finds and decodes the next frame
  (\<open>next_frame\<close>). The main facts: the length scanner agrees with the decoder, so the
  branch ``invalid frame decode'' is dead, and the loop always makes progress.
\<close>

definition tryGetFrameLength :: "bytes \<Rightarrow> nat \<Rightarrow> nat option option" where
  "tryGetFrameLength input offset =
     (if offset + 5 > length input then Some None
      else do {
        type \<leftarrow> byte_at input offset;
        let cursor = offset + 5;
        if type = type_byte MT_Open then
          if cursor + 2 > length input then Some None
          else do {
            hostLen \<leftarrow> readU16 input cursor;
            let cursor = cursor + 2;
            if cursor + unat hostLen + 2 + 2 > length input then Some None
            else do {
              let cursor = cursor + unat hostLen + 2;
              tokenLen \<leftarrow> readU16 input cursor;
              let cursor = cursor + 2;
              if cursor + unat tokenLen > length input then Some None
              else Some (Some (cursor + unat tokenLen - offset))
            }
          }
        else if type = type_byte MT_Data then
          if cursor + 4 > length input then Some None
          else do {
            payloadLen \<leftarrow> readU32 input cursor;
            let cursor = cursor + 4;
            if cursor + unat payloadLen > length input then Some None
            else Some (Some (cursor + unat payloadLen - offset))
          }
        else if type = type_byte MT_Close then Some (Some 5)
        else if type = type_byte MT_Error then
          if cursor + 2 > length input then Some None
          else do {
            msgLen \<leftarrow> readU16 input cursor;
            let cursor = cursor + 2;
            if cursor + unat msgLen > length input then Some None
            else Some (Some (cursor + unat msgLen - offset))
          }
        else Some None
      })"

text \<open>One turn of the receive loop, up to the dispatch: \<open>Some None\<close> is the error return.\<close>

definition next_frame :: "bytes \<Rightarrow> nat \<Rightarrow> (DecodedMessage \<times> nat) option option" where
  "next_frame payload offset = do {
     r \<leftarrow> tryGetFrameLength payload offset;
     (case r of
        None \<Rightarrow> Some None
      | Some frameLen \<Rightarrow>
          if frameLen = 0 then Some None
          else do {
            frame \<leftarrow> slice_at payload offset frameLen;
            msg \<leftarrow> decodeMessage frame;
            Some (map_option (\<lambda>m. (m, offset + frameLen)) msg)
          })
   }"


section \<open>The scanner finds exactly the frame boundaries\<close>

lemma reads_append_prefix:
  "byte_at (pre @ ys) (length pre + k) = byte_at ys k"
  "readU16 (pre @ ys) (length pre + k) = readU16 ys k"
  "readU32 (pre @ ys) (length pre + k) = readU32 ys k"
  by (simp_all add: readU16_def readU32_def byte_at_def nth_append add.assoc)

lemma readU16_append_prefix: "readU16 (pre @ ys) (m + (length pre + k)) = readU16 ys (m + k)"
  using reads_append_prefix(2) [of pre ys "m + k"] by (simp add: add.left_commute)

lemma tryGetFrameLength_safe: "tryGetFrameLength xs off \<noteq> None"
  by (auto simp: tryGetFrameLength_def Let_def safe_reads not_less split: Option.bind_splits)

lemma tryGetFrameLength_prefix:
  "tryGetFrameLength (pre @ ys) (length pre) = tryGetFrameLength ys 0"
  using reads_append_prefix(1) [of pre ys 0]
  by (simp add: tryGetFrameLength_def Let_def reads_append_prefix readU16_append_prefix add.assoc cong: if_cong)

lemma length_found_decodes:
  assumes "tryGetFrameLength ys 0 = Some (Some n)"
  shows "\<exists>m. decodeMessage ys = Some (Some m)"
proof -
  have "decodeMessage ys \<noteq> Some None"
  proof
    assume "decodeMessage ys = Some None"
    then have "tryGetFrameLength ys 0 = Some None"
      by (auto simp: decodeMessage_def tryGetFrameLength_def message_type_def Let_def safe_reads
          split: if_splits Option.bind_splits)
    with assms show False by simp
  qed
  with decode_defined [of ys] show ?thesis by auto
qed

lemma length_of_wire:
  assumes "frame_ok f"
  shows "tryGetFrameLength (wire f @ rest) 0 = Some (Some (length (wire f)))"
proof (cases f)
  case (Open_Frame i host port token)
  let ?hl = "word_of_nat (length host) :: u16" and ?tl = "word_of_nat (length token) :: u16"
  let ?in = "wire f @ rest"
  have "readU16 ?in 5 = Some ?hl"
    using readU16_at [of "1 # be32 i" 5 ?hl] Open_Frame by simp
  moreover have "readU16 ?in (7 + length host + 2) = Some ?tl"
    using readU16_at [of "1 # be32 i @ be16 ?hl @ bytes_of_str host @ be16 port" "7 + length host + 2" ?tl]
      Open_Frame by simp
  ultimately show ?thesis
    using assms Open_Frame by (simp add: tryGetFrameLength_def)
next
  case (Data_Frame i p)
  then have "readU32 (wire f @ rest) 5 = Some (word_of_nat (length p))"
    using readU32_at [of "2 # be32 i" 5 "word_of_nat (length p)"] by simp
  then show ?thesis
    using assms Data_Frame by (simp add: tryGetFrameLength_def)
next
  case (Close_Frame i)
  then show ?thesis by (simp add: tryGetFrameLength_def)
next
  case (Error_Frame i m)
  then have "readU16 (wire f @ rest) 5 = Some (word_of_nat (length m))"
    using readU16_at [of "4 # be32 i" 5 "word_of_nat (length m)"] by simp
  then show ?thesis
    using assms Error_Frame by (simp add: tryGetFrameLength_def)
qed

lemma length_found_wire:
  assumes "tryGetFrameLength ys 0 = Some (Some n)"
  shows "\<exists>f rest. frame_ok f \<and> ys = wire f @ rest \<and> n = length (wire f)"
proof -
  from length_found_decodes [OF assms] obtain f rest where
    f: "frame_ok f" "ys = wire f @ rest" using decode_sound by blast
  with length_of_wire [of f rest] assms show ?thesis by auto
qed

lemma scanner_agrees:
  assumes "tryGetFrameLength payload offset = Some (Some n)"
  shows "0 < n \<and> offset + n \<le> length payload \<and>
    (\<exists>f. frame_ok f \<and> take n (drop offset payload) = wire f \<and>
         decodeMessage (take n (drop offset payload)) = Some (Some (decoded_of f)))"
proof -
  have off: "offset \<le> length payload"
    using assms by (auto simp: tryGetFrameLength_def split: if_splits)
  then have "tryGetFrameLength (drop offset payload) 0 = Some (Some n)"
    using assms tryGetFrameLength_prefix [of "take offset payload" "drop offset payload"]
    by (simp add: min_absorb2)
  then obtain f rest where f: "frame_ok f" "drop offset payload = wire f @ rest" "n = length (wire f)"
    using length_found_wire by blast
  from f(2) have "length payload - offset = length (wire f) + length rest"
    by (metis length_append length_drop)
  with f(3) off have "offset + n \<le> length payload" by linarith
  with f show ?thesis
    by (auto simp: decode_wire_exact)
qed

text \<open>C31. The scanner and the decoder agree: when \<open>tryGetFrameLength\<close> reports a length at
  some offset, the length is positive and stays inside the payload, and \<open>decodeMessage\<close>
  accepts exactly those bytes. So the loop of \<open>onAdnlMessage\<close> advances on every turn, and
  its ``invalid frame decode'' exit cannot be taken.\<close>

theorem frame_length_agrees_with_decoder:
  assumes "tryGetFrameLength payload offset = Some (Some n)"
  shows "0 < n \<and> offset + n \<le> length payload \<and>
    (\<exists>f. frame_ok f \<and> take n (drop offset payload) = wire f \<and>
         decodeMessage (take n (drop offset payload)) = Some (Some (decoded_of f)))"
  using assms by (rule scanner_agrees)

theorem frame_length_agrees_with_decoder_witness:
  "0 < (5 :: nat) \<and> decodeMessage (take 5 (drop 1 (9 # wire (Close_Frame 3)))) \<noteq> Some None"
  using frame_length_agrees_with_decoder [of "9 # wire (Close_Frame 3)" 1 5]
  by (auto simp: tryGetFrameLength_def be32_def)

lemma next_frame_safe: "next_frame payload offset \<noteq> None"
  using scanner_agrees [of payload offset] tryGetFrameLength_safe [of payload offset]
  by (auto simp: next_frame_def decode_defined slice_at_None split: Option.bind_splits option.splits)

lemma next_frame_progress:
  "next_frame payload offset = Some (Some (m, offset')) \<Longrightarrow> offset < offset' \<and> offset' \<le> length payload"
  using scanner_agrees [of payload offset]
  by (auto simp: next_frame_def split: Option.bind_splits option.splits if_splits)

interpretation server_frames: frame_stream next_frame decoded_of
proof unfold_locales
  fix f pre post assume ok: "frame_ok f"
  have "tryGetFrameLength (pre @ wire f @ post) (length pre) = Some (Some (length (wire f)))"
    by (simp add: tryGetFrameLength_prefix length_of_wire [OF ok])
  then show "next_frame (pre @ wire f @ post) (length pre)
      = Some (Some (decoded_of f, length pre + length (wire f)))"
    by (simp add: next_frame_def decode_wire_exact [OF ok])
qed

text \<open>What the loop can find at an offset: a well-formed frame, or nothing.\<close>

lemma next_frame_cases:
  assumes "next_frame payload offset = Some (Some (m, offset'))"
  obtains f where "frame_ok f" "m = decoded_of f" "take (offset' - offset) (drop offset payload) = wire f"
    "offset' = offset + length (wire f)"
proof -
  from assms obtain n where n: "tryGetFrameLength payload offset = Some (Some n)" "offset' = offset + n"
    and m: "decodeMessage (take n (drop offset payload)) = Some (Some m)"
    by (auto simp: next_frame_def slice_at_def split: Option.bind_splits option.splits if_splits)
  from scanner_agrees [OF n(1)] obtain f where
    f: "frame_ok f" "take n (drop offset payload) = wire f" "offset + n \<le> length payload"
    and d: "decodeMessage (take n (drop offset payload)) = Some (Some (decoded_of f))" by blast
  from f(2,3) have "length (wire f) = n" by (simp flip: f(2))
  with f d m n that show thesis by auto
qed

end
