(* ===== verification/Client_Transport.thy ===== *)
theory Client_Transport
  imports Protocol
begin

text \<open>
  The interface \<^verbatim>\<open>ITonTransport\<close> of \<^verbatim>\<open>ton-egress-node/include/ton_transport.hpp\<close>, as
  far as the node uses it to reach a client. A transport is a state \<open>'t\<close> with a send
  operation; \<open>delivered\<close> lists the (client, frame) pairs handed to the network so far, and
  \<open>valid\<close> are the client ids the transport can carry. The contract: a successful
  \<^verbatim>\<open>sendToClient\<close> hands over exactly its frame, a failed one nothing. The stub, the
  in-process ADNL runtime and its \<^verbatim>\<open>dlopen\<close> wrapper interpret it.
\<close>

type_synonym 't sender = "string \<Rightarrow> bytes \<Rightarrow> 't \<Rightarrow> bool \<times> 't"

locale client_transport =
  fixes send :: "'t sender"
    and delivered :: "'t \<Rightarrow> (string \<times> bytes) list"
    and valid :: "string \<Rightarrow> bool"
  assumes send_ok: "valid c \<Longrightarrow> send c b t = (True, t') \<Longrightarrow> delivered t' = delivered t @ [(c, b)]"
    and send_failed: "valid c \<Longrightarrow> send c b t = (False, t') \<Longrightarrow> delivered t' = delivered t"
begin

lemma delivered_send:
  "valid c \<Longrightarrow> delivered (snd (send c b t)) = delivered t @ (if fst (send c b t) then [(c, b)] else [])"
  by (cases "send c b t"; cases "fst (send c b t)") (auto simp: send_ok send_failed)

end

end
