(* ===== verification/Egress_Node.thy ===== *)
theory Egress_Node
  imports Egress_Policy Egress_Framing Client_Transport
begin

text \<open>
  The egress node: \<^verbatim>\<open>class EgressNode\<close> of \<^verbatim>\<open>ton-egress-node/include/egress_node.hpp\<close>
  and \<^verbatim>\<open>ton-egress-node/src/egress_node.cpp\<close>. The node is a record; the shared
  \<^verbatim>\<open>Stream\<close> objects live in a heap (a list, \<^verbatim>\<open>StreamPtr\<close> is an index), because the
  map \<^verbatim>\<open>streams_\<close>, the receive thread's closure and the handlers share them. Handlers
  are functions on the node; each runs atomically, which is the granularity at which they
  take \<^verbatim>\<open>mu_\<close> except for the windows named in the header of the development.
\<close>

section \<open>State\<close>

text \<open>The states of a \<^verbatim>\<open>std::thread\<close> member.\<close>

datatype thread_obj = No_Thread | Joinable | Joined | Detached

text \<open>\<open>rx_running\<close>: the operating-system thread that executes the receive closure (and whose
  captured \<^verbatim>\<open>StreamPtr\<close> keeps the object alive) has not finished.\<close>

record Stream =
  st_client_id :: string
  st_stream_id :: u32
  st_fd :: int
  st_closed :: bool
  st_last_activity_ms :: int
  st_rx_thread :: thread_obj
  rx_running :: bool

record counters =
  open_ok :: int
  open_fail :: int
  tx_bytes :: int
  rx_bytes :: int
  active_streams :: int
  close_remote_closed :: int
  close_idle_timeout :: int
  close_client_close :: int
  close_tcp_write_failed :: int
  close_push_failed :: int
  close_rx_exception :: int
  close_rx_unknown_exception :: int

record 't node =
  config :: Config
  transport :: 't
  running :: bool
  idle_thread :: thread_obj
  streams :: "(string \<times> nat) list"
  streams_per_client :: "(string \<times> u32) list"
  recently_closed :: "(string \<times> int) list"
  heap :: "Stream list"
  cnt :: counters
  last_counters_ms :: int
  printed :: "counters list"
  ops :: "sock_op list"
  terminated :: bool

text \<open>
  What the outside world answers during one handler: the clock, the resolver (\<open>None\<close> is an
  error or an empty result), \<^verbatim>\<open>inet_ntop\<close> and \<^verbatim>\<open>inet_pton\<close>, the socket calls of the
  \<open>k\<close>-th connect attempt, what \<^verbatim>\<open>std::thread\<close>'s constructor throws if it throws, the
  return value of \<^verbatim>\<open>::send\<close>, and whether a receive thread that is being joined sits in
  \<^verbatim>\<open>::recv\<close> (else it is about to test \<^verbatim>\<open>closed\<close>).
\<close>

record io =
  io_now :: int
  io_getaddrinfo :: "string \<Rightarrow> u32 list option"
  io_ntop :: "u32 \<Rightarrow> string option"
  io_pton :: "string \<Rightarrow> u32 option"
  io_tcp :: "nat \<Rightarrow> tcp_sys"
  io_thread_error :: "string option"
  io_send :: "int \<Rightarrow> bytes \<Rightarrow> int"
  io_rx_in_recv :: bool

definition kRecentlyClosedGraceMs :: int where "kRecentlyClosedGraceMs = 2000"
definition kMaxDataChunkBytes :: nat where "kMaxDataChunkBytes = 1200"

definition zero_counters :: counters where
  "zero_counters = \<lparr>open_ok = 0, open_fail = 0, tx_bytes = 0, rx_bytes = 0, active_streams = 0,
     close_remote_closed = 0, close_idle_timeout = 0, close_client_close = 0, close_tcp_write_failed = 0,
     close_push_failed = 0, close_rx_exception = 0, close_rx_unknown_exception = 0\<rparr>"

definition EgressNode :: "Config \<Rightarrow> 't \<Rightarrow> 't node" where
  "EgressNode cfg t = \<lparr>config = cfg, transport = t, running = False, idle_thread = No_Thread, streams = [],
     streams_per_client = [], recently_closed = [], heap = [], cnt = zero_counters, last_counters_ms = 0,
     printed = [], ops = [], terminated = False\<rparr>"


section \<open>Counters\<close>

definition maybeLogCounters :: "int \<Rightarrow> 't node \<Rightarrow> 't node" where
  "maybeLogCounters now n =
     (let n = (if last_counters_ms n = 0 then n\<lparr>last_counters_ms := now\<rparr> else n) in
      if now - last_counters_ms n < 5000 then n
      else n\<lparr>printed := printed n @ [cnt n],
             cnt := zero_counters\<lparr>active_streams := active_streams (cnt n)\<rparr>,
             last_counters_ms := now\<rparr>)"

definition count_close :: "string \<Rightarrow> counters \<Rightarrow> counters" where
  "count_close reason c =
     (if reason = ''remote closed'' then c\<lparr>close_remote_closed := close_remote_closed c + 1\<rparr>
      else if reason = ''idle timeout'' then c\<lparr>close_idle_timeout := close_idle_timeout c + 1\<rparr>
      else if reason = ''client close'' then c\<lparr>close_client_close := close_client_close c + 1\<rparr>
      else if reason = ''tcp write failed'' then c\<lparr>close_tcp_write_failed := close_tcp_write_failed c + 1\<rparr>
      else if reason = ''push failed'' then c\<lparr>close_push_failed := close_push_failed c + 1\<rparr>
      else if reason = ''rx exception'' then c\<lparr>close_rx_exception := close_rx_exception c + 1\<rparr>
      else if reason = ''rx unknown exception'' then
        c\<lparr>close_rx_unknown_exception := close_rx_unknown_exception c + 1\<rparr>
      else c)"

definition add_tx :: "nat \<Rightarrow> 't node \<Rightarrow> 't node" where
  "add_tx k n = n\<lparr>cnt := (cnt n)\<lparr>tx_bytes := tx_bytes (cnt n) + int k\<rparr>\<rparr>"


section \<open>Replies\<close>

definition sendToClient :: "'t sender \<Rightarrow> string \<Rightarrow> bytes \<Rightarrow> 't node \<Rightarrow> bool \<times> 't node" where
  "sendToClient send client_id frame n =
     (case send client_id frame (transport n) of (ok, t) \<Rightarrow> (ok, n\<lparr>transport := t\<rparr>))"

definition reply_error :: "'t sender \<Rightarrow> string \<Rightarrow> u32 \<Rightarrow> string \<Rightarrow> 't node \<Rightarrow> 't node" where
  "reply_error send client_id stream_id msg n =
     snd (sendToClient send client_id (encodeError \<lparr>em_stream_id = stream_id, em_message = msg\<rparr>) n)"


section \<open>Closing a stream\<close>

definition set_stream :: "nat \<Rightarrow> Stream \<Rightarrow> 't node \<Rightarrow> 't node" where
  "set_stream a s n = n\<lparr>heap := (heap n)[a := s]\<rparr>"

text \<open>The early return of \<open>closeStream\<close>: no such stream.\<close>

definition close_missing :: "io \<Rightarrow> string \<Rightarrow> u32 \<Rightarrow> 't node \<Rightarrow> 't node" where
  "close_missing io client_id stream_id n =
     n\<lparr>recently_closed := AList.update (keyFor client_id stream_id) (io_now io) (recently_closed n)\<rparr>"

text \<open>
  \<^verbatim>\<open>rx_thread.join()\<close>: wait for the receive closure to end. Its socket is already shut
  down, so it leaves its loop at the test of \<^verbatim>\<open>closed\<close>, or \<^verbatim>\<open>::recv\<close> fails and it
  first calls \<open>closeStream\<close>, which no longer finds the stream.
\<close>

definition join_rx :: "io \<Rightarrow> nat \<Rightarrow> 't node \<Rightarrow> 't node" where
  "join_rx io a n =
     (let s = heap n ! a;
          n = (if rx_running s \<and> io_rx_in_recv io then
                 close_missing io (st_client_id s) (st_stream_id s)
                   (n\<lparr>cnt := count_close ''remote closed'' (cnt n)\<rparr>)
               else n)
      in set_stream a (s\<lparr>st_rx_thread := Joined, rx_running := False\<rparr>) n)"

definition close_fd :: "nat \<Rightarrow> 't node \<Rightarrow> 't node" where
  "close_fd a n =
     (let s = heap n ! a in
      if st_fd s \<ge> 0 then
        set_stream a (s\<lparr>st_fd := -1\<rparr>) (n\<lparr>ops := ops n @ [Shutdown_Fd (st_fd s), Close_Fd (st_fd s)]\<rparr>)
      else n)"

text \<open>\<open>caller\<close> is \<open>Some a\<close> when the calling thread is the receive thread of the object
  \<open>a\<close>.\<close>

definition closeStream ::
  "'t sender \<Rightarrow> io \<Rightarrow> nat option \<Rightarrow> string \<Rightarrow> u32 \<Rightarrow> string \<Rightarrow> 't node \<Rightarrow> bool \<times> 't node" where
  "closeStream send io caller client_id stream_id reason n =
     (let n = n\<lparr>cnt := count_close reason (cnt n)\<rparr>;
          key = keyFor client_id stream_id in
      case map_of (streams n) key of
        None \<Rightarrow> (False, close_missing io client_id stream_id n)
      | Some a \<Rightarrow>
          let n = n\<lparr>streams := AList.delete key (streams n),
                    recently_closed := AList.update key (io_now io) (recently_closed n),
                    streams_per_client :=
                      (case map_of (streams_per_client n) client_id of
                         Some k \<Rightarrow> if k > 0 then AList.update client_id (k - 1) (streams_per_client n)
                                   else streams_per_client n
                       | None \<Rightarrow> streams_per_client n)\<rparr>;
              n = (if st_closed (heap n ! a) then n
                   else snd (sendToClient send client_id (encodeClose \<lparr>cm_stream_id = stream_id\<rparr>)
                          (close_fd a (set_stream a ((heap n ! a)\<lparr>st_closed := True\<rparr>) n))));
              n = (if st_rx_thread (heap n ! a) = Joinable then
                     if caller \<noteq> Some a then join_rx io a n
                     else set_stream a ((heap n ! a)\<lparr>st_rx_thread := Detached\<rparr>) n
                   else n)
          in (True, n))"


section \<open>OPEN\<close>

text \<open>\<^verbatim>\<open>streams_per_client_[client_id]\<close> inserts a zero when the key is absent.\<close>

definition client_count :: "string \<Rightarrow> 't node \<Rightarrow> u32 \<times> 't node" where
  "client_count client_id n =
     (case map_of (streams_per_client n) client_id of
        Some k \<Rightarrow> (k, n)
      | None \<Rightarrow> (0, n\<lparr>streams_per_client := AList.update client_id 0 (streams_per_client n)\<rparr>))"

text \<open>The loop over the resolved addresses: the descriptor, \<^verbatim>\<open>blocked_only\<close> and the
  socket operations.\<close>

primrec connect_loop ::
  "io \<Rightarrow> bool \<Rightarrow> u16 \<Rightarrow> u32 list \<Rightarrow> nat \<Rightarrow> bool \<Rightarrow> (int \<times> bool \<times> sock_op list) option" where
  "connect_loop io block_private port [] k blocked_only = Some (-1, blocked_only, [])"
| "connect_loop io block_private port (p # ps) k blocked_only =
     (case io_ntop io p of
        None \<Rightarrow> connect_loop io block_private port ps k blocked_only
      | Some ip \<Rightarrow>
          if block_private \<and> isAddressBlocked (io_pton io) ip then
            connect_loop io block_private port ps k blocked_only
          else do {
            (fd, ops) \<leftarrow> connectIPv4WithTimeout (io_tcp io k) (io_pton io) ip port;
            if fd \<ge> 0 then Some (fd, False, ops)
            else do {
              (fd', blocked', ops') \<leftarrow> connect_loop io block_private port ps (k + 1) False;
              Some (fd', blocked', ops @ ops')
            }
          })"

definition register_stream :: "io \<Rightarrow> string \<Rightarrow> u32 \<Rightarrow> int \<Rightarrow> 't node \<Rightarrow> 't node" where
  "register_stream io client_id stream_id fd n =
     (let a = length (heap n);
          stream = \<lparr>st_client_id = client_id, st_stream_id = stream_id, st_fd = fd, st_closed = False,
                    st_last_activity_ms = io_now io, st_rx_thread = No_Thread, rx_running = False\<rparr>;
          n = n\<lparr>heap := heap n @ [stream], streams := AList.update (keyFor client_id stream_id) a (streams n)\<rparr>;
          (k, n) = client_count client_id n;
          n = n\<lparr>streams_per_client := AList.update client_id (k + 1) (streams_per_client n)\<rparr>
      in n\<lparr>cnt := (cnt n)\<lparr>active_streams := int (length (streams n))\<rparr>\<rparr>)"

definition start_rx :: "nat \<Rightarrow> 't node \<Rightarrow> 't node" where
  "start_rx a n = set_stream a ((heap n ! a)\<lparr>st_rx_thread := Joinable, rx_running := True\<rparr>) n"

definition open_failed :: "'t node \<Rightarrow> 't node" where
  "open_failed n = n\<lparr>cnt := (cnt n)\<lparr>open_fail := open_fail (cnt n) + 1\<rparr>\<rparr>"

definition handleOpen ::
  "'t sender \<Rightarrow> io \<Rightarrow> string \<Rightarrow> u32 \<Rightarrow> string \<Rightarrow> u16 \<Rightarrow> string \<Rightarrow> 't node \<Rightarrow> 't node option" where
  "handleOpen send io client_id stream_id host port token n =
     (let cfg = config n;
          refuse = (\<lambda>msg n. reply_error send client_id stream_id msg n) in
      if \<not> eg_enabled (egress cfg) then Some (refuse ''egress disabled'' n)
      else if host = [] \<or> length host > 255 then Some (refuse ''invalid host'' n)
      else if \<not> isPortAllowed cfg port then Some (refuse ''port is not allowed'' n)
      else if isHostBlocked host then Some (refuse ''host is blocked'' n)
      else if auth_required cfg \<and> \<not> isClientAllowed cfg client_id token then
        Some (open_failed (refuse ''unauthorized'' n))
      else
        case client_count client_id n of (count, n) \<Rightarrow>
        if count \<ge> max_streams cfg then Some (refuse ''max streams reached'' n)
        else
          case io_getaddrinfo io (c_str host) of
            None \<Rightarrow> Some (refuse ''DNS resolve failed'' n)
          | Some result \<Rightarrow> do {
              (fd, blocked_only, done) \<leftarrow>
                connect_loop io (block_private_ips (egress cfg)) port result 0 True;
              let n = n\<lparr>ops := ops n @ done\<rparr>;
              if fd < 0 then
                if blocked_only then Some (refuse ''destination blocked'' n)
                else Some (open_failed (refuse ''tcp connect failed'' n))
              else do {
                let a = length (heap n);
                let n = n\<lparr>cnt := (cnt n)\<lparr>open_ok := open_ok (cnt n) + 1\<rparr>\<rparr>;
                let n = register_stream io client_id stream_id fd n;
                let open_ack = encodeOpen \<lparr>cm_stream_id = stream_id\<rparr>;
                let n = add_tx (length open_ack) (snd (sendToClient send client_id open_ack n));
                (case io_thread_error io of
                   None \<Rightarrow> Some (start_rx a n)
                 | Some what \<Rightarrow> Some (refuse (''internal: '' @ what) n))
              }
            })"

section \<open>DATA and CLOSE\<close>

definition handleData ::
  "'t sender \<Rightarrow> io \<Rightarrow> string \<Rightarrow> u32 \<Rightarrow> bytes \<Rightarrow> 't node \<Rightarrow> 't node" where
  "handleData send io client_id stream_id payload n =
     (if length payload > unat (max_payload_bytes (egress (config n))) then
        reply_error send client_id stream_id ''payload exceeds max_payload_bytes'' n
      else
        let key = keyFor client_id stream_id in
        case map_of (streams n) key of
          None \<Rightarrow>
            (case map_of (recently_closed n) key of
               Some t \<Rightarrow> if io_now io - t \<le> kRecentlyClosedGraceMs then n
                         else reply_error send client_id stream_id ''stream not found'' n
             | None \<Rightarrow> reply_error send client_id stream_id ''stream not found'' n)
        | Some a \<Rightarrow>
            let s = heap n ! a in
            if st_fd s < 0 \<or> st_closed s then reply_error send client_id stream_id ''stream closed'' n
            else if payload = [] then n
            else
              let sent = io_send io (st_fd s) payload in
              if sent \<le> 0 then snd (closeStream send io None client_id stream_id ''tcp write failed'' n)
              else set_stream a (s\<lparr>st_last_activity_ms := io_now io\<rparr>)
                     (n\<lparr>ops := ops n @ [Send_To (st_fd s) (take (nat sent) payload)]\<rparr>))"

definition handleClose :: "'t sender \<Rightarrow> io \<Rightarrow> string \<Rightarrow> u32 \<Rightarrow> 't node \<Rightarrow> 't node" where
  "handleClose send io client_id stream_id n =
     (case closeStream send io None client_id stream_id ''client close'' n of (had_stream, n) \<Rightarrow>
      if \<not> had_stream then
        snd (sendToClient send client_id (encodeClose \<lparr>cm_stream_id = stream_id\<rparr>) n)
      else n)"


section \<open>The receive thread of a stream\<close>

text \<open>What one \<^verbatim>\<open>::recv\<close> yields: bytes, end or error, or an exception thrown while the
  bytes are forwarded.\<close>

datatype rx_result = Rx_Data bytes | Rx_End | Rx_Exception | Rx_Unknown_Exception

function push_data :: "'t sender \<Rightarrow> string \<Rightarrow> u32 \<Rightarrow> bytes \<Rightarrow> 't node \<Rightarrow> bool \<times> 't node" where
  "push_data send client_id stream_id buf n =
     (if buf = [] then (True, n)
      else
        let out = encodeData \<lparr>dm_stream_id = stream_id, dm_payload = take kMaxDataChunkBytes buf\<rparr> in
        case sendToClient send client_id out n of (ok, n) \<Rightarrow>
        let n = add_tx (length out) n in
        if \<not> ok then (False, n)
        else push_data send client_id stream_id (drop kMaxDataChunkBytes buf) n)"
  by pat_completeness auto
termination
  by (relation "measure (\<lambda>(_, _, _, buf, _). length buf)") (auto simp: kMaxDataChunkBytes_def)

declare push_data.simps [simp del]

text \<open>
  The closure returns and drops its \<^verbatim>\<open>StreamPtr\<close>. If the map no longer refers to the
  object it is destroyed, and \<^verbatim>\<open>~std::thread\<close> on a joinable thread is
  \<^verbatim>\<open>std::terminate\<close>.
\<close>

definition rx_exit :: "nat \<Rightarrow> 't node \<Rightarrow> 't node" where
  "rx_exit a n =
     (let n = set_stream a ((heap n ! a)\<lparr>rx_running := False\<rparr>) n in
      if a \<notin> snd ` set (streams n) \<and> st_rx_thread (heap n ! a) = Joinable then n\<lparr>terminated := True\<rparr> else n)"

definition rx_iteration :: "'t sender \<Rightarrow> io \<Rightarrow> nat \<Rightarrow> rx_result \<Rightarrow> 't node \<Rightarrow> 't node" where
  "rx_iteration send io a r n =
     (let s = heap n ! a;
          quit = (\<lambda>reason n. rx_exit a
                    (snd (closeStream send io (Some a) (st_client_id s) (st_stream_id s) reason n))) in
      if st_closed s then rx_exit a n
      else case r of
        Rx_End \<Rightarrow> quit ''remote closed'' n
      | Rx_Data buf \<Rightarrow>
          let n = set_stream a (s\<lparr>st_last_activity_ms := io_now io\<rparr>) n in
          (case push_data send (st_client_id s) (st_stream_id s) buf n of (ok, n) \<Rightarrow>
             if \<not> ok then quit ''push failed'' n else n)
      | Rx_Exception \<Rightarrow> quit ''rx exception'' n
      | Rx_Unknown_Exception \<Rightarrow> quit ''rx unknown exception'' n)"


section \<open>The idle monitor\<close>

definition stale_streams :: "int \<Rightarrow> 't node \<Rightarrow> (string \<times> u32) list" where
  "stale_streams now n =
     map (\<lambda>(k, a). (st_client_id (heap n ! a), st_stream_id (heap n ! a)))
       (filter (\<lambda>(k, a). now - st_last_activity_ms (heap n ! a) > int (unat (idle_timeout_sec (config n))) * 1000)
          (streams n))"

definition idle_sweep :: "'t sender \<Rightarrow> io \<Rightarrow> 't node \<Rightarrow> 't node" where
  "idle_sweep send io n =
     (let now = io_now io;
          stale = stale_streams now n;
          n = n\<lparr>recently_closed :=
                  filter (\<lambda>(k, t). \<not> now - t > kRecentlyClosedGraceMs) (recently_closed n)\<rparr>
      in foldl (\<lambda>n (client, streamId). snd (closeStream send io None client streamId ''idle timeout'' n)) n stale)"


section \<open>Start and stop\<close>

text \<open>The transport's own operations are arguments.\<close>

definition node_start :: "('t \<Rightarrow> 't) \<Rightarrow> ('t \<Rightarrow> bool \<times> 't) \<Rightarrow> 't node \<Rightarrow> bool \<times> 't node" where
  "node_start transport_setOnMessage transport_start n =
     (case transport_start (transport_setOnMessage (transport n)) of (ok, t) \<Rightarrow>
      let n = n\<lparr>transport := t\<rparr> in
      if \<not> ok then (False, n)
      else (True, n\<lparr>running := True, idle_thread := Joinable\<rparr>))"

definition stop_stream :: "io \<Rightarrow> 't node \<Rightarrow> nat \<Rightarrow> 't node" where
  "stop_stream io n a =
     (let n = close_fd a (set_stream a ((heap n ! a)\<lparr>st_closed := True\<rparr>) n) in
      if st_rx_thread (heap n ! a) = Joinable then join_rx io a n else n)"

definition node_stop :: "('t \<Rightarrow> 't) \<Rightarrow> io \<Rightarrow> 't node \<Rightarrow> 't node" where
  "node_stop transport_stop io n =
     (if \<not> running n then n
      else
        let n = n\<lparr>running := False, transport := transport_stop (transport n)\<rparr>;
            n = (if idle_thread n = Joinable then n\<lparr>idle_thread := Joined\<rparr> else n);
            streams_snapshot = map snd (streams n);
            n = n\<lparr>streams := [], streams_per_client := []\<rparr>
        in foldl (stop_stream io) n streams_snapshot)"


section \<open>Incoming messages\<close>

definition dispatch :: "'t sender \<Rightarrow> io \<Rightarrow> string \<Rightarrow> DecodedMessage \<Rightarrow> 't node \<Rightarrow> 't node option" where
  "dispatch send io client_id msg n =
     (if msg_type msg = MT_Open \<and> msg_open msg \<noteq> None then
        let m = the (msg_open msg) in
        handleOpen send io client_id (om_stream_id m) (om_host m) (om_port m) (om_token m) n
      else if msg_type msg = MT_Data \<and> msg_data msg \<noteq> None then
        let m = the (msg_data msg) in
        Some (handleData send io client_id (dm_stream_id m) (dm_payload m) n)
      else if msg_type msg = MT_Close \<and> msg_close msg \<noteq> None then
        let m = the (msg_close msg) in Some (handleClose send io client_id (cm_stream_id m) n)
      else Some n)"

text \<open>\<open>ios off\<close> is what the world answers while the frame at offset \<open>off\<close> is handled. The
  flag tells whether the loop reached the end of the payload.\<close>

function receive_loop ::
  "'t sender \<Rightarrow> (nat \<Rightarrow> io) \<Rightarrow> string \<Rightarrow> bytes \<Rightarrow> nat \<Rightarrow> 't node \<Rightarrow> (bool \<times> 't node) option" where
  "receive_loop send ios client_id payload offset n =
     (if offset < length payload then
        (case next_frame payload offset of
           None \<Rightarrow> None
         | Some None \<Rightarrow> Some (False, n)
         | Some (Some (msg, offset')) \<Rightarrow>
             (case dispatch send (ios offset) client_id msg n of
                None \<Rightarrow> None
              | Some n' \<Rightarrow> receive_loop send ios client_id payload offset' n'))
      else Some (True, n))"
  by pat_completeness auto
termination
  by (relation "measure (\<lambda>(_, _, _, payload, offset, _). length payload - offset)")
     (auto dest!: next_frame_progress)

declare receive_loop.simps [simp del]

definition onAdnlMessage ::
  "'t sender \<Rightarrow> (nat \<Rightarrow> io) \<Rightarrow> string \<Rightarrow> bytes \<Rightarrow> 't node \<Rightarrow> 't node option" where
  "onAdnlMessage send ios client_id payload n =
     (let n = n\<lparr>cnt := (cnt n)\<lparr>rx_bytes := rx_bytes (cnt n) + int (length payload)\<rparr>\<rparr> in
      case receive_loop send ios client_id payload 0 n of
        None \<Rightarrow> None
      | Some (False, n) \<Rightarrow> Some n
      | Some (True, n) \<Rightarrow> Some (maybeLogCounters (io_now (ios (length payload))) n))"

end
