(* ===== verification/Egress_Invariant.thy ===== *)
theory Egress_Invariant
  imports Egress_Node
begin

text \<open>
  The invariants of the egress node. \<open>node_wf\<close> is the representation invariant of the
  stream table and of the per-client counters; \<open>tidy\<close> adds that every running receive
  thread belongs to a registered stream, which is what keeps \<^verbatim>\<open>std::terminate\<close> away.
  Both are proved for every reachable state of the step relation \<open>node_step\<close>, the second
  for runs in which no client re-opens a stream id that is still open.
\<close>

section \<open>Frame conditions of the primitive operations\<close>

lemma sendToClient_fields [simp]:
  "config (snd (sendToClient send c b n)) = config n"
  "running (snd (sendToClient send c b n)) = running n"
  "idle_thread (snd (sendToClient send c b n)) = idle_thread n"
  "streams (snd (sendToClient send c b n)) = streams n"
  "streams_per_client (snd (sendToClient send c b n)) = streams_per_client n"
  "recently_closed (snd (sendToClient send c b n)) = recently_closed n"
  "heap (snd (sendToClient send c b n)) = heap n"
  "cnt (snd (sendToClient send c b n)) = cnt n"
  "ops (snd (sendToClient send c b n)) = ops n"
  "terminated (snd (sendToClient send c b n)) = terminated n"
  "transport (snd (sendToClient send c b n)) = snd (send c b (transport n))"
  "fst (sendToClient send c b n) = fst (send c b (transport n))"
  by (simp_all add: sendToClient_def split: prod.splits)

lemma reply_error_fields [simp]:
  "config (reply_error send c i m n) = config n"
  "running (reply_error send c i m n) = running n"
  "idle_thread (reply_error send c i m n) = idle_thread n"
  "streams (reply_error send c i m n) = streams n"
  "streams_per_client (reply_error send c i m n) = streams_per_client n"
  "recently_closed (reply_error send c i m n) = recently_closed n"
  "heap (reply_error send c i m n) = heap n"
  "cnt (reply_error send c i m n) = cnt n"
  "ops (reply_error send c i m n) = ops n"
  "terminated (reply_error send c i m n) = terminated n"
  "transport (reply_error send c i m n) =
     snd (send c (encodeError \<lparr>em_stream_id = i, em_message = m\<rparr>) (transport n))"
  by (simp_all add: reply_error_def)

lemma client_count_fields [simp]:
  "config (snd (client_count c n)) = config n"
  "streams (snd (client_count c n)) = streams n"
  "heap (snd (client_count c n)) = heap n"
  "cnt (snd (client_count c n)) = cnt n"
  "ops (snd (client_count c n)) = ops n"
  "transport (snd (client_count c n)) = transport n"
  "running (snd (client_count c n)) = running n"
  "recently_closed (snd (client_count c n)) = recently_closed n"
  "terminated (snd (client_count c n)) = terminated n"
  by (simp_all add: client_count_def split: option.splits)

lemma set_stream_fields [simp]:
  "config (set_stream a s n) = config n"
  "streams (set_stream a s n) = streams n"
  "streams_per_client (set_stream a s n) = streams_per_client n"
  "recently_closed (set_stream a s n) = recently_closed n"
  "heap (set_stream a s n) = (heap n)[a := s]"
  "cnt (set_stream a s n) = cnt n"
  "ops (set_stream a s n) = ops n"
  "transport (set_stream a s n) = transport n"
  "running (set_stream a s n) = running n"
  "terminated (set_stream a s n) = terminated n"
  by (simp_all add: set_stream_def)

lemma add_tx_fields [simp]:
  "config (add_tx k n) = config n"
  "streams (add_tx k n) = streams n"
  "streams_per_client (add_tx k n) = streams_per_client n"
  "recently_closed (add_tx k n) = recently_closed n"
  "heap (add_tx k n) = heap n"
  "ops (add_tx k n) = ops n"
  "transport (add_tx k n) = transport n"
  "running (add_tx k n) = running n"
  "terminated (add_tx k n) = terminated n"
  by (simp_all add: add_tx_def)

lemma close_missing_fields [simp]:
  "config (close_missing io c i n) = config n"
  "streams (close_missing io c i n) = streams n"
  "streams_per_client (close_missing io c i n) = streams_per_client n"
  "heap (close_missing io c i n) = heap n"
  "ops (close_missing io c i n) = ops n"
  "transport (close_missing io c i n) = transport n"
  "running (close_missing io c i n) = running n"
  "terminated (close_missing io c i n) = terminated n"
  by (simp_all add: close_missing_def)

lemma join_rx_fields [simp]:
  "config (join_rx io a n) = config n"
  "streams (join_rx io a n) = streams n"
  "streams_per_client (join_rx io a n) = streams_per_client n"
  "heap (join_rx io a n) = (heap n)[a := (heap n ! a)\<lparr>st_rx_thread := Joined, rx_running := False\<rparr>]"
  "ops (join_rx io a n) = ops n"
  "transport (join_rx io a n) = transport n"
  "running (join_rx io a n) = running n"
  "terminated (join_rx io a n) = terminated n"
  by (simp_all add: join_rx_def Let_def)

lemma maybeLogCounters_fields [simp]:
  "config (maybeLogCounters t n) = config n"
  "streams (maybeLogCounters t n) = streams n"
  "streams_per_client (maybeLogCounters t n) = streams_per_client n"
  "heap (maybeLogCounters t n) = heap n"
  "ops (maybeLogCounters t n) = ops n"
  "transport (maybeLogCounters t n) = transport n"
  "running (maybeLogCounters t n) = running n"
  "terminated (maybeLogCounters t n) = terminated n"
  by (simp_all add: maybeLogCounters_def Let_def)


section \<open>The representation invariant\<close>

definition stream_count :: "string \<Rightarrow> 't node \<Rightarrow> u32" where
  "stream_count c n = (case map_of (streams_per_client n) c of Some k \<Rightarrow> k | None \<Rightarrow> 0)"

definition streams_of :: "string \<Rightarrow> 't node \<Rightarrow> (string \<times> nat) list" where
  "streams_of c n = filter (\<lambda>(k, a). st_client_id (heap n ! a) = c) (streams n)"

definition stream_ok :: "Stream list \<Rightarrow> string \<Rightarrow> nat \<Rightarrow> bool" where
  "stream_ok h k a \<longleftrightarrow> a < length h \<and> k = keyFor (st_client_id (h ! a)) (st_stream_id (h ! a)) \<and>
     \<not> st_closed (h ! a) \<and> 0 \<le> st_fd (h ! a)"

definition table_wf :: "(string \<times> nat) list \<Rightarrow> Stream list \<Rightarrow> bool" where
  "table_wf al h \<longleftrightarrow> distinct (keys al) \<and> distinct (map snd al) \<and> (\<forall>(k, a) \<in> set al. stream_ok h k a)"

definition node_wf :: "'t node \<Rightarrow> bool" where
  "node_wf n \<longleftrightarrow> table_wf (streams n) (heap n) \<and>
     (\<forall>c. length (streams_of c n) \<le> unat (stream_count c n) \<and> stream_count c n \<le> max_streams (config n))"

lemma node_wf_cong:
  "streams n' = streams n \<Longrightarrow> heap n' = heap n \<Longrightarrow> streams_per_client n' = streams_per_client n \<Longrightarrow>
   config n' = config n \<Longrightarrow> node_wf n' = node_wf n"
  by (simp add: node_wf_def streams_of_def stream_count_def)

lemma node_wf_irrelevant [simp]:
  "node_wf (n\<lparr>ops := tr\<rparr>) = node_wf n"
  "node_wf (n\<lparr>cnt := k\<rparr>) = node_wf n"
  "node_wf (n\<lparr>recently_closed := rc\<rparr>) = node_wf n"
  "node_wf (n\<lparr>terminated := tm\<rparr>) = node_wf n"
  "node_wf (n\<lparr>transport := t, running := r, idle_thread := it\<rparr>) = node_wf n"
  "node_wf (n\<lparr>transport := t\<rparr>) = node_wf n"
  "node_wf (reply_error send c i m n) = node_wf n"
  "node_wf (snd (sendToClient send c b n)) = node_wf n"
  "node_wf (add_tx z n) = node_wf n"
  "node_wf (close_missing io c i n) = node_wf n"
  "node_wf (maybeLogCounters now n) = node_wf n"
  by (rule node_wf_cong; simp)+

lemma node_wf_initial: "node_wf (EgressNode cfg t)"
  by (simp add: node_wf_def table_wf_def streams_of_def stream_count_def EgressNode_def)

lemma table_wf_lookup:
  assumes "table_wf al h" "map_of al k = Some a"
  shows "stream_ok h k a"
  using assms by (auto simp: table_wf_def dest: map_of_SomeD)

lemma node_wf_lookup:
  assumes "node_wf n" "map_of (streams n) (keyFor c i) = Some a"
  shows "a < length (heap n)" "st_client_id (heap n ! a) = c" "st_stream_id (heap n ! a) = i"
    "\<not> st_closed (heap n ! a)" "0 \<le> st_fd (heap n ! a)"
  using table_wf_lookup [OF _ assms(2)] assms(1) by (auto simp: node_wf_def stream_ok_def)

lemma node_wf_addr:
  assumes "node_wf n" "a \<in> snd ` set (streams n)"
  shows "map_of (streams n) (keyFor (st_client_id (heap n ! a)) (st_stream_id (heap n ! a))) = Some a"
  using assms by (auto simp: node_wf_def table_wf_def stream_ok_def)

section \<open>What closing does\<close>

lemma closeStream_missing:
  assumes "map_of (streams n) (keyFor c i) = None"
  shows "closeStream send io caller c i reason n =
    (False, close_missing io c i (n\<lparr>cnt := count_close reason (cnt n)\<rparr>))"
  using assms by (simp add: closeStream_def)

text \<open>The object of a closed stream, and the per-client counters after it.\<close>

definition closed_object :: "bool \<Rightarrow> Stream \<Rightarrow> Stream" where
  "closed_object own s =
     s\<lparr>st_closed := True, st_fd := -1,
       st_rx_thread := (if st_rx_thread s \<noteq> Joinable then st_rx_thread s else if own then Detached else Joined),
       rx_running := rx_running s \<and> (st_rx_thread s = Joinable \<longrightarrow> own)\<rparr>"

definition dec_count :: "string \<Rightarrow> (string \<times> u32) list \<Rightarrow> (string \<times> u32) list" where
  "dec_count c al = (case map_of al c of
     Some k \<Rightarrow> if k > 0 then AList.update c (k - 1) al else al | None \<Rightarrow> al)"

lemma closeStream_found:
  fixes n :: "'t node" and send :: "'t sender" and io :: io and caller :: "nat option" and reason :: string
  assumes wf: "node_wf n" and key: "map_of (streams n) (keyFor c i) = Some a"
  defines "n' \<equiv> snd (closeStream send io caller c i reason n)"
  shows "fst (closeStream send io caller c i reason n)"
    and "config n' = config n" and "running n' = running n" and "terminated n' = terminated n"
    and "streams n' = AList.delete (keyFor c i) (streams n)"
    and "streams_per_client n' = dec_count c (streams_per_client n)"
    and "heap n' = (heap n)[a := closed_object (caller = Some a) (heap n ! a)]"
    and "ops n' = ops n @ [Shutdown_Fd (st_fd (heap n ! a)), Close_Fd (st_fd (heap n ! a))]"
    and "transport n' = snd (send c (encodeClose \<lparr>cm_stream_id = i\<rparr>) (transport n))"
proof -
  note look = node_wf_lookup [OF wf key]
  note defs = n'_def closeStream_def Let_def close_fd_def
  show "fst (closeStream send io caller c i reason n)" "config n' = config n" "running n' = running n"
    "terminated n' = terminated n" "streams n' = AList.delete (keyFor c i) (streams n)"
    "streams_per_client n' = dec_count c (streams_per_client n)"
    "ops n' = ops n @ [Shutdown_Fd (st_fd (heap n ! a)), Close_Fd (st_fd (heap n ! a))]"
    "transport n' = snd (send c (encodeClose \<lparr>cm_stream_id = i\<rparr>) (transport n))"
    using key look by (simp_all add: defs dec_count_def split: option.splits)
  show "heap n' = (heap n)[a := closed_object (caller = Some a) (heap n ! a)]"
    using key look by (auto simp: defs closed_object_def)
qed

lemma closed_object_fields [simp]:
  "st_client_id (closed_object own s) = st_client_id s" "st_stream_id (closed_object own s) = st_stream_id s"
  "st_closed (closed_object own s)" "st_fd (closed_object own s) = -1"
  "st_rx_thread (closed_object own s) \<noteq> Joinable"
  by (simp_all add: closed_object_def)

lemma stream_ok_update: "a \<noteq> b \<Longrightarrow> stream_ok (h[a := s]) k b = stream_ok h k b"
  by (simp add: stream_ok_def)

lemma table_wf_delete:
  assumes "table_wf al h" "map_of al k = Some a"
  shows "table_wf (AList.delete k al) (h[a := s])"
proof -
  have "stream_ok (h[a := s]) k' b" if "(k', b) \<in> set (AList.delete k al)" for k' b
  proof -
    from that have in_al: "(k', b) \<in> set al" "k' \<noteq> k" by (auto simp: AList.delete_eq)
    moreover have "b \<noteq> a"
    proof
      assume "b = a"
      with in_al assms have "stream_ok h k' a" "stream_ok h k a"
        by (auto simp: table_wf_def dest: map_of_SomeD)
      with in_al(2) show False
        unfolding stream_ok_def by blast
    qed
    ultimately show ?thesis
      using assms(1) by (auto simp: table_wf_def stream_ok_update)
  qed
  moreover have "distinct (map snd (AList.delete k al))"
    using assms(1) by (simp add: table_wf_def AList.delete_eq distinct_map_filter)
  ultimately show ?thesis
    using assms(1) by (auto simp: table_wf_def distinct_keys_delete)
qed

lemma unat_pred_u32: "k > 0 \<Longrightarrow> unat (k - 1 :: u32) = unat k - 1"
  by (rule unat_minus_one) auto

lemma stream_count_dec:
  "(case map_of (dec_count c al) c' of Some k \<Rightarrow> k | None \<Rightarrow> 0) =
   (case map_of al c' of Some k \<Rightarrow> if c' = c \<and> k > 0 then k - 1 else k | None \<Rightarrow> 0)"
  by (auto simp: dec_count_def split: option.splits)

lemma length_filter_delete:
  assumes "distinct (keys al)" "map_of al k = Some a"
  shows "length (filter P (AList.delete k al)) = length (filter P al) - (if P (k, a) then 1 else 0)"
  using assms
proof (induction al)
  case (Cons x al)
  have "0 < length (filter P al)" if "(k, a) \<in> set al" "P (k, a)"
    using that by (metis filter_empty_conv length_greater_0_conv)
  with Cons show ?case
    by (cases x) (auto simp: Suc_diff_le dest: map_of_SomeD split: if_splits)
qed simp

lemma node_wf_closeStream:
  assumes wf: "node_wf n"
  shows "node_wf (snd (closeStream send io caller c i reason n))" (is "node_wf ?n'")
proof (cases "map_of (streams n) (keyFor c i)")
  case None
  with wf show ?thesis
    by (simp add: closeStream_missing)
next
  case (Some a)
  note look = node_wf_lookup [OF wf Some] and found = closeStream_found [OF wf Some]
  let ?s' = "closed_object (caller = Some a) (heap n ! a)"
  from wf have t: "table_wf (streams n) (heap n)" by (simp add: node_wf_def)
  have heap_id: "st_client_id ((heap n)[a := ?s'] ! b) = st_client_id (heap n ! b)" for b
    using look(1) by (cases "b = a") auto
  have "length (streams_of c' ?n') \<le> unat (stream_count c' ?n') \<and> stream_count c' ?n' \<le> max_streams (config n)"
    for c'
  proof -
    have old: "length (streams_of c' n) \<le> unat (stream_count c' n)" "stream_count c' n \<le> max_streams (config n)"
      using wf by (auto simp: node_wf_def)
    have len: "length (streams_of c' ?n') = length (streams_of c' n) - (if c' = c then 1 else 0)"
      using length_filter_delete [of "streams n" "keyFor c i" a] t Some look
      by (simp add: streams_of_def found heap_id table_wf_def)
    have "stream_count c' ?n' = (if c' = c \<and> stream_count c n > 0 then stream_count c n - 1 else stream_count c' n)"
      by (auto simp: stream_count_def found dec_count_def split: option.splits)
    with old len show ?thesis
      by (auto simp: unat_pred_u32 word_less_nat_alt word_le_nat_alt split: if_splits)
  qed
  with table_wf_delete [OF t Some] found show ?thesis
    by (simp add: node_wf_def)
qed

section \<open>What opening does\<close>

lemma stream_count_client_count [simp]:
  "fst (client_count c n) = stream_count c n"
  "stream_count c' (snd (client_count c n)) = stream_count c' n"
  by (auto simp: client_count_def stream_count_def split: option.splits)

lemma streams_of_cong: "streams n' = streams n \<Longrightarrow> heap n' = heap n \<Longrightarrow> streams_of c n' = streams_of c n"
  by (simp add: streams_of_def)

lemma node_wf_client_count: "node_wf (snd (client_count c n)) = node_wf n"
  by (simp add: node_wf_def cong: streams_of_cong)

lemma register_fields [simp]:
  "config (register_stream io c i fd n) = config n"
  "streams (register_stream io c i fd n) = AList.update (keyFor c i) (length (heap n)) (streams n)"
  "heap (register_stream io c i fd n) = heap n @ [\<lparr>st_client_id = c, st_stream_id = i, st_fd = fd,
     st_closed = False, st_last_activity_ms = io_now io, st_rx_thread = No_Thread, rx_running = False\<rparr>]"
  "ops (register_stream io c i fd n) = ops n"
  "transport (register_stream io c i fd n) = transport n"
  "running (register_stream io c i fd n) = running n"
  "terminated (register_stream io c i fd n) = terminated n"
  by (simp_all add: register_stream_def Let_def split: prod.splits)
     (simp_all add: client_count_def split: option.splits)

lemma stream_count_register:
  "stream_count c' (register_stream io c i fd n) = (if c' = c then stream_count c n + 1 else stream_count c' n)"
  by (auto simp: register_stream_def Let_def stream_count_def client_count_def split: option.splits prod.splits)

lemma start_rx_fields [simp]:
  "config (start_rx a n) = config n"
  "streams (start_rx a n) = streams n"
  "streams_per_client (start_rx a n) = streams_per_client n"
  "heap (start_rx a n) = (heap n)[a := (heap n ! a)\<lparr>st_rx_thread := Joinable, rx_running := True\<rparr>]"
  "ops (start_rx a n) = ops n"
  "transport (start_rx a n) = transport n"
  "running (start_rx a n) = running n"
  "terminated (start_rx a n) = terminated n"
  by (simp_all add: start_rx_def)

lemma snd_set_update: "x \<in> set (AList.update k v al) \<Longrightarrow> x = (k, v) \<or> (x \<in> set al \<and> (distinct (keys al) \<longrightarrow> fst x \<noteq> k))"
  by (induction al) (auto split: if_splits)

lemma table_wf_update:
  assumes "table_wf al h" "stream_ok (h @ [s]) k (length h)"
  shows "table_wf (AList.update k (length h) al) (h @ [s])"
proof -
  have old: "b < length h \<and> stream_ok (h @ [s]) k' b" if "(k', b) \<in> set al" for k' b
    using assms(1) that by (auto simp: table_wf_def stream_ok_def nth_append)
  then have "length h \<notin> snd ` set al" by force
  with assms(1) have "distinct (map snd (AList.update k (length h) al))"
    unfolding table_wf_def by (induction al) (auto dest!: snd_set_update)
  with assms old show ?thesis
    by (auto simp: table_wf_def distinct_keys_update dest!: snd_set_update)
qed

lemma connect_loop_ops:
  assumes "connect_loop io bp port ps k b = Some (fd, blocked, tr)" "Connect_To f ip p \<in> set tr"
  shows "p = port \<and> (bp \<longrightarrow> \<not> isAddressBlocked (io_pton io) ip) \<and> Some ip \<in> io_ntop io ` set ps"
  using assms
proof (induction ps arbitrary: k b fd blocked tr)
  case (Cons q ps)
  then show ?case
    by (fastforce split: option.splits if_splits Option.bind_splits prod.splits dest: connect_cases)
qed simp

definition open_permitted :: "Config \<Rightarrow> string \<Rightarrow> string \<Rightarrow> u16 \<Rightarrow> string \<Rightarrow> bool" where
  "open_permitted cfg client_id host port token \<longleftrightarrow>
     eg_enabled (egress cfg) \<and> host \<noteq> [] \<and> length host \<le> 255 \<and> port \<in> set (allowed_ports (egress cfg)) \<and>
     \<not> isHostBlocked host \<and> (auth_required cfg \<longrightarrow> isClientAllowed cfg client_id token)"

text \<open>The state after a successful connect.\<close>

definition opened ::
  "'t sender \<Rightarrow> io \<Rightarrow> string \<Rightarrow> u32 \<Rightarrow> int \<Rightarrow> 't node \<Rightarrow> 't node" where
  "opened send io c i fd n =
     (let n = register_stream io c i fd (n\<lparr>cnt := (cnt n)\<lparr>open_ok := open_ok (cnt n) + 1\<rparr>\<rparr>);
          n' = add_tx (length (encodeOpen \<lparr>cm_stream_id = i\<rparr>)) (snd (sendToClient send c (encodeOpen \<lparr>cm_stream_id = i\<rparr>) n))
      in case io_thread_error io of
           None \<Rightarrow> start_rx (length (heap n) - 1) n'
         | Some what \<Rightarrow> reply_error send c i (''internal: '' @ what) n')"

lemma handleOpen_not_permitted:
  assumes "\<not> open_permitted (config n) c host port token"
  shows "\<exists>msg. handleOpen send io c i host port token n = Some (reply_error send c i msg n) \<or>
    handleOpen send io c i host port token n = Some (open_failed (reply_error send c i msg n))"
proof (cases "eg_enabled (egress (config n)) \<and> host \<noteq> [] \<and> length host \<le> 255 \<and> isPortAllowed (config n) port
    \<and> \<not> isHostBlocked host")
  case True
  with assms show ?thesis by (auto simp: handleOpen_def Let_def open_permitted_def isPortAllowed_def)
next
  case False
  then show ?thesis by (auto simp: handleOpen_def Let_def)
qed

lemma handleOpen_permitted:
  assumes "open_permitted (config n) c host port token"
  shows "handleOpen send io c i host port token n =
    (let m = snd (client_count c n) in
     if stream_count c n \<ge> max_streams (config n) then Some (reply_error send c i ''max streams reached'' m)
     else case io_getaddrinfo io (c_str host) of
       None \<Rightarrow> Some (reply_error send c i ''DNS resolve failed'' m)
     | Some result \<Rightarrow>
         (case connect_loop io (block_private_ips (egress (config n))) port result 0 True of
            None \<Rightarrow> None
          | Some (fd, b, tr) \<Rightarrow>
              let m = m\<lparr>ops := ops n @ tr\<rparr> in
              if fd < 0 then
                if b then Some (reply_error send c i ''destination blocked'' m)
                else Some (open_failed (reply_error send c i ''tcp connect failed'' m))
              else Some (opened send io c i fd m)))"
proof -
  obtain k m where km: "client_count c n = (k, m)" by (cases "client_count c n")
  then have "stream_count c n = k" "ops m = ops n"
    using stream_count_client_count(1) [of c n] client_count_fields(5) [of c n] by auto
  with km assms show ?thesis
    by (auto simp: handleOpen_def Let_def open_permitted_def isPortAllowed_def opened_def
        split: option.splits Option.bind_splits)
qed

definition same_table :: "'t node \<Rightarrow> 't node \<Rightarrow> bool" where
  "same_table n n' \<longleftrightarrow> streams n' = streams n \<and> heap n' = heap n \<and> config n' = config n \<and>
     (\<forall>c. stream_count c n' = stream_count c n) \<and> running n' = running n \<and> terminated n' = terminated n"

lemma same_table_wf: "same_table n n' \<Longrightarrow> node_wf n' = node_wf n"
  by (simp add: same_table_def node_wf_def cong: streams_of_cong)

lemma open_failed_fields [simp]:
  "config (open_failed n) = config n"
  "streams (open_failed n) = streams n"
  "streams_per_client (open_failed n) = streams_per_client n"
  "heap (open_failed n) = heap n"
  "ops (open_failed n) = ops n"
  "transport (open_failed n) = transport n"
  "running (open_failed n) = running n"
  "terminated (open_failed n) = terminated n"
  by (simp_all add: open_failed_def)

lemma stream_count_unchanged [simp]:
  "stream_count c (reply_error send c' i m n) = stream_count c n"
  "stream_count c (open_failed n) = stream_count c n"
  "stream_count c (n\<lparr>ops := tr\<rparr>) = stream_count c n"
  "stream_count c (n\<lparr>cnt := k\<rparr>) = stream_count c n"
  "stream_count c (add_tx b n) = stream_count c n"
  "stream_count c (snd (sendToClient send c' f n)) = stream_count c n"
  "stream_count c (set_stream a s n) = stream_count c n"
  "stream_count c (start_rx a n) = stream_count c n"
  by (simp_all add: stream_count_def)

text \<open>Whatever OPEN does, it is a refusal that leaves the table alone, or a permitted connect.\<close>

lemma handleOpen_cases:
  assumes "handleOpen send io c i host port token n = Some n'"
  obtains (refused) tr where "same_table n n'" "ops n' = ops n @ tr"
      "tr \<noteq> [] \<Longrightarrow> open_permitted (config n) c host port token \<and> stream_count c n < max_streams (config n) \<and>
         (\<exists>result fd b. io_getaddrinfo io (c_str host) = Some result \<and> fd < 0 \<and>
            connect_loop io (block_private_ips (egress (config n))) port result 0 True = Some (fd, b, tr))"
    | (accepted) result fd b tr where
      "open_permitted (config n) c host port token" "stream_count c n < max_streams (config n)"
      "io_getaddrinfo io (c_str host) = Some result" "0 \<le> fd"
      "connect_loop io (block_private_ips (egress (config n))) port result 0 True = Some (fd, b, tr)"
      "n' = opened send io c i fd ((snd (client_count c n))\<lparr>ops := ops n @ tr\<rparr>)"
proof (cases "open_permitted (config n) c host port token")
  case False
  from handleOpen_not_permitted [OF False, of send io i] assms refused [of "[]"] show thesis
    by (auto simp: same_table_def)
next
  case True
  note handle = assms [unfolded handleOpen_permitted [OF True] Let_def]
  show thesis
  proof (cases "stream_count c n \<ge> max_streams (config n) \<or> io_getaddrinfo io (c_str host) = None")
    case True
    with handle have "same_table n n' \<and> ops n' = ops n @ []"
      by (auto simp: same_table_def split: if_splits)
    with refused [of "[]"] show thesis by blast
  next
    case False
    with handle obtain result fd b tr where r: "io_getaddrinfo io (c_str host) = Some result"
      "connect_loop io (block_private_ips (egress (config n))) port result 0 True = Some (fd, b, tr)"
      by (auto split: option.splits)
    show thesis
    proof (cases "fd < 0")
      case True
      with handle r False have "same_table n n' \<and> ops n' = ops n @ tr"
        by (auto simp: same_table_def split: if_splits)
      with True r False refused [of tr] \<open>open_permitted _ _ _ _ _\<close> show thesis by auto
    next
      case fd: False
      with handle r False accepted [of result fd b tr] \<open>open_permitted _ _ _ _ _\<close> show thesis by auto
    qed
  qed
qed

lemma opened_fields [simp]:
  "config (opened send io c i fd n) = config n"
  "running (opened send io c i fd n) = running n"
  "terminated (opened send io c i fd n) = terminated n"
  "ops (opened send io c i fd n) = ops n"
  "streams (opened send io c i fd n) = AList.update (keyFor c i) (length (heap n)) (streams n)"
  "heap (opened send io c i fd n) = heap n @ [\<lparr>st_client_id = c, st_stream_id = i, st_fd = fd,
     st_closed = False, st_last_activity_ms = io_now io,
     st_rx_thread = (if io_thread_error io = None then Joinable else No_Thread),
     rx_running = (io_thread_error io = None)\<rparr>]"
  "stream_count c' (opened send io c i fd n) = (if c' = c then stream_count c n + 1 else stream_count c' n)"
  by (auto simp: opened_def Let_def stream_count_register split: option.splits)

lemma length_filter_update_le:
  "length (filter P (AList.update k v al)) \<le> length (filter P al) + (if P (k, v) then 1 else 0)"
  by (induction al) auto

lemma filter_client_append:
  assumes "table_wf (streams n) (heap n)"
  shows "filter (\<lambda>(k, a). st_client_id ((heap n @ h) ! a) = c') (streams n) = streams_of c' n"
proof -
  have addr: "b < length (heap n)" if "(k, b) \<in> set (streams n)" for k b
    using assms that by (auto simp: table_wf_def stream_ok_def)
  then show ?thesis
    unfolding streams_of_def by (intro filter_cong) (auto simp: nth_append)
qed

lemma streams_of_register:
  assumes "table_wf (streams n) (heap n)"
  shows "length (streams_of c' (register_stream io c i fd n)) \<le> length (streams_of c' n) + (if c' = c then 1 else 0)"
  using length_filter_update_le [of "\<lambda>(k, a). st_client_id (heap (register_stream io c i fd n) ! a) = c'"
      "keyFor c i" "length (heap n)" "streams n"] filter_client_append [OF assms]
  by (auto simp: streams_of_def split: if_splits)

lemma streams_of_reopened:
  assumes "node_wf n" "map_of (streams n) (keyFor c i) = Some a"
  shows "length (streams_of c (opened send io c i fd n)) = length (streams_of c n)"
proof -
  let ?P = "\<lambda>(k, a). st_client_id (heap (opened send io c i fd n) ! a) = c"
  have "length (filter ?P (AList.update (keyFor c i) (length (heap n)) (streams n))) = length (filter ?P (streams n))"
    using node_wf_lookup [OF assms] by (intro length_filter_update_existing [OF assms(2)]) (simp add: nth_append)
  then show ?thesis
    using assms(1) filter_client_append [of n _ c] by (simp add: streams_of_def node_wf_def)
qed

lemma node_wf_touch:
  assumes "node_wf n" "st_client_id s = st_client_id (heap n ! a)" "st_stream_id s = st_stream_id (heap n ! a)"
    "a < length (heap n)" "a \<in> snd ` set (streams n) \<Longrightarrow> \<not> st_closed s \<and> 0 \<le> st_fd s"
  shows "node_wf (set_stream a s n)"
proof -
  have id: "st_client_id ((heap n)[a := s] ! b) = st_client_id (heap n ! b)" for b
    using assms by (cases "b = a") auto
  have stream: "stream_ok ((heap n)[a := s]) k b" if "(k, b) \<in> set (streams n)" "stream_ok (heap n) k b" for k b
    using that assms(2-5) by (cases "b = a") (force simp: stream_ok_def)+
  have "table_wf (streams n) ((heap n)[a := s])"
    using assms(1) stream by (auto simp: node_wf_def table_wf_def)
  with assms(1) show ?thesis by (simp add: node_wf_def streams_of_def id)
qed

lemma node_wf_register:
  assumes wf: "node_wf n" and "stream_count c n < max_streams (config n)" "0 \<le> fd"
  shows "node_wf (register_stream io c i fd n)" (is "node_wf ?n'")
proof -
  from wf have t: "table_wf (streams n) (heap n)" by (simp add: node_wf_def)
  have suc: "unat (stream_count c n + 1) = unat (stream_count c n) + 1"
    using assms(2) unat_u32_bound [of "max_streams (config n)"]
    by (simp add: word_less_nat_alt unat_word_ariths)
  have "stream_count c n + 1 \<le> max_streams (config n)"
    using assms(2) by (simp add: word_le_nat_alt word_less_nat_alt suc)
  moreover have "length (streams_of c' ?n') \<le> unat (stream_count c' ?n')" for c'
    using streams_of_register [OF t, of c' io c i fd] wf suc
    by (auto simp: node_wf_def stream_count_register split: if_splits intro: order_trans le_SucI)
  moreover have "table_wf (streams ?n') (heap ?n')"
    using assms(3) by (auto intro!: table_wf_update [OF t] simp: stream_ok_def)
  ultimately show ?thesis using wf by (simp add: node_wf_def stream_count_register)
qed

lemma node_wf_opened:
  assumes "node_wf n" "stream_count c n < max_streams (config n)" "0 \<le> fd"
  shows "node_wf (opened send io c i fd n)"
proof -
  have reg: "node_wf (register_stream io c i fd (n\<lparr>cnt := k\<rparr>))" for k
    using assms by (intro node_wf_register) simp_all
  have start: "node_wf (start_rx (length (heap n)) n')"
    if "node_wf n'" "heap n' = heap (register_stream io c i fd n)" for n'
    unfolding start_rx_def using that assms(3) by (intro node_wf_touch) simp_all
  show ?thesis
    using reg by (auto simp: opened_def Let_def intro!: start split: option.split)
qed

lemma node_wf_handleOpen:
  assumes "node_wf n" "handleOpen send io c i host port token n = Some n'"
  shows "node_wf n'"
  using assms(2)
proof (cases rule: handleOpen_cases)
  case refused
  then show ?thesis using assms(1) by (simp add: same_table_wf)
next
  case (accepted result fd b tr)
  have "node_wf ((snd (client_count c n))\<lparr>ops := ops n @ tr\<rparr>)"
    using assms(1) node_wf_client_count [of c n] by simp
  then show ?thesis
    unfolding accepted(6) using accepted by (intro node_wf_opened) auto
qed

section \<open>DATA, CLOSE and the threads keep the invariant\<close>

lemma node_wf_handleData: "node_wf n \<Longrightarrow> node_wf (handleData send io c i p n)"
proof -
  assume wf: "node_wf n"
  have "node_wf (set_stream a ((heap n ! a)\<lparr>st_last_activity_ms := t\<rparr>) (n\<lparr>ops := tr\<rparr>))"
    if "map_of (streams n) (keyFor c i) = Some a" for a t tr
    using node_wf_lookup [OF wf that] wf by (intro node_wf_touch) auto
  then show ?thesis
    using wf node_wf_closeStream [OF wf] by (simp add: handleData_def Let_def split: option.splits)
qed

lemma node_wf_handleClose: "node_wf n \<Longrightarrow> node_wf (handleClose send io c i n)"
  using node_wf_closeStream [of n send io None c i "''client close''"]
  by (simp add: handleClose_def case_prod_beta)

abbreviation data_frame :: "u32 \<Rightarrow> bytes \<Rightarrow> bytes" where
  "data_frame i chunk \<equiv> encodeData \<lparr>dm_stream_id = i, dm_payload = chunk\<rparr>"

lemma push_data_Nil [simp]: "push_data send c i [] n = (True, n)"
  by (simp add: push_data.simps)

lemma push_data_step:
  assumes "buf \<noteq> []"
  shows "push_data send c i buf n =
    (let out = data_frame i (take kMaxDataChunkBytes buf);
         n' = add_tx (length out) (snd (sendToClient send c out n))
     in if fst (send c out (transport n)) then push_data send c i (drop kMaxDataChunkBytes buf) n' else (False, n'))"
  using assms by (subst push_data.simps) (simp add: Let_def case_prod_beta)

lemma push_data_fields [simp]:
  "config (snd (push_data send c i buf n)) = config n"
  "streams (snd (push_data send c i buf n)) = streams n"
  "streams_per_client (snd (push_data send c i buf n)) = streams_per_client n"
  "recently_closed (snd (push_data send c i buf n)) = recently_closed n"
  "heap (snd (push_data send c i buf n)) = heap n"
  "ops (snd (push_data send c i buf n)) = ops n"
  "running (snd (push_data send c i buf n)) = running n"
  "terminated (snd (push_data send c i buf n)) = terminated n"
proof -
  have "config (snd (push_data send c i buf n)) = config n \<and>
    streams (snd (push_data send c i buf n)) = streams n \<and>
    streams_per_client (snd (push_data send c i buf n)) = streams_per_client n \<and>
    recently_closed (snd (push_data send c i buf n)) = recently_closed n \<and>
    heap (snd (push_data send c i buf n)) = heap n \<and>
    ops (snd (push_data send c i buf n)) = ops n \<and>
    running (snd (push_data send c i buf n)) = running n \<and>
    terminated (snd (push_data send c i buf n)) = terminated n"
  proof (induction "length buf" arbitrary: buf n rule: less_induct)
    case less
    show ?case
    proof (cases "buf = []")
      case False
      then have "length (drop kMaxDataChunkBytes buf) < length buf" by (simp add: kMaxDataChunkBytes_def)
      from less [OF this] show ?thesis by (simp add: push_data_step [OF False] Let_def)
    qed simp
  qed
  then show
    "config (snd (push_data send c i buf n)) = config n"
    "streams (snd (push_data send c i buf n)) = streams n"
    "streams_per_client (snd (push_data send c i buf n)) = streams_per_client n"
    "recently_closed (snd (push_data send c i buf n)) = recently_closed n"
    "heap (snd (push_data send c i buf n)) = heap n"
    "ops (snd (push_data send c i buf n)) = ops n"
    "running (snd (push_data send c i buf n)) = running n"
    "terminated (snd (push_data send c i buf n)) = terminated n" by auto
qed

lemma node_wf_push_data [simp]: "node_wf (snd (push_data send c i buf n)) = node_wf n"
  by (rule node_wf_cong) simp_all

lemma rx_exit_fields [simp]:
  "config (rx_exit a n) = config n"
  "streams (rx_exit a n) = streams n"
  "streams_per_client (rx_exit a n) = streams_per_client n"
  "heap (rx_exit a n) = (heap n)[a := (heap n ! a)\<lparr>rx_running := False\<rparr>]"
  "ops (rx_exit a n) = ops n"
  "running (rx_exit a n) = running n"
  "transport (rx_exit a n) = transport n"
  by (simp_all add: rx_exit_def Let_def)

lemma node_wf_stream_live:
  assumes "node_wf n" "a \<in> snd ` set (streams n)"
  shows "a < length (heap n)" "\<not> st_closed (heap n ! a)" "0 \<le> st_fd (heap n ! a)"
  using node_wf_lookup [OF assms(1) node_wf_addr [OF assms]] by auto

lemma node_wf_rx_exit:
  assumes "node_wf n" "a < length (heap n)"
  shows "node_wf (rx_exit a n)"
proof -
  have "node_wf (set_stream a ((heap n ! a)\<lparr>rx_running := False\<rparr>) n)"
    using assms by (intro node_wf_touch) (auto dest: node_wf_stream_live)
  then show ?thesis by (simp add: rx_exit_def Let_def)
qed

lemma length_heap_closeStream [simp]:
  "length (heap (snd (closeStream send io caller c i reason n))) = length (heap n)"
  by (simp add: closeStream_def Let_def close_fd_def split: option.splits)

lemma node_wf_rx_iteration:
  assumes wf: "node_wf n" and a: "a < length (heap n)"
  shows "node_wf (rx_iteration send io a r n)"
proof -
  let ?s = "heap n ! a"
  let ?quit = "\<lambda>reason n. rx_exit a (snd (closeStream send io (Some a) (st_client_id ?s) (st_stream_id ?s) reason n))"
  have quit: "node_wf (?quit reason n')" if "node_wf n'" "length (heap n') = length (heap n)" for n' reason
    using that a by (intro node_wf_rx_exit node_wf_closeStream) auto
  let ?n1 = "set_stream a (?s\<lparr>st_last_activity_ms := io_now io\<rparr>) n"
  have n1: "node_wf ?n1"
    using wf a by (intro node_wf_touch) (auto dest: node_wf_stream_live)
  show ?thesis
    using quit [OF wf] n1 quit node_wf_rx_exit [OF wf a]
    by (simp add: rx_iteration_def Let_def case_prod_beta split: rx_result.splits)
qed

lemma node_wf_idle_sweep:
  assumes "node_wf n"
  shows "node_wf (idle_sweep send io n)"
proof -
  have "node_wf (foldl (\<lambda>n (client, streamId). snd (closeStream send io None client streamId ''idle timeout'' n)) m xs)"
    if "node_wf m" for m xs
    using that by (induction xs arbitrary: m) (auto simp: node_wf_closeStream)
  then show ?thesis using assms by (simp add: idle_sweep_def Let_def)
qed

lemma close_fd_fields [simp]:
  "config (close_fd a n) = config n"
  "streams (close_fd a n) = streams n"
  "streams_per_client (close_fd a n) = streams_per_client n"
  "running (close_fd a n) = running n"
  "terminated (close_fd a n) = terminated n"
  "transport (close_fd a n) = transport n"
  "heap (close_fd a n) = (if st_fd (heap n ! a) \<ge> 0 then (heap n)[a := (heap n ! a)\<lparr>st_fd := -1\<rparr>] else heap n)"
  by (simp_all add: close_fd_def Let_def)

lemma stop_stream_fields [simp]:
  "config (stop_stream io n a) = config n"
  "streams (stop_stream io n a) = streams n"
  "streams_per_client (stop_stream io n a) = streams_per_client n"
  "running (stop_stream io n a) = running n"
  "terminated (stop_stream io n a) = terminated n"
  "transport (stop_stream io n a) = transport n"
  by (simp_all add: stop_stream_def Let_def)

lemma foldl_stop_fields [simp]:
  "config (foldl (stop_stream io) n as) = config n"
  "streams (foldl (stop_stream io) n as) = streams n"
  "streams_per_client (foldl (stop_stream io) n as) = streams_per_client n"
  "running (foldl (stop_stream io) n as) = running n"
  "terminated (foldl (stop_stream io) n as) = terminated n"
  "transport (foldl (stop_stream io) n as) = transport n"
  by (induction as arbitrary: n; simp)+

lemma node_wf_empty: "streams n = [] \<Longrightarrow> streams_per_client n = [] \<Longrightarrow> node_wf n"
  by (simp add: node_wf_def table_wf_def streams_of_def stream_count_def)

lemma node_wf_stop: "node_wf n \<Longrightarrow> node_wf (node_stop tstop io n)"
  by (auto simp: node_stop_def Let_def intro: node_wf_empty)

lemma node_wf_start: "node_wf n \<Longrightarrow> node_wf (snd (node_start set_handler tstart n))"
  by (auto simp: node_start_def Let_def split: prod.splits intro!: node_wf_cong [THEN iffD2])

lemma node_wf_dispatch:
  assumes "node_wf n" "dispatch send io c m n = Some n'"
  shows "node_wf n'"
  using assms by (auto simp: dispatch_def Let_def node_wf_handleData node_wf_handleClose
      intro: node_wf_handleOpen split: if_splits)

section \<open>Running receive threads\<close>

definition tidy :: "'t node \<Rightarrow> bool" where
  "tidy n \<longleftrightarrow> \<not> terminated n \<and>
     (\<forall>a < length (heap n). rx_running (heap n ! a) \<longrightarrow>
        a \<in> snd ` set (streams n) \<and> st_rx_thread (heap n ! a) = Joinable)"

lemma tidy_cong:
  "streams n' = streams n \<Longrightarrow> heap n' = heap n \<Longrightarrow> terminated n' = terminated n \<Longrightarrow> tidy n' = tidy n"
  by (simp add: tidy_def)

lemma tidy_irrelevant [simp]:
  "tidy (n\<lparr>ops := tr\<rparr>) = tidy n"
  "tidy (n\<lparr>cnt := k\<rparr>) = tidy n"
  "tidy (n\<lparr>recently_closed := rc\<rparr>) = tidy n"
  "tidy (n\<lparr>transport := t\<rparr>) = tidy n"
  "tidy (reply_error send c i m n) = tidy n"
  "tidy (snd (sendToClient send c b n)) = tidy n"
  "tidy (add_tx z n) = tidy n"
  "tidy (close_missing io c i n) = tidy n"
  "tidy (maybeLogCounters now n) = tidy n"
  "tidy (snd (client_count c n)) = tidy n"
  "tidy (snd (push_data send c i buf n)) = tidy n"
  by (rule tidy_cong; simp)+

lemma tidy_touch:
  assumes "tidy n" "rx_running s \<Longrightarrow> rx_running (heap n ! a)" "st_rx_thread s = st_rx_thread (heap n ! a)"
  shows "tidy (set_stream a s n)"
  using assms by (auto simp: tidy_def nth_list_update_if split: if_splits)

lemma addresses_delete:
  assumes "table_wf al h" "map_of al k = Some a"
  shows "snd ` set (AList.delete k al) = snd ` set al - {a}"
proof -
  have "stream_ok h k' b" if "(k', b) \<in> set al" for k' b
    using assms(1) that by (auto simp: table_wf_def)
  moreover from assms have "(k, a) \<in> set al" by (auto dest: map_of_SomeD)
  ultimately have "k' = k \<longleftrightarrow> b = a" if "(k', b) \<in> set al" for k' b
    using that assms unfolding stream_ok_def table_wf_def by (metis eq_key_imp_eq_value)
  then show ?thesis by (force simp: AList.delete_eq)
qed

lemma addresses_closeStream:
  assumes "node_wf n" "map_of (streams n) (keyFor c i) = Some a"
  shows "snd ` set (streams (snd (closeStream send io caller c i reason n))) = snd ` set (streams n) - {a}"
  unfolding closeStream_found(5) [OF assms]
  using assms by (intro addresses_delete [where h = "heap n"]) (simp_all add: node_wf_def)

lemma tidy_closeStream:
  assumes wf: "node_wf n" and t: "tidy n"
  shows "tidy (snd (closeStream send io None c i reason n))"
proof (cases "map_of (streams n) (keyFor c i)")
  case None
  with t show ?thesis by (simp add: closeStream_missing)
next
  case (Some a)
  note found = closeStream_found [OF wf Some, of send io None reason]
  note look = node_wf_lookup [OF wf Some]
  have "\<not> rx_running (closed_object False (heap n ! a))"
    using t look(1) by (auto simp: tidy_def closed_object_def)
  with t show ?thesis
    unfolding tidy_def addresses_closeStream [OF wf Some] found(4,7)
    by (auto simp: nth_list_update_if split: if_splits)
qed

lemma tidy_closeStream_own:
  assumes wf: "node_wf n" and t: "tidy n" and a: "a \<in> snd ` set (streams n)"
    and c: "c = st_client_id (heap n ! a)" "i = st_stream_id (heap n ! a)"
    and joinable: "st_rx_thread (heap n ! a) = Joinable"
  shows "tidy (rx_exit a (snd (closeStream send io (Some a) c i reason n)))"
proof -
  from node_wf_addr [OF wf a] c have key: "map_of (streams n) (keyFor c i) = Some a" by simp
  note found = closeStream_found [OF wf key, of send io "Some a" reason]
  note look = node_wf_lookup [OF wf key]
  let ?n' = "snd (closeStream send io (Some a) c i reason n)"
  have "st_rx_thread (heap ?n' ! a) = Detached"
    using look joinable by (simp add: found closed_object_def)
  then have "terminated (rx_exit a ?n') = terminated n"
    using look by (simp add: rx_exit_def Let_def found)
  with look t show ?thesis
    unfolding tidy_def rx_exit_fields addresses_closeStream [OF wf key] found(7)
    by (auto simp: nth_list_update_if split: if_splits)
qed

lemma tidy_rx_iteration:
  assumes wf: "node_wf n" and t: "tidy n" and a: "a < length (heap n)" "rx_running (heap n ! a)"
  shows "tidy (rx_iteration send io a r n)"
proof -
  let ?s = "heap n ! a"
  let ?n1 = "set_stream a (?s\<lparr>st_last_activity_ms := io_now io\<rparr>) n"
  from t a have reg: "a \<in> snd ` set (streams n)" "st_rx_thread ?s = Joinable" by (auto simp: tidy_def)
  note live = node_wf_stream_live [OF wf reg(1)]
  have n1: "node_wf ?n1" "tidy ?n1"
    using wf t a by (auto intro!: node_wf_touch tidy_touch dest: node_wf_stream_live)
  have "tidy (rx_exit a (snd (closeStream send io (Some a) (st_client_id ?s) (st_stream_id ?s) reason n')))"
    if "node_wf n'" "tidy n'" "streams n' = streams n" "length (heap n') = length (heap n)"
      "st_client_id (heap n' ! a) = st_client_id ?s" "st_stream_id (heap n' ! a) = st_stream_id ?s"
      "st_rx_thread (heap n' ! a) = Joinable" for n' reason
    using that reg by (intro tidy_closeStream_own) auto
  with wf t n1 reg live show ?thesis
    by (simp add: rx_iteration_def Let_def case_prod_beta split: rx_result.splits)
qed

lemma addresses_update_fresh:
  "map_of al k = None \<Longrightarrow> snd ` set (AList.update k v al) = insert v (snd ` set al)"
  by (induction al) (simp_all add: insert_commute split: if_splits)

lemma tidy_handleOpen:
  assumes t: "tidy n" and fresh: "map_of (streams n) (keyFor c i) = None"
    and "handleOpen send io c i host port token n = Some n'"
  shows "tidy n'"
  using assms(3)
proof (cases rule: handleOpen_cases)
  case refused
  then show ?thesis using t tidy_cong [of n' n] by (simp add: same_table_def)
next
  case (accepted result fd b tr)
  with t show ?thesis
    by (auto simp: tidy_def addresses_update_fresh [OF fresh] nth_append less_Suc_eq)
qed

lemma tidy_handleData: "node_wf n \<Longrightarrow> tidy n \<Longrightarrow> tidy (handleData send io c i p n)"
  by (auto simp: handleData_def Let_def tidy_closeStream split: option.splits intro!: tidy_touch)

lemma tidy_handleClose: "node_wf n \<Longrightarrow> tidy n \<Longrightarrow> tidy (handleClose send io c i n)"
  by (simp add: handleClose_def case_prod_beta tidy_closeStream)

lemma tidy_idle_sweep:
  assumes "node_wf n" "tidy n"
  shows "tidy (idle_sweep send io n)"
proof -
  have "tidy (foldl (\<lambda>n (client, streamId). snd (closeStream send io None client streamId ''idle timeout'' n)) m xs)"
    if "node_wf m" "tidy m" for m xs
    using that by (induction xs arbitrary: m) (auto simp: node_wf_closeStream tidy_closeStream)
  then show ?thesis using assms by (simp add: idle_sweep_def Let_def)
qed

lemma stop_stream_heap:
  assumes "a < length (heap n)" "0 \<le> st_fd (heap n ! a)"
  shows "heap (stop_stream io n a) = (heap n)[a := closed_object False (heap n ! a)]"
  using assms by (auto simp: stop_stream_def Let_def closed_object_def)

lemma stop_stream_ops:
  assumes "a < length (heap n)" "0 \<le> st_fd (heap n ! a)"
  shows "ops (stop_stream io n a) = ops n @ [Shutdown_Fd (st_fd (heap n ! a)), Close_Fd (st_fd (heap n ! a))]"
  using assms by (simp add: stop_stream_def Let_def close_fd_def)

lemma foldl_stop_heap:
  assumes "distinct as" "\<forall>a \<in> set as. a < length (heap n) \<and> 0 \<le> st_fd (heap n ! a)"
  shows "length (heap (foldl (stop_stream io) n as)) = length (heap n) \<and>
    (\<forall>b < length (heap n). heap (foldl (stop_stream io) n as) ! b =
       (if b \<in> set as then closed_object False (heap n ! b) else heap n ! b)) \<and>
    ops (foldl (stop_stream io) n as) =
      ops n @ concat (map (\<lambda>a. [Shutdown_Fd (st_fd (heap n ! a)), Close_Fd (st_fd (heap n ! a))]) as)"
  using assms
proof (induction as arbitrary: n)
  case (Cons a as)
  then have a: "a < length (heap n)" "0 \<le> st_fd (heap n ! a)" "a \<notin> set as" by auto
  note heap = stop_stream_heap [OF a(1,2), of io]
  have same: "heap (stop_stream io n a) ! b = heap n ! b" if "b \<in> set as" for b
    using that a(3) heap by (cases "b = a") auto
  have "distinct as" "\<forall>b \<in> set as. b < length (heap (stop_stream io n a)) \<and> 0 \<le> st_fd (heap (stop_stream io n a) ! b)"
    using Cons.prems same heap by auto
  from Cons.IH [OF this] a same show ?case
    by (auto simp: heap stop_stream_ops [OF a(1,2)] nth_list_update_if cong: map_cong)
qed simp

lemma node_wf_addresses:
  assumes "node_wf n"
  shows "distinct (map snd (streams n))"
    "\<forall>a \<in> set (map snd (streams n)). a < length (heap n) \<and> 0 \<le> st_fd (heap n ! a)"
  using assms node_wf_stream_live [OF assms] by (auto simp: node_wf_def table_wf_def rev_image_eqI)

lemma tidy_stop:
  assumes wf: "node_wf n" and t: "tidy n"
  shows "tidy (node_stop tstop io n)"
proof (cases "running n")
  case True
  define m where "m = (if idle_thread n = Joinable then n\<lparr>running := False, transport := tstop (transport n), idle_thread := Joined,
      streams := [], streams_per_client := []\<rparr>
    else n\<lparr>running := False, transport := tstop (transport n), streams := [], streams_per_client := []\<rparr>)"
  have m: "node_stop tstop io n = foldl (stop_stream io) m (map snd (streams n))" "heap m = heap n" "terminated m = terminated n"
    using True by (auto simp: node_stop_def Let_def m_def)
  have "\<not> rx_running (closed_object False (heap n ! b))" if "b < length (heap n)" for b
    using t that by (auto simp: tidy_def closed_object_def)
  moreover note foldl_stop_heap [of "map snd (streams n)" m io] node_wf_addresses [OF wf]
  ultimately show ?thesis
    using t unfolding m(1) by (auto simp: tidy_def m split: if_splits)
qed (use t in \<open>simp add: node_stop_def\<close>)

lemma tidy_start: "tidy n \<Longrightarrow> tidy (snd (node_start set_handler tstart n))"
  by (simp add: node_start_def Let_def tidy_def split: prod.splits)

end
