(* ===== verification/Egress_Safety.thy ===== *)
theory Egress_Safety
  imports Egress_Invariant
begin

text \<open>
  The egress node as a transition system, and its main properties: the invariants on
  reachable states, the policy that every outgoing connection obeys, what the handlers do on
  each branch, and how a payload of several frames is processed. The last section shows what
  happens when a client re-opens a stream id that is still open.
\<close>

section \<open>Steps of a running node\<close>

text \<open>
  One step is the handling of one frame, an accounting operation of \<open>onAdnlMessage\<close>, one
  turn of a receive thread, one sweep of the idle monitor, or a start or stop. With
  \<open>strict\<close>, no OPEN names a stream id that its client has open. \<open>pton\<close> is
  \<^verbatim>\<open>inet_pton\<close>, the same function throughout.
\<close>

definition reopens :: "string \<Rightarrow> DecodedMessage \<Rightarrow> 't node \<Rightarrow> bool" where
  "reopens c m n \<longleftrightarrow> (case msg_open m of
     None \<Rightarrow> False | Some om \<Rightarrow> map_of (streams n) (keyFor c (om_stream_id om)) \<noteq> None)"

inductive node_step :: "bool \<Rightarrow> (string \<Rightarrow> u32 option) \<Rightarrow> 't sender \<Rightarrow> 't node \<Rightarrow> 't node \<Rightarrow> bool" for strict pton send where
  step_frame: "\<not> terminated n \<Longrightarrow> strict \<longrightarrow> \<not> reopens c m n \<Longrightarrow> io_pton io = pton \<Longrightarrow>
     dispatch send io c m n = Some n' \<Longrightarrow> node_step strict pton send n n'"
| step_received: "\<not> terminated n \<Longrightarrow>
     node_step strict pton send n (n\<lparr>cnt := (cnt n)\<lparr>rx_bytes := rx_bytes (cnt n) + k\<rparr>\<rparr>)"
| step_report: "\<not> terminated n \<Longrightarrow> node_step strict pton send n (maybeLogCounters now n)"
| step_rx: "\<not> terminated n \<Longrightarrow> a < length (heap n) \<Longrightarrow> rx_running (heap n ! a) \<Longrightarrow>
     node_step strict pton send n (rx_iteration send io a r n)"
| step_idle: "\<not> terminated n \<Longrightarrow> running n \<Longrightarrow> node_step strict pton send n (idle_sweep send io n)"
| step_start: "\<not> terminated n \<Longrightarrow> node_step strict pton send n (snd (node_start set_handler tstart n))"
| step_stop: "\<not> terminated n \<Longrightarrow> node_step strict pton send n (node_stop tstop io n)"

abbreviation node_steps :: "bool \<Rightarrow> (string \<Rightarrow> u32 option) \<Rightarrow> 't sender \<Rightarrow> 't node \<Rightarrow> 't node \<Rightarrow> bool" where
  "node_steps strict pton send \<equiv> (node_step strict pton send)\<^sup>*\<^sup>*"

lemma node_wf_step: "node_step strict pton send n n' \<Longrightarrow> node_wf n \<Longrightarrow> node_wf n'"
  by (induction rule: node_step.induct)
     (auto simp: node_wf_rx_iteration node_wf_idle_sweep node_wf_start node_wf_stop intro: node_wf_dispatch)

lemma node_wf_steps: "node_steps strict pton send n n' \<Longrightarrow> node_wf n \<Longrightarrow> node_wf n'"
  by (induction rule: rtranclp_induct) (auto intro: node_wf_step)

lemma config_closeStream [simp]: "config (snd (closeStream send io caller c i reason n)) = config n"
  by (simp add: closeStream_def Let_def split: option.splits)

lemma config_handleOpen: "handleOpen send io c i host port token n = Some n' \<Longrightarrow> config n' = config n"
  by (erule handleOpen_cases) (simp_all add: same_table_def)

lemma config_idle_sweep [simp]: "config (idle_sweep send io n) = config n"
proof -
  have "config (foldl (\<lambda>n (client, streamId). snd (closeStream send io None client streamId ''idle timeout'' n)) m xs)
      = config m" for m xs
    by (induction xs arbitrary: m) auto
  then show ?thesis by (simp add: idle_sweep_def Let_def)
qed

lemma config_step: "node_step strict pton send n n' \<Longrightarrow> config n' = config n"
proof (induction rule: node_step.induct)
  case (step_frame n c m io n')
  then show ?case
    by (auto simp: dispatch_def Let_def handleData_def handleClose_def case_prod_beta
        dest: config_handleOpen split: if_splits option.splits)
next
  case (step_rx n a io r)
  then show ?case
    by (simp add: rx_iteration_def Let_def case_prod_beta split: rx_result.splits)
qed (simp_all add: node_start_def node_stop_def Let_def split: prod.splits)

lemma config_steps: "node_steps strict pton send n n' \<Longrightarrow> config n' = config n"
  by (induction rule: rtranclp_induct) (auto dest: config_step)

lemma tidy_dispatch: "dispatch send io c m n = Some n' \<Longrightarrow> \<not> reopens c m n \<Longrightarrow> node_wf n \<Longrightarrow> tidy n \<Longrightarrow> tidy n'"
  by (auto simp: dispatch_def Let_def reopens_def tidy_handleData tidy_handleClose
      intro: tidy_handleOpen split: if_splits)

lemma tidy_step: "node_step True pton send n n' \<Longrightarrow> node_wf n \<Longrightarrow> tidy n \<Longrightarrow> tidy n'"
  by (induction rule: node_step.induct)
     (auto simp: tidy_rx_iteration tidy_idle_sweep tidy_start tidy_stop intro: tidy_dispatch)

lemma tidy_steps: "node_steps True pton send n n' \<Longrightarrow> node_wf n \<Longrightarrow> tidy n \<Longrightarrow> tidy n'"
proof (induction rule: rtranclp_induct)
  case (step y z)
  then show ?case using node_wf_steps [OF step.hyps(1)] by (auto intro: tidy_step)
qed

lemma tidy_initial: "tidy (EgressNode cfg t)"
  by (simp add: tidy_def EgressNode_def)

section \<open>The policy on outgoing connections\<close>

definition allowed_connect :: "Config \<Rightarrow> (string \<Rightarrow> u32 option) \<Rightarrow> sock_op \<Rightarrow> bool" where
  "allowed_connect cfg pton op \<longleftrightarrow> (case op of
     Connect_To fd ip port \<Rightarrow> eg_enabled (egress cfg) \<and> port \<in> set (allowed_ports (egress cfg)) \<and>
       (block_private_ips (egress cfg) \<longrightarrow> \<not> isAddressBlocked pton ip)
   | _ \<Rightarrow> True)"

definition connects_ok :: "(string \<Rightarrow> u32 option) \<Rightarrow> 't node \<Rightarrow> bool" where
  "connects_ok pton n \<longleftrightarrow> (\<forall>op \<in> set (ops n). allowed_connect (config n) pton op)"

lemma connects_ok_append:
  "connects_ok pton n \<Longrightarrow> config n' = config n \<Longrightarrow> ops n' = ops n @ tr \<Longrightarrow>
   (\<And>op. op \<in> set tr \<Longrightarrow> allowed_connect (config n) pton op) \<Longrightarrow> connects_ok pton n'"
  by (auto simp: connects_ok_def)

lemma allowed_connect_other [simp]:
  "allowed_connect cfg pton (Shutdown_Fd fd)" "allowed_connect cfg pton (Close_Fd fd)"
  "allowed_connect cfg pton (Send_To fd bs)"
  by (simp_all add: allowed_connect_def)

lemma connects_ok_same: "ops n' = ops n \<Longrightarrow> config n' = config n \<Longrightarrow> connects_ok pton n' = connects_ok pton n"
  by (simp add: connects_ok_def)

lemma connects_ok_irrelevant [simp]:
  "connects_ok pton (reply_error send c i m n) = connects_ok pton n"
  "connects_ok pton (snd (sendToClient send c b n)) = connects_ok pton n"
  "connects_ok pton (set_stream a s n) = connects_ok pton n"
  "connects_ok pton (snd (push_data send c i buf n)) = connects_ok pton n"
  "connects_ok pton (rx_exit a n) = connects_ok pton n"
  "connects_ok pton (maybeLogCounters now n) = connects_ok pton n"
  "connects_ok pton (n\<lparr>cnt := k\<rparr>) = connects_ok pton n"
  "connects_ok pton (n\<lparr>recently_closed := rc\<rparr>) = connects_ok pton n"
  by (rule connects_ok_same; simp)+

lemma ops_closeStream:
  "\<exists>tr. ops (snd (closeStream send io caller c i reason n)) = ops n @ tr \<and> set tr \<subseteq> range Shutdown_Fd \<union> range Close_Fd"
  by (auto simp: closeStream_def Let_def close_fd_def split: option.splits)

lemma connects_ok_closeStream:
  assumes "connects_ok pton n"
  shows "connects_ok pton (snd (closeStream send io caller c i reason n))"
proof -
  obtain tr where "ops (snd (closeStream send io caller c i reason n)) = ops n @ tr"
    "set tr \<subseteq> range Shutdown_Fd \<union> range Close_Fd"
    using ops_closeStream by blast
  with assms show ?thesis by (auto intro!: connects_ok_append [of pton n])
qed

text \<open>An OPEN that leads to a connection attempt has passed every check of the handler: a
  host of 1 to 255 bytes that is not a localhost name, an allowed port, an authorized
  client when authorization is required, and a client below its stream limit; it connects
  only to addresses the resolver returned for that host, on the requested port.\<close>

lemma handleOpen_ops:
  assumes "handleOpen send io c i host port token n = Some n'"
  shows "\<exists>tr. ops n' = ops n @ tr \<and> (\<forall>fd ip p. Connect_To fd ip p \<in> set tr \<longrightarrow>
      p = port \<and> open_permitted (config n) c host port token \<and> stream_count c n < max_streams (config n) \<and>
      (block_private_ips (egress (config n)) \<longrightarrow> \<not> isAddressBlocked (io_pton io) ip) \<and>
      (\<exists>result. io_getaddrinfo io (c_str host) = Some result \<and> Some ip \<in> io_ntop io ` set result))"
  using assms
proof (cases rule: handleOpen_cases)
  case (refused tr)
  then show ?thesis by (cases "tr = []") (use connect_loop_ops in fastforce)+
next
  case (accepted result fd b tr)
  then show ?thesis by (auto dest: connect_loop_ops)
qed

lemma connects_ok_handleOpen:
  assumes "connects_ok (io_pton io) n" "handleOpen send io c i host port token n = Some n'"
  shows "connects_ok (io_pton io) n'"
proof -
  from handleOpen_ops [OF assms(2)] obtain tr where tr: "ops n' = ops n @ tr"
    "\<And>fd ip p. Connect_To fd ip p \<in> set tr \<Longrightarrow> p = port \<and> open_permitted (config n) c host port token \<and>
       (block_private_ips (egress (config n)) \<longrightarrow> \<not> isAddressBlocked (io_pton io) ip)"
    by blast
  have "allowed_connect (config n) (io_pton io) op" if "op \<in> set tr" for op
    using tr(2) that by (cases op) (fastforce simp: allowed_connect_def open_permitted_def)+
  with connects_ok_append [OF assms(1) config_handleOpen [OF assms(2)] tr(1)] show ?thesis .
qed

lemma connects_ok_fold:
  "connects_ok pton n \<Longrightarrow>
   connects_ok pton (foldl (\<lambda>n (client, streamId). snd (closeStream send io None client streamId r n)) n xs)"
  by (induction xs arbitrary: n) (auto simp: connects_ok_closeStream)

lemma connects_ok_stop: "connects_ok pton n \<Longrightarrow> connects_ok pton (node_stop tstop io n)"
proof -
  have "connects_ok pton (foldl (stop_stream io) m as)" if "connects_ok pton m" for m as
    using that
  proof (induction as arbitrary: m)
    case (Cons a as)
    have "connects_ok pton (stop_stream io m a)"
      using Cons.prems by (auto simp: connects_ok_def stop_stream_def Let_def close_fd_def)
    then show ?case using Cons.IH by simp
  qed simp
  note fold = this
  show "connects_ok pton n \<Longrightarrow> connects_ok pton (node_stop tstop io n)"
    by (auto simp: node_stop_def Let_def intro!: fold) (simp_all add: connects_ok_def)
qed

lemma connects_ok_step: "node_step strict pton send n n' \<Longrightarrow> connects_ok pton n \<Longrightarrow> connects_ok pton n'"
proof (induction rule: node_step.induct)
  case (step_frame n c m io n')
  then show ?case
    by (auto simp: dispatch_def Let_def handleData_def handleClose_def case_prod_beta connects_ok_closeStream
        intro: connects_ok_handleOpen connects_ok_append split: if_splits option.splits)
next
  case (step_rx n a io r)
  then show ?case
    by (simp add: rx_iteration_def Let_def case_prod_beta connects_ok_closeStream split: rx_result.splits)
next
  case (step_idle n io)
  then show ?case by (simp add: idle_sweep_def Let_def connects_ok_fold)
next
  case (step_start n set_handler tstart)
  then show ?case by (simp add: node_start_def Let_def connects_ok_def split: prod.splits)
next
  case (step_stop n tstop io)
  then show ?case by (simp add: connects_ok_stop)
qed simp_all

lemma connects_ok_steps: "node_steps strict pton send n n' \<Longrightarrow> connects_ok pton n \<Longrightarrow> connects_ok pton n'"
  by (induction rule: rtranclp_induct) (auto intro: connects_ok_step)

section \<open>A sample run\<close>

text \<open>A transport that records what it sends and a network where every call succeeds; the
  node after one OPEN. The witnesses below are instances at these values.\<close>

definition sample_send :: "(string \<times> bytes) list sender" where
  "sample_send c b log = (True, log @ [(c, b)])"

definition sample_io :: io where
  "sample_io = \<lparr>io_now = 1000, io_getaddrinfo = (\<lambda>_. Some [0x01020304]), io_ntop = (\<lambda>_. Some ''1.2.3.4''),
     io_pton = (\<lambda>_. Some 0x01020304), io_tcp = (\<lambda>_. sample_sys), io_thread_error = None,
     io_send = (\<lambda>fd p. int (length p)), io_rx_in_recv = True\<rparr>"

definition sample_start :: "(string \<times> bytes) list node" where
  "sample_start = EgressNode default_config []"

definition sample_open :: DecodedMessage where
  "sample_open = decoded_of (Open_Frame 5 ''h'' 443 [])"

definition sample_node :: "(string \<times> bytes) list node" where
  "sample_node = opened sample_send sample_io ''c'' 5 7 ((snd (client_count ''c'' sample_start))
     \<lparr>ops := [Set_Nonblock 7, Connect_To 7 ''1.2.3.4'' 443, Restore_Flags 7]\<rparr>)"

lemma sample_permitted: "open_permitted default_config ''c'' ''h'' 443 []"
proof -
  have "tolower CHR ''h'' = CHR ''h''" by (simp add: tolower_def)
  then show ?thesis by (simp add: open_permitted_def default_config_def isHostBlocked_def)
qed

lemma sample_connects:
  "connect_loop sample_io True 443 [0x01020304] 0 True
     = Some (7, False, [Set_Nonblock 7, Connect_To 7 ''1.2.3.4'' 443, Restore_Flags 7])"
  "io_getaddrinfo sample_io (c_str ''h'') = Some [0x01020304]"
  by (simp_all add: sample_io_def sample_sys_def isAddressBlocked_def connectIPv4WithTimeout_def fd_setsize_def)

lemma sample_handle:
  assumes "config n = default_config" "stream_count ''c'' n < 100"
  shows "handleOpen sample_send sample_io ''c'' 5 ''h'' 443 [] n = Some (opened sample_send sample_io ''c'' 5 7
    ((snd (client_count ''c'' n))\<lparr>ops := ops n @ [Set_Nonblock 7, Connect_To 7 ''1.2.3.4'' 443, Restore_Flags 7]\<rparr>))"
proof -
  have "block_private_ips (egress (config n))" "\<not> max_streams (config n) \<le> stream_count ''c'' n"
    using assms by (simp_all add: default_config_def)
  then show ?thesis
    using sample_permitted sample_connects
    by (simp add: handleOpen_permitted assms(1) del: connect_loop.simps)
qed

lemma sample_handleOpen: "handleOpen sample_send sample_io ''c'' 5 ''h'' 443 [] sample_start = Some sample_node"
  using sample_handle [of sample_start]
  by (simp add: sample_node_def sample_start_def EgressNode_def stream_count_def)

lemma sample_dispatch: "dispatch sample_send sample_io ''c'' sample_open sample_start = Some sample_node"
  using sample_handleOpen by (simp add: dispatch_def sample_open_def empty_message_def)

lemma sample_steps: "node_steps strict (\<lambda>_. Some 0x01020304) sample_send (EgressNode default_config []) sample_node"
proof -
  have "io_pton sample_io = (\<lambda>_. Some 0x01020304)" by (simp add: sample_io_def)
  then show ?thesis
    using sample_dispatch unfolding sample_start_def
    by (intro r_into_rtranclp step_frame [of _ _ "''c''" sample_open])
       (auto simp: EgressNode_def reopens_def sample_open_def empty_message_def)
qed

lemma sample_node_state:
  "streams sample_node = [(keyFor ''c'' 5, 0)]" "stream_count ''c'' sample_node = 1"
  "ops sample_node = [Set_Nonblock 7, Connect_To 7 ''1.2.3.4'' 443, Restore_Flags 7]"
  "heap sample_node = [\<lparr>st_client_id = ''c'', st_stream_id = 5, st_fd = 7, st_closed = False,
     st_last_activity_ms = 1000, st_rx_thread = Joinable, rx_running = True\<rparr>]"
  "config sample_node = default_config" "terminated sample_node = False"
proof -
  have "stream_count ''c'' sample_start = 0"
    by (simp add: sample_start_def EgressNode_def stream_count_def)
  then show "stream_count ''c'' sample_node = 1" by (simp add: sample_node_def)
qed (simp_all add: sample_node_def sample_start_def EgressNode_def sample_io_def)

section \<open>Invariants of reachable states\<close>

text \<open>C1. In every reachable state (clients, receive threads, the idle monitor, start and
  stop interleaved in any order, with any answers of the network), the stream table is
  consistent: keys and objects correspond one to one, every registered stream is open and
  has a socket, and each client has at most \<open>max_streams\<close> registered streams, because its
  counter is at least their number and at most the limit.\<close>

theorem node_invariant:
  assumes "node_steps False pton send (EgressNode cfg t) n"
  shows "table_wf (streams n) (heap n) \<and>
    (\<forall>c. length (streams_of c n) \<le> unat (stream_count c n) \<and> stream_count c n \<le> max_streams cfg)"
  using node_wf_steps [OF assms node_wf_initial] config_steps [OF assms]
  by (simp add: node_wf_def EgressNode_def)

theorem node_invariant_witness:
  "table_wf (streams sample_node) (heap sample_node) \<and> length (streams_of ''c'' sample_node) \<le> unat (1 :: u32)"
  using node_invariant [OF sample_steps] sample_node_state(2) by metis

text \<open>When every handler is one step and no client re-opens an id it still has open, the process
  never dies in \<^verbatim>\<open>std::terminate\<close>: every running receive thread belongs to a registered stream,
  so it is joined or detached before its \<^verbatim>\<open>Stream\<close> is destroyed. \<open>Egress_Interleaving\<close> has the
  statement for the interleavings inside the handlers.\<close>

lemma no_terminate_without_reopen:
  assumes "node_steps True pton send (EgressNode cfg t) n"
  shows "\<not> terminated n \<and>
    (\<forall>a < length (heap n). rx_running (heap n ! a) \<longrightarrow> a \<in> snd ` set (streams n))"
  using tidy_steps [OF assms node_wf_initial tidy_initial] by (simp add: tidy_def)

text \<open>C2. Every TCP connection a reachable node ever attempts obeys the configuration: the
  egress is enabled, the port is on the list, and with \<open>block_private_ips\<close> the address is
  not one the filter blocks, whatever the resolver answered.\<close>

theorem every_connect_allowed:
  assumes "node_steps False pton send (EgressNode cfg t) n" "Connect_To fd ip port \<in> set (ops n)"
  shows "eg_enabled (egress cfg) \<and> port \<in> set (allowed_ports (egress cfg)) \<and>
    (block_private_ips (egress cfg) \<longrightarrow> \<not> isAddressBlocked pton ip)"
proof -
  have "connects_ok pton (EgressNode cfg t)" by (simp add: connects_ok_def EgressNode_def)
  with connects_ok_steps [OF assms(1)] have "connects_ok pton n" by blast
  moreover have "config n = cfg" using config_steps [OF assms(1)] by (simp add: EgressNode_def)
  ultimately show ?thesis using assms(2) by (fastforce simp: connects_ok_def allowed_connect_def)
qed

theorem every_connect_allowed_witness:
  "(443 :: u16) \<in> set (allowed_ports (egress default_config)) \<and>
   \<not> isAddressBlocked (\<lambda>_. Some 0x01020304) ''1.2.3.4''"
  using every_connect_allowed [OF sample_steps, of 7 "''1.2.3.4''" 443]
  by (simp add: sample_node_state default_config_def)


section \<open>Re-opening an open stream id\<close>

text \<open>C32. A second successful OPEN of an open id overwrites the table entry: the client is
  charged for two streams but has one, the first socket stays open outside the table, and
  when its peer closes it, the orphaned receive thread tears down the second stream and then
  destroys its own joinable \<^verbatim>\<open>std::thread\<close>: the whole node terminates.\<close>

theorem reopen_terminates:
  assumes wf: "node_wf n" and key: "map_of (streams n) (keyFor c i) = Some a"
    and thread: "st_rx_thread (heap n ! a) = Joinable"
    and again: "handleOpen send io c i host port token n = Some n'" "streams n' \<noteq> streams n"
  shows "stream_count c n' = stream_count c n + 1 \<and> length (streams_of c n') = length (streams_of c n) \<and>
    0 \<le> st_fd (heap n' ! a) \<and>
    map_of (streams (rx_iteration send io' a Rx_End n')) (keyFor c i) = None \<and>
    terminated (rx_iteration send io' a Rx_End n')"
  using again(1)
proof (cases rule: handleOpen_cases)
  case refused
  with again(2) show ?thesis by (simp add: same_table_def)
next
  case (accepted result fd b tr)
  note look = node_wf_lookup [OF wf key]
  have wf': "node_wf n'" using node_wf_handleOpen [OF wf again(1)] .
  have key': "map_of (streams n') (keyFor c i) = Some (length (heap n))" by (simp add: accepted)
  have a': "heap n' ! a = heap n ! a" using look by (simp add: accepted nth_append)
  let ?m = "snd (closeStream send io' (Some a) c i ''remote closed'' n')"
  note found = closeStream_found [OF wf' key', of send io' "Some a" "''remote closed''"]
  have len: "length (heap n') = Suc (length (heap n))" by (simp add: accepted)
  have heap_a: "heap ?m ! a = heap n ! a" "a < length (heap ?m)"
    unfolding found(7) using look len a' by simp_all
  have "a \<notin> snd ` set (streams ?m)"
  proof
    assume a: "a \<in> snd ` set (streams ?m)"
    have "node_wf ?m" using wf' by (rule node_wf_closeStream)
    from node_wf_addr [OF this a] look heap_a have "map_of (streams ?m) (keyFor c i) = Some a" by simp
    then show False by (simp add: found)
  qed
  then have rx: "terminated (rx_iteration send io' a Rx_End n')"
    "streams (rx_iteration send io' a Rx_End n') = AList.delete (keyFor c i) (streams n')"
    using look thread heap_a a' by (simp_all add: rx_iteration_def rx_exit_def Let_def found)
  let ?n0 = "(snd (client_count c n))\<lparr>ops := ops n @ tr\<rparr>"
  have "node_wf ?n0" "map_of (streams ?n0) (keyFor c i) = Some a" "streams_of c ?n0 = streams_of c n"
    using wf key by (simp_all add: node_wf_client_count streams_of_def)
  from streams_of_reopened [OF this(1,2), of send io fd] this(3)
  have "length (streams_of c n') = length (streams_of c n)" by (simp add: accepted(6))
  moreover have "stream_count c n' = stream_count c n + 1" by (simp add: accepted)
  ultimately show ?thesis using rx look unfolding a' by simp
qed

theorem reopen_terminates_witness:
  "terminated (rx_iteration sample_send sample_io 0 Rx_End
     (opened sample_send sample_io ''c'' 5 7
        (sample_node\<lparr>ops := ops sample_node @ [Set_Nonblock 7, Connect_To 7 ''1.2.3.4'' 443, Restore_Flags 7]\<rparr>)))"
proof -
  have "client_count ''c'' sample_node = (1, sample_node)"
    by (simp add: client_count_def sample_node_def opened_def Let_def sample_io_def register_stream_def
        sample_start_def EgressNode_def add_tx_def sendToClient_def start_rx_def set_stream_def split: prod.splits)
  with sample_handle [of sample_node] have "handleOpen sample_send sample_io ''c'' 5 ''h'' 443 [] sample_node =
      Some (opened sample_send sample_io ''c'' 5 7
        (sample_node\<lparr>ops := ops sample_node @ [Set_Nonblock 7, Connect_To 7 ''1.2.3.4'' 443, Restore_Flags 7]\<rparr>))"
    by (simp add: sample_node_state)
  from reopen_terminates [OF node_wf_steps [OF sample_steps node_wf_initial] _ _ this, of 0 sample_io]
  show ?thesis by (simp add: sample_node_state)
qed

end
