(* ===== verification/Egress_Behaviour.thy ===== *)
theory Egress_Behaviour
  imports Egress_Safety
begin

text \<open>
  The functional behaviour of the egress node. Its abstract state is a finite map
  \<open>active\<close> from (client, stream id) to the TCP descriptor; the handlers refine the obvious
  operations on it. On top of that: isolation of clients from each other, DATA in both
  directions, the idle sweep, shutdown, and a payload of several frames.
\<close>

section \<open>The abstract stream map\<close>

definition active :: "'t node \<Rightarrow> string \<times> u32 \<rightharpoonup> int" where
  "active n = (\<lambda>(c, i). map_option (\<lambda>a. st_fd (heap n ! a)) (map_of (streams n) (keyFor c i)))"

lemma active_cong: "streams n' = streams n \<Longrightarrow> heap n' = heap n \<Longrightarrow> active n' = active n"
  by (simp add: active_def)

lemma active_irrelevant [simp]:
  "active (reply_error send c i m n) = active n"
  "active (snd (sendToClient send c b n)) = active n"
  "active (snd (push_data send c i buf n)) = active n"
  "active (n\<lparr>cnt := k\<rparr>) = active n"
  "active (n\<lparr>recently_closed := rc\<rparr>) = active n"
  "active (n\<lparr>ops := tr\<rparr>) = active n"
  "active (close_missing io c i n) = active n"
  "active (maybeLogCounters now n) = active n"
  by (rule active_cong; simp)+

lemma active_touch:
  "st_fd s = st_fd (heap n ! a) \<Longrightarrow> active (set_stream a s n) = active n"
  by (cases "a < length (heap n)")
     (auto simp: active_def fun_eq_iff nth_list_update map_option_case list_update_beyond split: option.splits)

lemma active_closeStream:
  assumes "node_wf n"
  shows "active (snd (closeStream send io caller c i reason n)) = (active n)((c, i) := None)"
proof (cases "map_of (streams n) (keyFor c i)")
  case None
  then show ?thesis by (auto simp: closeStream_missing active_def fun_eq_iff)
next
  case (Some a)
  note found = closeStream_found [OF assms Some, of send io caller reason]
  have other: "b \<noteq> a" if "map_of (streams n) (keyFor c' i') = Some b" "(c', i') \<noteq> (c, i)" for c' i' b
    using node_wf_lookup(2,3) [OF assms Some] node_wf_lookup(2,3) [OF assms that(1)] that(2) by auto
  show ?thesis
    unfolding active_def found(5,7)
    by (auto simp: fun_eq_iff map_option_case dest: other split: option.splits)
qed

lemma active_opened:
  assumes "node_wf n"
  shows "active (opened send io c i fd n) = (active n)((c, i) \<mapsto> fd)"
proof -
  have "a < length (heap n)" if "map_of (streams n) (keyFor c' i') = Some a" for c' i' a
    using node_wf_lookup(1) [OF assms that] .
  then show ?thesis
    by (auto simp: active_def fun_eq_iff nth_append map_option_case split: option.splits)
qed

lemma active_handleOpen:
  assumes wf: "node_wf n" and "handleOpen send io c i host port token n = Some n'"
  shows "active n' = active n \<or> (\<exists>fd \<ge> 0. active n' = (active n)((c, i) \<mapsto> fd))"
  using assms(2)
proof (cases rule: handleOpen_cases)
  case refused
  then show ?thesis using active_cong [of n' n] by (simp add: same_table_def)
next
  case (accepted result fd b tr)
  let ?n = "(snd (client_count c n))\<lparr>ops := ops n @ tr\<rparr>"
  have "node_wf ?n" using wf by (simp add: node_wf_client_count)
  moreover have "active ?n = active n" by (rule active_cong) simp_all
  ultimately show ?thesis using accepted(4,6) by (auto simp: active_opened)
qed

lemma active_handleData:
  assumes "node_wf n"
  shows "active (handleData send io c i p n) = active n \<or>
    active (handleData send io c i p n) = (active n)((c, i) := None)"
  by (auto simp: handleData_def Let_def active_closeStream [OF assms] active_touch split: option.splits)

lemma active_handleClose:
  assumes "node_wf n"
  shows "active (handleClose send io c i n) = (active n)((c, i) := None)"
  by (simp add: handleClose_def case_prod_beta active_closeStream [OF assms])

text \<open>The stale streams, as a predicate on (client, stream id).\<close>

definition stale :: "int \<Rightarrow> 't node \<Rightarrow> string \<times> u32 \<Rightarrow> bool" where
  "stale now n = (\<lambda>(c, i). case map_of (streams n) (keyFor c i) of
     None \<Rightarrow> False
   | Some a \<Rightarrow> now - st_last_activity_ms (heap n ! a) > int (unat (idle_timeout_sec (config n))) * 1000)"

lemma set_stale_streams:
  assumes wf: "node_wf n"
  shows "set (stale_streams now n) = {x. stale now n x}"
proof -
  let ?late = "\<lambda>a. now - st_last_activity_ms (heap n ! a) > int (unat (idle_timeout_sec (config n))) * 1000"
  have "(c, i) \<in> set (stale_streams now n) \<longleftrightarrow> stale now n (c, i)" for c i
  proof
    assume "(c, i) \<in> set (stale_streams now n)"
    then obtain k a where ka: "(k, a) \<in> set (streams n)" "?late a"
      "c = st_client_id (heap n ! a)" "i = st_stream_id (heap n ! a)"
      by (auto simp: stale_streams_def)
    from node_wf_addr [OF wf, of a] ka have "map_of (streams n) (keyFor c i) = Some a" by force
    with ka show "stale now n (c, i)" by (simp add: stale_def)
  next
    assume "stale now n (c, i)"
    then obtain a where a: "map_of (streams n) (keyFor c i) = Some a" "?late a"
      by (auto simp: stale_def split: option.splits)
    with node_wf_lookup(2,3) [OF wf a(1)] show "(c, i) \<in> set (stale_streams now n)"
      by (force simp: stale_streams_def dest: map_of_SomeD)
  qed
  then show ?thesis by auto
qed

lemma active_fold_close:
  assumes "node_wf n"
  shows "active (foldl (\<lambda>n (client, streamId). snd (closeStream send io None client streamId r n)) n xs)
    = (\<lambda>x. if x \<in> set xs then None else active n x)"
  using assms
proof (induction xs arbitrary: n)
  case (Cons x xs)
  then show ?case
    by (cases x) (auto simp: active_closeStream node_wf_closeStream fun_eq_iff)
qed simp

lemma active_idle_sweep:
  assumes "node_wf n"
  shows "active (idle_sweep send io n) = (\<lambda>x. if stale (io_now io) n x then None else active n x)"
  using assms by (simp add: idle_sweep_def Let_def active_fold_close set_stale_streams cong: if_cong)

text \<open>C11. The handlers refine a map from (client, stream id) to sockets: OPEN is refused or
  maps the id to a fresh connection, CLOSE unmaps exactly that id, DATA leaves the map alone
  or unmaps its own id, and the idle sweep unmaps exactly the streams whose last activity is
  more than \<open>idle_timeout_sec\<close> seconds ago.\<close>

theorem handlers_refine_stream_map:
  assumes "node_wf n"
  shows "(\<forall>n'. handleOpen send io c i host port token n = Some n' \<longrightarrow>
            active n' = active n \<or> (\<exists>fd \<ge> 0. active n' = (active n)((c, i) \<mapsto> fd))) \<and>
    active (handleClose send io c i n) = (active n)((c, i) := None) \<and>
    (active (handleData send io c i p n) = active n \<or>
     active (handleData send io c i p n) = (active n)((c, i) := None)) \<and>
    active (idle_sweep send io n) = (\<lambda>x. if stale (io_now io) n x then None else active n x)"
  using active_handleOpen [OF assms] active_handleClose [OF assms] active_handleData [OF assms]
    active_idle_sweep [OF assms] by blast

lemma sample_node_wf: "node_wf sample_node"
  using node_wf_steps [OF sample_steps node_wf_initial] .

theorem handlers_refine_stream_map_witness:
  "active sample_node (''c'', 5) = Some 7 \<and> active (handleClose sample_send sample_io ''c'' 5 sample_node) (''c'', 5) = None"
  using handlers_refine_stream_map [OF sample_node_wf, of sample_send sample_io "''c''" 5]
  by (simp add: active_def sample_node_state)


section \<open>The receive loop\<close>

lemma receive_loop_invariant:
  fixes P :: "'t node \<Rightarrow> bool"
  assumes step: "\<And>io m n n'. P n \<Longrightarrow> dispatch send io c m n = Some n' \<Longrightarrow> P n'"
  shows "receive_loop send ios c payload off n = Some (b, n') \<Longrightarrow> P n \<Longrightarrow> P n'"
proof (induction "length payload - off" arbitrary: off n rule: less_induct)
  case less
  show ?case
  proof (cases "\<exists>m off' n1. off < length payload \<and> next_frame payload off = Some (Some (m, off')) \<and>
      dispatch send (ios off) c m n = Some n1")
    case True
    then obtain m off' n1 where s: "off < length payload" "next_frame payload off = Some (Some (m, off'))"
      "dispatch send (ios off) c m n = Some n1" by blast
    from s less.prems(1) have "receive_loop send ios c payload off' n1 = Some (b, n')"
      by (simp add: receive_loop.simps [of _ _ _ _ off])
    moreover have "length payload - off' < length payload - off"
      using next_frame_progress [OF s(2)] s(1) by linarith
    ultimately show ?thesis using less.hyps [of off' n1] step [OF less.prems(2) s(3)] by blast
  next
    case False
    with less.prems show ?thesis
      by (subst (asm) receive_loop.simps) (auto split: if_splits option.splits)
  qed
qed

section \<open>Isolation of clients\<close>

text \<open>\<open>sent_to send c t t'\<close>: the transport moved from \<open>t\<close> to \<open>t'\<close> by sends to the client
  \<open>c\<close> alone.\<close>

inductive sent_to :: "'t sender \<Rightarrow> string \<Rightarrow> 't \<Rightarrow> 't \<Rightarrow> bool" for send c where
  sent_none [intro, simp]: "sent_to send c t t"
| sent_one [intro]: "sent_to send c t t' \<Longrightarrow> sent_to send c t (snd (send c b t'))"

lemma sent_to_trans: "sent_to send c t' t'' \<Longrightarrow> sent_to send c t t' \<Longrightarrow> sent_to send c t t''"
  by (induction rule: sent_to.induct) auto

lemma sent_to_send [simp]: "sent_to send c t (snd (send c b t))"
  using sent_one [OF sent_none] .

lemma sent_to_closeStream: "sent_to send c (transport n) (transport (snd (closeStream send io caller c i reason n)))"
  by (auto simp: closeStream_def Let_def split: option.splits)

lemma sent_to_opened: "sent_to send c (transport n) (transport (opened send io c i fd n))"
  by (auto simp: opened_def Let_def split: option.splits)

lemma sent_to_handleOpen:
  assumes "handleOpen send io c i host port token n = Some n'"
  shows "sent_to send c (transport n) (transport n')"
proof (cases "open_permitted (config n) c host port token")
  case False
  from handleOpen_not_permitted [OF False, of send io i] assms show ?thesis by auto
next
  case True
  have "sent_to send c (transport n) (transport (opened send io c i fd (snd (client_count c n)\<lparr>ops := tr\<rparr>)))" for fd tr
    using sent_to_opened [of send c "snd (client_count c n)\<lparr>ops := tr\<rparr>" io i fd] by simp
  with assms show ?thesis
    unfolding handleOpen_permitted [OF True] Let_def by (auto split: if_splits option.splits)
qed

lemma stream_count_closeStream:
  "c' \<noteq> c \<Longrightarrow> stream_count c' (snd (closeStream send io caller c i reason n)) = stream_count c' n"
  by (auto simp: closeStream_def Let_def stream_count_def split: option.splits)

lemma stream_count_handleOpen:
  assumes "handleOpen send io c i host port token n = Some n'" "c' \<noteq> c"
  shows "stream_count c' n' = stream_count c' n"
  using assms(1) by (cases rule: handleOpen_cases) (use assms(2) in \<open>auto simp: same_table_def\<close>)

definition isolated :: "'t sender \<Rightarrow> string \<Rightarrow> 't node \<Rightarrow> 't node \<Rightarrow> bool" where
  "isolated send c n n' \<longleftrightarrow> node_wf n' \<and> sent_to send c (transport n) (transport n') \<and>
     (\<forall>c' i. c' \<noteq> c \<longrightarrow> active n' (c', i) = active n (c', i) \<and> stream_count c' n' = stream_count c' n)"

lemma isolated_trans: "isolated send c n n' \<Longrightarrow> isolated send c n' n'' \<Longrightarrow> isolated send c n n''"
  by (auto simp: isolated_def intro: sent_to_trans)

lemma isolated_dispatch:
  assumes wf: "node_wf n" and d: "dispatch send io c m n = Some n'"
  shows "isolated send c n n'"
proof -
  have "isolated send c n (handleData send io c i p n)" for i p
  proof -
    have "sent_to send c (transport n) (transport (handleData send io c i p n)) \<and>
      (\<forall>c'. c' \<noteq> c \<longrightarrow> stream_count c' (handleData send io c i p n) = stream_count c' n)"
      by (auto simp: handleData_def Let_def sent_to_closeStream stream_count_closeStream split: option.splits)
    then show ?thesis
      using active_handleData [OF wf, of send io c i p] node_wf_handleData [OF wf]
      by (auto simp: isolated_def)
  qed
  moreover have "isolated send c n (handleClose send io c i n)" for i
    using active_handleClose [OF wf, of send io c i] node_wf_handleClose [OF wf, of send io c i]
      sent_to_closeStream [of send c n io None i "''client close''"]
    by (auto simp: isolated_def handleClose_def case_prod_beta stream_count_closeStream)
  moreover have "isolated send c n n''" if "handleOpen send io c i host port token n = Some n''"
    for n'' i host port token
    using active_handleOpen [OF wf that] node_wf_handleOpen [OF wf that] sent_to_handleOpen [OF that]
      stream_count_handleOpen [OF that] by (auto simp: isolated_def)
  moreover have "isolated send c n n" using wf by (simp add: isolated_def)
  ultimately show ?thesis
    using d by (auto simp: dispatch_def Let_def split: if_splits)
qed

lemma isolated_onAdnlMessage:
  assumes wf: "node_wf n" and m: "onAdnlMessage send ios c payload n = Some n'"
  shows "isolated send c n n'"
proof -
  let ?n0 = "n\<lparr>cnt := (cnt n)\<lparr>rx_bytes := rx_bytes (cnt n) + int (length payload)\<rparr>\<rparr>"
  from m obtain b n1 where loop: "receive_loop send ios c payload 0 ?n0 = Some (b, n1)"
    and n': "n' = (if b then maybeLogCounters (io_now (ios (length payload))) n1 else n1)"
    by (auto simp: onAdnlMessage_def Let_def split: option.splits bool.splits)
  have "isolated send c n n1"
  proof (rule receive_loop_invariant [OF _ loop])
    show "isolated send c n ?n0" using wf by (simp add: isolated_def)
  next
    fix io m k k' assume k: "isolated send c n k" and "dispatch send io c m k = Some k'"
    then have "isolated send c k k'" by (intro isolated_dispatch) (auto simp: isolated_def)
    with k show "isolated send c n k'" by (rule isolated_trans)
  qed
  moreover have "stream_count c' (maybeLogCounters t n1) = stream_count c' n1" for c' t
    by (simp add: stream_count_def)
  ultimately show ?thesis by (simp add: n' isolated_def)
qed

text \<open>C10. Clients are isolated: whatever payload a client sends, well-formed or not, the streams
  and stream counters of every other client stay as they were, and every frame the node
  emits while it handles the payload goes to that client.\<close>

theorem client_isolation:
  assumes "node_wf n" "onAdnlMessage send ios c payload n = Some n'"
  shows "sent_to send c (transport n) (transport n') \<and>
    (\<forall>c' i. c' \<noteq> c \<longrightarrow> active n' (c', i) = active n (c', i) \<and> stream_count c' n' = stream_count c' n)"
  using isolated_onAdnlMessage [OF assms] by (simp add: isolated_def)

section \<open>No undefined behaviour\<close>

lemma connect_loop_defined:
  assumes "\<And>k. sys_socket (io_tcp io k) < fd_setsize"
  shows "connect_loop io bp port ps k b \<noteq> None"
proof (induction ps arbitrary: k b)
  case (Cons p ps)
  then show ?case
    using connect_defined [OF assms]
    by (cases bp) (simp_all add: bind_eq_None_conv del: not_None_eq split: option.splits prod.splits)
qed simp

lemma handleOpen_defined:
  assumes "\<And>k. sys_socket (io_tcp io k) < fd_setsize"
  shows "handleOpen send io c i host port token n \<noteq> None"
proof (cases "open_permitted (config n) c host port token")
  case False
  from handleOpen_not_permitted [OF False, of send io i] show ?thesis by auto
next
  case True
  then show ?thesis
    using connect_loop_defined [OF assms]
    by (auto simp: handleOpen_permitted Let_def simp del: not_None_eq split: option.splits)
qed

lemma dispatch_defined:
  "(\<And>k. sys_socket (io_tcp io k) < fd_setsize) \<Longrightarrow> dispatch send io c m n \<noteq> None"
  using handleOpen_defined [of io] by (auto simp: dispatch_def Let_def)

lemma receive_loop_defined:
  assumes "\<And>off k. sys_socket (io_tcp (ios off) k) < fd_setsize"
  shows "receive_loop send ios c payload off n \<noteq> None"
proof (induction "length payload - off" arbitrary: off n rule: less_induct)
  case less
  have "receive_loop send ios c payload off' n' \<noteq> None"
    if "next_frame payload off = Some (Some (m, off'))" "off < length payload" for m off' n'
    using less [of off'] next_frame_progress [OF that(1)] that(2) by (simp add: diff_less_mono2)
  then show ?case
    using next_frame_safe [of payload off] dispatch_defined [of "ios off" send c _ n, OF assms]
    by (subst receive_loop.simps) (auto simp del: not_None_eq split: option.splits)
qed

lemma onAdnlMessage_defined:
  assumes "\<And>off k. sys_socket (io_tcp (ios off) k) < fd_setsize"
  shows "onAdnlMessage send ios c payload n \<noteq> None"
  using receive_loop_defined [of ios send c payload 0, OF assms]
  by (auto simp: onAdnlMessage_def Let_def split: option.splits bool.splits prod.splits)

lemma sample_sockets: "sys_socket (io_tcp sample_io k) < fd_setsize"
  by (simp add: sample_io_def sample_sys_def fd_setsize_def)

theorem client_isolation_witness:
  "\<exists>n'. onAdnlMessage sample_send (\<lambda>_. sample_io) ''d'' (wire (Close_Frame 5)) sample_node = Some n' \<and>
     active n' (''c'', 5) = Some 7"
proof -
  obtain n' where n': "onAdnlMessage sample_send (\<lambda>_. sample_io) ''d'' (wire (Close_Frame 5)) sample_node = Some n'"
    using onAdnlMessage_defined [of "\<lambda>_. sample_io"] sample_sockets by blast
  from client_isolation [OF sample_node_wf n'] have "active n' (''c'', 5) = active sample_node (''c'', 5)" by simp
  with n' show ?thesis by (simp add: active_def sample_node_state)
qed

text \<open>C13. Processing a message never leaves a buffer and always ends: for every byte string a
  client may send, every state and every answer of the network with descriptors below
  \<^verbatim>\<open>FD_SETSIZE\<close>, \<open>onAdnlMessage\<close> returns.\<close>

theorem onAdnlMessage_safe:
  assumes "\<forall>off k. sys_socket (io_tcp (ios off) k) < fd_setsize"
  shows "\<exists>n'. onAdnlMessage send ios c payload n = Some n'"
  using onAdnlMessage_defined assms by fastforce

theorem onAdnlMessage_safe_witness:
  "\<exists>n'. onAdnlMessage sample_send (\<lambda>_. sample_io) ''c'' [2, 0, 0, 0, 1, 255, 255, 255, 255] sample_node = Some n'"
  by (rule onAdnlMessage_safe) (simp add: sample_sockets)


section \<open>A payload of several frames\<close>

primrec run_frames :: "'t sender \<Rightarrow> io \<Rightarrow> string \<Rightarrow> frame list \<Rightarrow> 't node \<Rightarrow> 't node option" where
  "run_frames send io c [] n = Some n"
| "run_frames send io c (f # fs) n =
     (case dispatch send io c (decoded_of f) n of None \<Rightarrow> None | Some n' \<Rightarrow> run_frames send io c fs n')"

lemma receive_loop_parses:
  assumes "parses next_frame payload off (map decoded_of fs) off'"
  shows "receive_loop send (\<lambda>_. io) c payload off n =
    (case run_frames send io c fs n of None \<Rightarrow> None | Some n' \<Rightarrow> receive_loop send (\<lambda>_. io) c payload off' n')"
  using assms
proof (induction fs arbitrary: off n)
  case (Cons f fs)
  then show ?case
    by (subst receive_loop.simps) (auto simp: parses_Cons_iff split: option.splits)
qed simp

lemma run_frames_payload:
  assumes "\<forall>f \<in> set fs. frame_ok f"
  shows "receive_loop send (\<lambda>_. io) c (payload_of fs @ rest) 0 n =
    (case run_frames send io c fs n of None \<Rightarrow> None
     | Some n' \<Rightarrow> receive_loop send (\<lambda>_. io) c (payload_of fs @ rest) (length (payload_of fs)) n')"
  using server_frames.parses_payload [of fs "[]" rest] assms by (intro receive_loop_parses) auto

lemma onAdnlMessage_runs:
  assumes "\<forall>f \<in> set fs. frame_ok f"
  shows "onAdnlMessage send (\<lambda>_. io) c (payload_of fs) n =
    map_option (maybeLogCounters (io_now io))
      (run_frames send io c fs
         (n\<lparr>cnt := (cnt n)\<lparr>rx_bytes := rx_bytes (cnt n) + int (length (payload_of fs))\<rparr>\<rparr>))"
  using run_frames_payload [OF assms, of send io c "[]"]
  by (simp add: onAdnlMessage_def Let_def receive_loop.simps [of _ _ _ _ "length (payload_of fs)"]
      split: option.splits)



section \<open>DATA towards the target\<close>

lemma active_SomeD:
  assumes "active n (c, i) = Some fd"
  obtains a where "map_of (streams n) (keyFor c i) = Some a" "st_fd (heap n ! a) = fd"
  using assms by (auto simp: active_def)

lemma handleData_effect:
  assumes wf: "node_wf n" and fd: "active n (c, i) = Some fd"
    and size: "length p \<le> unat (max_payload_bytes (egress (config n)))"
  shows "let n' = handleData send io c i p n; sent = io_send io fd p in
    if p = [] then n' = n
    else if sent > 0 then
      active n' = active n \<and> ops n' = ops n @ [Send_To fd (take (nat sent) p)] \<and> transport n' = transport n
    else active n' = (active n)((c, i) := None) \<and> ops n' = ops n @ [Shutdown_Fd fd, Close_Fd fd] \<and>
      transport n' = snd (send c (encodeClose \<lparr>cm_stream_id = i\<rparr>) (transport n))"
proof -
  from fd obtain a where a: "map_of (streams n) (keyFor c i) = Some a" "st_fd (heap n ! a) = fd"
    by (rule active_SomeD)
  note look = node_wf_lookup [OF wf a(1)] and found = closeStream_found [OF wf a(1)]
  let ?sent = "io_send io fd p"
  from a look size have "handleData send io c i p n = (if p = [] then n
      else if ?sent \<le> 0 then snd (closeStream send io None c i ''tcp write failed'' n)
      else set_stream a ((heap n ! a)\<lparr>st_last_activity_ms := io_now io\<rparr>)
             (n\<lparr>ops := ops n @ [Send_To fd (take (nat ?sent) p)]\<rparr>))"
    by (auto simp: handleData_def Let_def)
  then show ?thesis
    by (auto simp: Let_def active_closeStream [OF wf] found a(2) active_touch)
qed

text \<open>C35. DATA for an open stream, within \<open>max_payload_bytes\<close>: an empty payload is ignored;
  otherwise one \<^verbatim>\<open>::send\<close> writes to that stream's socket whatever prefix the kernel accepts
  and nothing is reported back, so the rest of a partially accepted payload is lost; when
  the write fails the stream is closed, its socket released and the client told with CLOSE.\<close>

theorem handleData_open_stream:
  assumes wf: "node_wf n" and fd: "active n (c, i) = Some fd"
    and size: "length p \<le> unat (max_payload_bytes (egress (config n)))"
  shows "let n' = handleData send io c i p n; sent = io_send io fd p in
    if p = [] then n' = n
    else if sent > 0 then
      active n' = active n \<and> ops n' = ops n @ [Send_To fd (take (nat sent) p)] \<and> transport n' = transport n
    else active n' = (active n)((c, i) := None) \<and> ops n' = ops n @ [Shutdown_Fd fd, Close_Fd fd] \<and>
      transport n' = snd (send c (encodeClose \<lparr>cm_stream_id = i\<rparr>) (transport n))"
  using assms by (rule handleData_effect)

theorem handleData_open_stream_witness:
  "ops (handleData sample_send sample_io ''c'' 5 [1, 2, 3] sample_node) = ops sample_node @ [Send_To 7 [1, 2, 3]]"
  using handleData_open_stream [OF sample_node_wf, of "''c''" 5 7 "[1, 2, 3]" sample_send sample_io]
  by (simp add: active_def sample_node_state default_config_def)
     (simp add: sample_io_def Let_def sample_node_state)

lemma close_fd_recently_closed [simp]: "recently_closed (close_fd a n) = recently_closed n"
  by (simp add: close_fd_def Let_def)

lemma recently_closed_after:
  assumes "node_wf n"
  shows "map_of (recently_closed (snd (closeStream send io caller c i reason n))) (keyFor c i) = Some (io_now io)"
proof (cases "map_of (streams n) (keyFor c i)")
  case None
  then show ?thesis by (simp add: closeStream_missing close_missing_def)
next
  case (Some a)
  with node_wf_lookup [OF assms Some] show ?thesis
    by (auto simp: closeStream_def Let_def join_rx_def close_missing_def)
qed

text \<open>DATA that arrives after its stream was closed is dropped silently for two seconds and
  answered with ``stream not found'' after that, so a client that races with a close is not
  flooded with errors.\<close>

lemma data_after_close:
  assumes "node_wf n" "length p \<le> unat (max_payload_bytes (egress (config n)))"
  shows "handleData send io' c i p (snd (closeStream send io caller c i reason n)) =
    (let n' = snd (closeStream send io caller c i reason n) in
     if io_now io' - io_now io \<le> 2000 then n' else reply_error send c i ''stream not found'' n')"
proof -
  have "map_of (streams (snd (closeStream send io caller c i reason n))) (keyFor c i) = None"
    using fun_cong [OF active_closeStream [OF assms(1), of send io caller c i reason], of "(c, i)"]
    by (simp add: active_def)
  with assms(2) recently_closed_after [OF assms(1), of send io caller c i reason] show ?thesis
    by (simp add: handleData_def Let_def kRecentlyClosedGraceMs_def)
qed


section \<open>Shutdown\<close>

lemma node_stop_effect:
  assumes wf: "node_wf n" and running: "running n"
  shows "let n' = node_stop tstop io n in
    \<not> running n' \<and> active n' = Map.empty \<and> streams_per_client n' = [] \<and>
    ops n' = ops n @ concat (map (\<lambda>(k, a). [Shutdown_Fd (st_fd (heap n ! a)), Close_Fd (st_fd (heap n ! a))]) (streams n)) \<and>
    (\<forall>a \<in> snd ` set (streams n). st_fd (heap n' ! a) = -1 \<and> st_rx_thread (heap n' ! a) \<noteq> Joinable) \<and>
    transport n' = tstop (transport n) \<and> node_stop tstop' io' n' = n'"
proof -
  define m where "m = (if idle_thread n = Joinable then n\<lparr>running := False, transport := tstop (transport n), idle_thread := Joined,
      streams := [], streams_per_client := []\<rparr>
    else n\<lparr>running := False, transport := tstop (transport n), streams := [], streams_per_client := []\<rparr>)"
  let ?n' = "foldl (stop_stream io) m (map snd (streams n))"
  have n': "node_stop tstop io n = ?n'" using running by (auto simp: node_stop_def Let_def m_def)
  have m: "heap m = heap n" "streams m = []" "streams_per_client m = []" "ops m = ops n" "\<not> running m"
    "transport m = tstop (transport n)"
    by (auto simp: m_def)
  note addr = node_wf_addresses [OF wf]
  have "length (heap ?n') = length (heap n) \<and>
    (\<forall>b < length (heap n). heap ?n' ! b = (if b \<in> set (map snd (streams n)) then closed_object False (heap n ! b) else heap n ! b)) \<and>
    ops ?n' = ops n @ concat (map (\<lambda>a. [Shutdown_Fd (st_fd (heap n ! a)), Close_Fd (st_fd (heap n ! a))]) (map snd (streams n)))"
    using foldl_stop_heap [of "map snd (streams n)" m io] addr by (simp add: m)
  then show ?thesis
    using addr(2) unfolding n'
    by (auto simp: Let_def m active_def node_stop_def [of tstop'] comp_def case_prod_beta')
qed

text \<open>C36. Stopping a running node closes every socket of its table exactly once, in table
  order, forgets all streams and counters, leaves no receive thread of a registered stream
  running, and stopping again does nothing.\<close>

theorem node_stop_closes_all:
  assumes wf: "node_wf n" and running: "running n"
  shows "let n' = node_stop tstop io n in
    \<not> running n' \<and> active n' = Map.empty \<and> streams_per_client n' = [] \<and>
    ops n' = ops n @ concat (map (\<lambda>(k, a). [Shutdown_Fd (st_fd (heap n ! a)), Close_Fd (st_fd (heap n ! a))]) (streams n)) \<and>
    (\<forall>a \<in> snd ` set (streams n). st_fd (heap n' ! a) = -1 \<and> st_rx_thread (heap n' ! a) \<noteq> Joinable) \<and>
    transport n' = tstop (transport n) \<and> node_stop tstop' io' n' = n'"
  using assms by (rule node_stop_effect)

theorem node_stop_closes_all_witness:
  "ops (node_stop id sample_io (sample_node\<lparr>running := True\<rparr>)) = ops sample_node @ [Shutdown_Fd 7, Close_Fd 7]"
proof -
  have "node_wf (sample_node\<lparr>running := True\<rparr>)"
    using sample_node_wf node_wf_cong [of "sample_node\<lparr>running := True\<rparr>" sample_node] by simp
  from node_stop_closes_all [OF this, of id sample_io id sample_io] show ?thesis
    by (simp add: Let_def sample_node_state)
qed

section \<open>DATA towards the client\<close>

text \<open>What the transport contract gives the node: the frames of a handler reach its client, and
  a received buffer leaves as DATA frames of at most 1200 bytes whose payloads concatenate to
  the buffer, up to the first failed send.\<close>

context client_transport
begin

lemma sent_to_delivered:
  assumes "valid c"
  shows "sent_to send c t t' \<Longrightarrow> \<exists>fs. delivered t' = delivered t @ map (Pair c) fs"
proof (induction rule: sent_to.induct)
  case (sent_one t t' b)
  then obtain fs where "delivered t' = delivered t @ map (Pair c) fs" by blast
  then have "delivered (snd (send c b t')) = delivered t @ map (Pair c) (fs @ (if fst (send c b t') then [b] else []))"
    by (simp add: delivered_send [OF assms])
  then show ?case by blast
qed (auto intro: exI [of _ "[]"])

lemma push_data_delivered:
  assumes "valid c"
  shows "\<exists>k. delivered (transport (snd (push_data send c i buf n))) =
       delivered (transport n) @ map (\<lambda>ch. (c, data_frame i ch)) (take k (chunks kMaxDataChunkBytes buf)) \<and>
     (fst (push_data send c i buf n) \<longleftrightarrow> k = length (chunks kMaxDataChunkBytes buf))
     \<and> k \<le> length (chunks kMaxDataChunkBytes buf)"
proof (induction "length buf" arbitrary: buf n rule: less_induct)
  case less
  show ?case
  proof (cases "buf = []")
    case False
    let ?out = "data_frame i (take kMaxDataChunkBytes buf)" and ?rest = "drop kMaxDataChunkBytes buf"
    let ?n1 = "add_tx (length ?out) (snd (sendToClient send c ?out n))"
    have pos: "0 < kMaxDataChunkBytes" by (simp add: kMaxDataChunkBytes_def)
    note step = push_data_step [OF False, of send c i n, unfolded Let_def] and ch = chunks_step [OF pos False]
    show ?thesis
    proof (cases "fst (send c ?out (transport n))")
      case True
      from less [of ?rest ?n1] False pos obtain k where
        "delivered (transport (snd (push_data send c i ?rest ?n1))) =
          delivered (transport ?n1) @ map (\<lambda>ch. (c, data_frame i ch)) (take k (chunks kMaxDataChunkBytes ?rest))"
        "fst (push_data send c i ?rest ?n1) \<longleftrightarrow> k = length (chunks kMaxDataChunkBytes ?rest)"
        "k \<le> length (chunks kMaxDataChunkBytes ?rest)"
        by auto
      with True show ?thesis
        by (intro exI [of _ "Suc k"]) (simp add: step ch delivered_send [OF assms])
    next
      case False
      then show ?thesis
        by (intro exI [of _ 0]) (simp add: step ch delivered_send [OF assms])
    qed
  qed simp
qed

end

end
