(* ===== verification/Adnl_Backend.thy ===== *)
theory Adnl_Backend
  imports Egress_Behaviour
begin

text \<open>
  The server's ADNL runtime, \<^verbatim>\<open>ton-egress-node/src/ton_adnl_backend.cpp\<close>: the class
  \<^verbatim>\<open>AdnlBackendRuntime\<close>, its inbound callback and the C entry points. The TON library is
  outside the repository: a node id is a value of an arbitrary type \<open>'p\<close> with its
  \<open>serialize\<close> function as a parameter, key import and export are parameters of
  \<open>init_adnl_runtime\<close>, a \<^verbatim>\<open>td::Promise\<close> is a number whose resolution is recorded in
  \<open>answered\<close>, and \<^verbatim>\<open>Adnl::send_message\<close> appends to \<open>outbox\<close> (together with the
  client id the message was addressed by).
\<close>

section \<open>Keys\<close>

definition hex_to_int :: "char \<Rightarrow> int" where
  "hex_to_int c =
     (let v = (of_char c :: nat) in
      if 48 \<le> v \<and> v \<le> 57 then int v - 48
      else if 97 \<le> v \<and> v \<le> 102 then 10 + (int v - 97)
      else if 65 \<le> v \<and> v \<le> 70 then 10 + (int v - 65)
      else -1)"

fun decode_hex_pairs :: "string \<Rightarrow> bytes option" where
  "decode_hex_pairs (a # b # r) =
     (let hi = hex_to_int a; lo = hex_to_int b in
      if hi < 0 \<or> lo < 0 then None
      else map_option (\<lambda>bs. word_of_int (hi * 16 + lo) # bs) (decode_hex_pairs r))"
| "decode_hex_pairs _ = Some []"

definition maybe_decode_hex :: "string \<Rightarrow> bytes" where
  "maybe_decode_hex value =
     (if length value mod 2 \<noteq> 0 then []
      else case decode_hex_pairs value of None \<Rightarrow> [] | Some out \<Rightarrow> out)"

text \<open>\<open>pk_id\<close> is \<^verbatim>\<open>ton_api::pk_ed25519::ID\<close>, appended in memory order (little-endian).\<close>

definition to_tl_pk_ed25519 :: "u32 \<Rightarrow> bytes \<Rightarrow> string" where
  "to_tl_pk_ed25519 pk_id raw32 =
     str_of_bytes ([ucast pk_id, ucast (drop_bit 8 pk_id), ucast (drop_bit 16 pk_id), ucast (drop_bit 24 pk_id)] @ raw32)"

definition normalize_private_key_for_import :: "u32 \<Rightarrow> string \<Rightarrow> string" where
  "normalize_private_key_for_import pk_id value =
     (let raw = maybe_decode_hex value in
      if raw = [] then value
      else if length raw = 36 then str_of_bytes raw
      else if length raw = 32 then to_tl_pk_ed25519 pk_id raw
      else str_of_bytes raw)"

definition public_key_hex_from_full_id :: "(bytes \<Rightarrow> string) \<Rightarrow> bytes \<Rightarrow> string" where
  "public_key_hex_from_full_id hex_encode key_bin =
     hex_encode (if length key_bin \<ge> 36 then drop 4 key_bin else key_bin)"


section \<open>State\<close>

record adnl_counters =
  ac_tx_bytes :: int
  ac_rx_bytes :: int
  ac_open :: int
  ac_close :: int
  ac_error :: int
  ac_data_frames :: int

record 'p runtime =
  rt_private_key :: string
  rt_listen_address :: string
  rt_listen_port :: u16
  rt_running :: bool
  adnl_live :: bool
  subscribed :: bool
  local_address_public :: string
  on_message_set :: bool
  known_clients :: "(string \<times> 'p) list"
  pending_query_promises :: "(string \<times> nat) list"
  answered :: "(nat \<times> (string + bytes)) list"
  outbox :: "(string \<times> 'p \<times> bytes) list"
  ac :: adnl_counters
  ac_last_ms :: int
  ac_printed :: "adnl_counters list"
  clock_ms :: int

definition zero_adnl_counters :: adnl_counters where
  "zero_adnl_counters = \<lparr>ac_tx_bytes = 0, ac_rx_bytes = 0, ac_open = 0, ac_close = 0, ac_error = 0, ac_data_frames = 0\<rparr>"

definition AdnlBackendRuntime :: "string \<Rightarrow> string \<Rightarrow> u16 \<Rightarrow> 'p runtime" where
  "AdnlBackendRuntime key address port =
     \<lparr>rt_private_key = key, rt_listen_address = address, rt_listen_port = port,
      rt_running = False, adnl_live = False, subscribed = False, local_address_public = [],
      on_message_set = False, known_clients = [], pending_query_promises = [], answered = [], outbox = [],
      ac = zero_adnl_counters, ac_last_ms = 0, ac_printed = [], clock_ms = 0\<rparr>"

definition maybe_log_counters :: "'p runtime \<Rightarrow> 'p runtime" where
  "maybe_log_counters rt =
     (let now = clock_ms rt;
          rt = (if ac_last_ms rt = 0 then rt\<lparr>ac_last_ms := now\<rparr> else rt) in
      if now - ac_last_ms rt < 5000 then rt
      else rt\<lparr>ac_printed := ac_printed rt @ [ac rt], ac := zero_adnl_counters, ac_last_ms := now\<rparr>)"


section \<open>Start and stop\<close>

text \<open>\<open>import_key\<close> is \<^verbatim>\<open>ton::PrivateKey::import\<close> followed by the export of the public key
  (\<open>None\<close> when the import fails). On failure the function returns early, with
  \<^verbatim>\<open>adnl_\<close> created but without a local id.\<close>

definition init_adnl_runtime ::
  "u32 \<Rightarrow> (string \<Rightarrow> bytes option) \<Rightarrow> (bytes \<Rightarrow> string) \<Rightarrow> 'p runtime \<Rightarrow> 'p runtime" where
  "init_adnl_runtime pk_id import_key hex_encode rt =
     (let rt = rt\<lparr>adnl_live := True\<rparr>;
          normalized_key = normalize_private_key_for_import pk_id (rt_private_key rt) in
      case import_key normalized_key of
        None \<Rightarrow> rt
      | Some public_key \<Rightarrow>
          rt\<lparr>subscribed := True,
             local_address_public := public_key_hex_from_full_id hex_encode public_key @ ''@'' @
               rt_listen_address rt @ '':'' @ to_string (unat (rt_listen_port rt))\<rparr>)"

definition runtime_start ::
  "u32 \<Rightarrow> (string \<Rightarrow> bytes option) \<Rightarrow> (bytes \<Rightarrow> string) \<Rightarrow> 'p runtime \<Rightarrow> bool \<times> 'p runtime" where
  "runtime_start pk_id import_key hex_encode rt =
     (if rt_running rt then (True, rt)
      else (True, init_adnl_runtime pk_id import_key hex_encode (rt\<lparr>rt_running := True\<rparr>)))"

definition shutdown_adnl_runtime :: "'p runtime \<Rightarrow> 'p runtime" where
  "shutdown_adnl_runtime rt = rt\<lparr>adnl_live := False\<rparr>"

definition runtime_stop :: "'p runtime \<Rightarrow> 'p runtime" where
  "runtime_stop rt = (if \<not> rt_running rt then rt else shutdown_adnl_runtime (rt\<lparr>rt_running := False\<rparr>))"

definition runtime_setOnMessage :: "'p runtime \<Rightarrow> 'p runtime" where
  "runtime_setOnMessage rt = rt\<lparr>on_message_set := True\<rparr>"


section \<open>Sending and receiving\<close>

text \<open>The runtime has its own copies of the big-endian helpers.\<close>

definition read_u32_be :: "bytes \<Rightarrow> nat \<Rightarrow> u32 option" where
  "read_u32_be payload offset = do {
     a \<leftarrow> byte_at payload offset;
     b \<leftarrow> byte_at payload (offset + 1);
     c \<leftarrow> byte_at payload (offset + 2);
     d \<leftarrow> byte_at payload (offset + 3);
     Some (push_bit 24 (ucast a) OR push_bit 16 (ucast b) OR push_bit 8 (ucast c) OR ucast d)
   }"

definition write_u32_be :: "bytes \<Rightarrow> u32 \<Rightarrow> bytes" where
  "write_u32_be out value =
     (((out @ [ucast (drop_bit 24 value AND 0xFF)]) @ [ucast (drop_bit 16 value AND 0xFF)])
        @ [ucast (drop_bit 8 value AND 0xFF)]) @ [ucast (value AND 0xFF)]"

definition make_empty_data_ack :: "u32 \<Rightarrow> bytes" where
  "make_empty_data_ack stream_id = write_u32_be (write_u32_be [2] stream_id) 0"

lemma read_u32_be_eq [simp]: "read_u32_be payload offset = readU32 payload offset"
  by (simp add: read_u32_be_def readU32_def)

lemma make_empty_data_ack_wire: "make_empty_data_ack i = wire (Data_Frame i [])"
  by (simp add: make_empty_data_ack_def write_u32_be_def writeU32_def)

definition runtime_localAddress :: "'p runtime \<Rightarrow> string" where
  "runtime_localAddress rt = local_address_public rt"

definition extract_stream_key :: "string \<Rightarrow> bytes \<Rightarrow> string option" where
  "extract_stream_key client_id payload =
     (if length payload < 5 then Some []
      else do {
        stream_id \<leftarrow> read_u32_be payload 1;
        Some (client_id @ ''#'' @ to_string (unat stream_id))
      })"

definition count_frame :: "bytes \<Rightarrow> adnl_counters \<Rightarrow> adnl_counters" where
  "count_frame payload c =
     (let frame_type = hd payload;
          c = c\<lparr>ac_tx_bytes := ac_tx_bytes c + int (length payload)\<rparr>;
          c = (if frame_type = 1 then c\<lparr>ac_open := ac_open c + 1\<rparr> else c);
          c = (if frame_type = 3 then c\<lparr>ac_close := ac_close c + 1\<rparr> else c);
          c = (if frame_type = 4 then c\<lparr>ac_error := ac_error c + 1\<rparr> else c)
      in if frame_type = 2 then c\<lparr>ac_data_frames := ac_data_frames c + 1\<rparr> else c)"

definition runtime_sendToClient :: "string \<Rightarrow> bytes \<Rightarrow> 'p runtime \<Rightarrow> bool \<times> 'p runtime" where
  "runtime_sendToClient client_id payload rt =
     (if \<not> rt_running rt \<or> payload = [] \<or> \<not> adnl_live rt then (False, rt)
      else
        let stream_key = the (extract_stream_key client_id payload);
            rt = (if stream_key \<noteq> [] then
                    case map_of (pending_query_promises rt) stream_key of
                      Some promise \<Rightarrow>
                        rt\<lparr>answered := answered rt @ [(promise, Inr payload)],
                           pending_query_promises := AList.delete stream_key (pending_query_promises rt)\<rparr>
                    | None \<Rightarrow> rt
                  else rt)
        in case map_of (known_clients rt) client_id of
             None \<Rightarrow> (False, rt)
           | Some dst \<Rightarrow>
               let rt = maybe_log_counters (rt\<lparr>outbox := outbox rt @ [(client_id, dst, payload)]\<rparr>)
               in (True, rt\<lparr>ac := count_frame payload (ac rt)\<rparr>))"

text \<open>The two receive functions, up to the call of the handler: the state in which it is called
  and the call (client id and payload) if there is one. What follows the handler is in
  \<open>node_on_adnl_message\<close> and \<open>node_on_adnl_query\<close> below.\<close>

definition on_adnl_message ::
  "('p \<Rightarrow> string) \<Rightarrow> 'p \<Rightarrow> bytes \<Rightarrow> 'p runtime \<Rightarrow> 'p runtime \<times> (string \<times> bytes) option" where
  "on_adnl_message serialize src data rt =
     (let id_serialized = serialize src;
          rt = rt\<lparr>ac := (ac rt)\<lparr>ac_rx_bytes := ac_rx_bytes (ac rt) + int (length data)\<rparr>,
                  known_clients := AList.update id_serialized src (known_clients rt)\<rparr>
      in (rt, if on_message_set rt then Some (id_serialized, data) else None))"

definition on_adnl_query ::
  "('p \<Rightarrow> string) \<Rightarrow> 'p \<Rightarrow> bytes \<Rightarrow> nat \<Rightarrow> 'p runtime \<Rightarrow> 'p runtime \<times> (string \<times> bytes) option" where
  "on_adnl_query serialize src data promise rt =
     (let client_id = serialize src;
          stream_key = the (extract_stream_key client_id data) in
      if stream_key = [] then
        (rt\<lparr>answered := answered rt @ [(promise, Inl ''invalid query frame'')]\<rparr>, None)
      else
        let rt = rt\<lparr>known_clients := AList.update client_id src (known_clients rt)\<rparr>;
            rt = (case map_of (pending_query_promises rt) stream_key of
                    Some old \<Rightarrow>
                      rt\<lparr>answered := answered rt @ [(old, Inl ''query superseded by new request'')],
                         pending_query_promises := AList.delete stream_key (pending_query_promises rt)\<rparr>
                  | None \<Rightarrow> rt);
            rt = rt\<lparr>pending_query_promises := AList.update stream_key promise (pending_query_promises rt)\<rparr>
        in if on_message_set rt then (rt, Some (client_id, data))
           else
             (case map_of (pending_query_promises rt) stream_key of
                Some p \<Rightarrow>
                  (rt\<lparr>answered := answered rt @ [(p, Inl ''egress handler is not set'')],
                      pending_query_promises := AList.delete stream_key (pending_query_promises rt)\<rparr>, None)
              | None \<Rightarrow> (rt, None)))"

text \<open>The callback object and the C entry points; a null handle is \<open>None\<close>.\<close>

definition adnl_receive_message ::
  "('p \<Rightarrow> string) \<Rightarrow> 'p \<Rightarrow> bytes \<Rightarrow> 'p runtime option \<Rightarrow> 'p runtime option \<times> (string \<times> bytes) option" where
  "adnl_receive_message serialize src data owner =
     (case owner of
        Some rt \<Rightarrow> (case on_adnl_message serialize src data rt of (rt', call) \<Rightarrow> (Some rt', call))
      | None \<Rightarrow> (None, None))"

definition receive_query ::
  "('p \<Rightarrow> string) \<Rightarrow> 'p \<Rightarrow> bytes \<Rightarrow> nat \<Rightarrow> 'p runtime option \<Rightarrow>
   ('p runtime option \<times> (string \<times> bytes) option) \<times> (nat \<times> (string + bytes)) list" where
  "receive_query serialize src data promise owner =
     (case owner of
        Some rt \<Rightarrow> (case on_adnl_query serialize src data promise rt of (rt', call) \<Rightarrow> ((Some rt', call), []))
      | None \<Rightarrow> ((None, None), [(promise, Inl ''backend runtime not available'')]))"

definition ton_adnl_create :: "string option \<Rightarrow> string option \<Rightarrow> u16 \<Rightarrow> 'p runtime option" where
  "ton_adnl_create key address port =
     (case (key, address) of
        (Some k, Some a) \<Rightarrow> Some (AdnlBackendRuntime k a port)
      | _ \<Rightarrow> None)"

definition ton_adnl_start ::
  "u32 \<Rightarrow> (string \<Rightarrow> bytes option) \<Rightarrow> (bytes \<Rightarrow> string) \<Rightarrow> 'p runtime option \<Rightarrow> int \<times> 'p runtime option" where
  "ton_adnl_start pk_id import_key hex_encode handle =
     (case handle of
        None \<Rightarrow> (-1, None)
      | Some rt \<Rightarrow> (case runtime_start pk_id import_key hex_encode rt of (ok, rt') \<Rightarrow> (if ok then 0 else -2, Some rt')))"

definition ton_adnl_send :: "'p runtime option \<Rightarrow> string option \<Rightarrow> bytes option \<Rightarrow> int \<times> 'p runtime option" where
  "ton_adnl_send handle client_id data =
     (case (handle, client_id, data) of
        (Some rt, Some c, Some payload) \<Rightarrow>
          (case runtime_sendToClient c payload rt of (ok, rt') \<Rightarrow> (if ok then 0 else -2, Some rt'))
      | _ \<Rightarrow> (-1, handle))"

definition ton_adnl_stop :: "'p runtime option \<Rightarrow> 'p runtime option" where
  "ton_adnl_stop handle = map_option runtime_stop handle"

text \<open>\<open>delete runtime\<close> after the stop: nothing is left behind the handle.\<close>

definition ton_adnl_destroy :: "'p runtime option \<Rightarrow> 'p runtime option" where
  "ton_adnl_destroy handle = (case ton_adnl_stop handle of None \<Rightarrow> None | Some rt \<Rightarrow> None)"

definition ton_adnl_set_on_message :: "'p runtime option \<Rightarrow> 'p runtime option" where
  "ton_adnl_set_on_message handle = map_option runtime_setOnMessage handle"

definition ton_adnl_local_address :: "'p runtime option \<Rightarrow> string option" where
  "ton_adnl_local_address handle = map_option runtime_localAddress handle"

text \<open>
  A message or query as the node sees it, with the runtime as its transport: the part of the
  receive function before the handler, the handler (\<open>onAdnlMessage\<close>), and the part after.
\<close>

definition log_transport :: "'p runtime node \<Rightarrow> 'p runtime node" where
  "log_transport n = n\<lparr>transport := maybe_log_counters (transport n)\<rparr>"

definition node_on_adnl_message ::
  "('p \<Rightarrow> string) \<Rightarrow> (nat \<Rightarrow> io) \<Rightarrow> 'p \<Rightarrow> bytes \<Rightarrow> 'p runtime node \<Rightarrow> 'p runtime node option" where
  "node_on_adnl_message serialize ios src data n =
     (case on_adnl_message serialize src data (transport n) of (rt, call) \<Rightarrow>
      let n = n\<lparr>transport := rt\<rparr> in
      case call of
        None \<Rightarrow> Some (log_transport n)
      | Some (client_id, payload) \<Rightarrow>
          map_option log_transport (onAdnlMessage runtime_sendToClient ios client_id payload n))"

definition node_on_adnl_query ::
  "('p \<Rightarrow> string) \<Rightarrow> (nat \<Rightarrow> io) \<Rightarrow> 'p \<Rightarrow> bytes \<Rightarrow> nat \<Rightarrow> 'p runtime node \<Rightarrow> 'p runtime node option" where
  "node_on_adnl_query serialize ios src data promise n =
     (case on_adnl_query serialize src data promise (transport n) of (rt, call) \<Rightarrow>
      let n = n\<lparr>transport := rt\<rparr> in
      case call of
        None \<Rightarrow> Some n
      | Some (client_id, payload) \<Rightarrow> onAdnlMessage runtime_sendToClient ios client_id payload n)"


section \<open>The transport contract\<close>

definition runtime_delivered :: "'p runtime \<Rightarrow> (string \<times> bytes) list" where
  "runtime_delivered rt = map (\<lambda>(c, dst, b). (c, b)) (outbox rt)"

lemma maybe_log_counters_fields [simp]:
  "outbox (maybe_log_counters rt) = outbox rt"
  "known_clients (maybe_log_counters rt) = known_clients rt"
  "pending_query_promises (maybe_log_counters rt) = pending_query_promises rt"
  "answered (maybe_log_counters rt) = answered rt"
  "rt_running (maybe_log_counters rt) = rt_running rt"
  "adnl_live (maybe_log_counters rt) = adnl_live rt"
  "on_message_set (maybe_log_counters rt) = on_message_set rt"
  by (simp_all add: maybe_log_counters_def Let_def)

lemma extract_stream_key_eq:
  "extract_stream_key c b = Some (if length b < 5 then [] else keyFor c (the (readU32 b 1)))"
  using readU32_None [of b 1] by (auto simp: extract_stream_key_def keyFor_def)

text \<open>The state of a successful or failed send, as far as the network is concerned.\<close>

lemma runtime_send_outbox:
  "outbox (snd (runtime_sendToClient c b rt)) = outbox rt @
     (if fst (runtime_sendToClient c b rt) then [(c, the (map_of (known_clients rt) c), b)] else [])"
  by (auto simp: runtime_sendToClient_def Let_def split: option.splits)

interpretation adnl_runtime: client_transport runtime_sendToClient runtime_delivered "\<lambda>_. True"
proof
  show "runtime_delivered t' = runtime_delivered t @ [(c, b)]" if "runtime_sendToClient c b t = (True, t')"
    for c b and t t' :: "'p runtime"
    using runtime_send_outbox [of c b t] that by (simp add: runtime_delivered_def)
  show "runtime_delivered t' = runtime_delivered t" if "runtime_sendToClient c b t = (False, t')"
    for c b and t t' :: "'p runtime"
    using runtime_send_outbox [of c b t] that by (simp add: runtime_delivered_def)
qed

text \<open>A buffer read from a target socket leaves the node, over the ADNL runtime, as DATA
  frames of its stream with 1 to 1200 bytes each, in order; the frames handed to the network
  are a prefix of the chunked buffer, and all of it exactly when \<open>push_data\<close> reports
  success. The chunks concatenate to the buffer, so nothing is lost or duplicated.\<close>

lemma push_data_over_adnl:
  "\<exists>k. runtime_delivered (transport (snd (push_data runtime_sendToClient c i buf n))) =
       runtime_delivered (transport n) @ map (\<lambda>ch. (c, data_frame i ch)) (take k (chunks 1200 buf)) \<and>
     (fst (push_data runtime_sendToClient c i buf n) = (k = length (chunks 1200 buf))) \<and>
     concat (chunks 1200 buf) = buf \<and> (\<forall>ch \<in> set (chunks 1200 buf). ch \<noteq> [] \<and> length ch \<le> 1200)"
proof -
  from adnl_runtime.push_data_delivered [OF TrueI, of c i buf n] obtain k where
    "runtime_delivered (transport (snd (push_data runtime_sendToClient c i buf n))) =
       runtime_delivered (transport n) @ map (\<lambda>ch. (c, data_frame i ch)) (take k (chunks 1200 buf))"
    "fst (push_data runtime_sendToClient c i buf n) \<longleftrightarrow> k = length (chunks 1200 buf)"
    by (auto simp: kMaxDataChunkBytes_def)
  then show ?thesis
    using concat_chunks [of 1200 buf] chunks_bounds [of 1200 _ buf] by auto
qed

definition sample_runtime :: "nat runtime" where
  "sample_runtime = (AdnlBackendRuntime [] [] 30303)\<lparr>rt_running := True, adnl_live := True, on_message_set := True\<rparr>"

section \<open>Replies reach the sender\<close>

lemma runtime_send_known [simp]: "known_clients (snd (runtime_sendToClient c b rt)) = known_clients rt"
  by (simp add: runtime_sendToClient_def Let_def split: option.splits)

lemma sent_to_outbox:
  assumes "sent_to runtime_sendToClient c t t'"
  shows "known_clients t' = known_clients t \<and>
    (\<exists>fs. outbox t' = outbox t @ map (\<lambda>f. (c, the (map_of (known_clients t) c), f)) fs)"
  using assms
proof (induction rule: sent_to.induct)
  case (sent_one t t' b)
  then obtain fs where "outbox t' = outbox t @ map (\<lambda>f. (c, the (map_of (known_clients t) c), f)) fs" by blast
  with sent_one.IH have "outbox (snd (runtime_sendToClient c b t')) = outbox t @
      map (\<lambda>f. (c, the (map_of (known_clients t) c), f)) (fs @ (if fst (runtime_sendToClient c b t') then [b] else []))"
    by (simp add: runtime_send_outbox)
  with sent_one.IH show ?case by (metis runtime_send_known)
qed (auto intro: exI [of _ "[]"])

lemma log_transport_outbox [simp]: "outbox (transport (log_transport n)) = outbox (transport n)"
  by (simp add: log_transport_def)

lemma onAdnlMessage_outbox:
  assumes "node_wf n" "onAdnlMessage runtime_sendToClient ios c payload n = Some n'"
    "map_of (known_clients (transport n)) c = Some src"
  shows "\<exists>fs. outbox (transport n') = outbox (transport n) @ map (\<lambda>f. (c, src, f)) fs"
  using sent_to_outbox [of c "transport n" "transport n'"] isolated_onAdnlMessage [OF assms(1,2)] assms(3)
  by (auto simp: isolated_def)

text \<open>C14. Replies reach the sender and nobody else: while the node handles an ADNL message or
  query, every message it puts on the network is addressed to the ADNL node the request came
  from, under that node's own client id.\<close>

theorem adnl_replies_to_sender:
  assumes "node_wf n"
    "node_on_adnl_message serialize ios src data n = Some n' \<or>
     node_on_adnl_query serialize ios src data promise n = Some n'"
  shows "\<exists>fs. outbox (transport n') = outbox (transport n) @ map (\<lambda>f. (serialize src, src, f)) fs"
  using assms(2)
proof
  assume "node_on_adnl_message serialize ios src data n = Some n'"
  then obtain m where m: "n' = log_transport m" "m = n\<lparr>transport := fst (on_adnl_message serialize src data (transport n))\<rparr> \<or>
      onAdnlMessage runtime_sendToClient ios (serialize src) data
        (n\<lparr>transport := fst (on_adnl_message serialize src data (transport n))\<rparr>) = Some m"
    by (auto simp: node_on_adnl_message_def on_adnl_message_def Let_def split: if_splits)
  with assms(1) onAdnlMessage_outbox [of "n\<lparr>transport := fst (on_adnl_message serialize src data (transport n))\<rparr>"
      ios "serialize src" data m src]
  show ?thesis by (auto simp: on_adnl_message_def Let_def intro: exI [of _ "[]"])
next
  let ?rt = "fst (on_adnl_query serialize src data promise (transport n))"
  assume q: "node_on_adnl_query serialize ios src data promise n = Some n'"
  have rt: "outbox ?rt = outbox (transport n)"
    by (auto simp: on_adnl_query_def Let_def split: option.splits)
  show ?thesis
  proof (cases "snd (on_adnl_query serialize src data promise (transport n))")
    case None
    with q rt show ?thesis
      by (auto simp: node_on_adnl_query_def case_prod_beta intro: exI [of _ "[]"])
  next
    case (Some call)
    then have "call = (serialize src, data)" "map_of (known_clients ?rt) (serialize src) = Some src"
      by (auto simp: on_adnl_query_def Let_def split: option.splits if_splits)
    with Some q rt assms(1) onAdnlMessage_outbox [of "n\<lparr>transport := ?rt\<rparr>" ios "serialize src" data n' src]
    show ?thesis by (auto simp: node_on_adnl_query_def case_prod_beta)
  qed
qed

theorem adnl_replies_to_sender_witness:
  "\<exists>n' fs. node_on_adnl_message (\<lambda>_. ''n'') (\<lambda>_. sample_io) 4 (wire (Close_Frame 9))
       (EgressNode default_config sample_runtime) = Some n' \<and>
     outbox (transport n') = map (\<lambda>f. (''n'', 4, f)) fs"
proof -
  let ?n = "EgressNode default_config sample_runtime"
  have "node_on_adnl_message (\<lambda>_. ''n'') (\<lambda>_. sample_io) 4 (wire (Close_Frame 9)) ?n \<noteq> None"
    using onAdnlMessage_defined [of "\<lambda>_. sample_io" runtime_sendToClient "''n''" "wire (Close_Frame 9)"] sample_sockets
    by (auto simp: node_on_adnl_message_def on_adnl_message_def Let_def simp del: not_None_eq)
  then obtain n' where n': "node_on_adnl_message (\<lambda>_. ''n'') (\<lambda>_. sample_io) 4 (wire (Close_Frame 9)) ?n = Some n'" by blast
  from adnl_replies_to_sender [OF node_wf_initial disjI1 [OF n']] n' show ?thesis
    by (auto simp: EgressNode_def sample_runtime_def AdnlBackendRuntime_def)
qed


section \<open>Promises\<close>

text \<open>The runtime as a transition system: sends, messages, queries with a fresh promise, start,
  stop and handler registration, in any order.\<close>

inductive rt_step :: "('p \<Rightarrow> string) \<Rightarrow> 'p runtime \<Rightarrow> 'p runtime \<Rightarrow> bool" for serialize where
  rt_send: "rt_step serialize rt (snd (runtime_sendToClient c b rt))"
| rt_message: "rt_step serialize rt (fst (on_adnl_message serialize src data rt))"
| rt_query: "p \<notin> fst ` set (answered rt) \<Longrightarrow> p \<notin> snd ` set (pending_query_promises rt) \<Longrightarrow>
    rt_step serialize rt (fst (on_adnl_query serialize src data p rt))"
| rt_start: "rt_step serialize rt (snd (runtime_start pk_id import_key hex_encode rt))"
| rt_stop: "rt_step serialize rt (runtime_stop rt)"
| rt_set: "rt_step serialize rt (runtime_setOnMessage rt)"

definition promises_ok :: "(string \<times> nat) list \<Rightarrow> (nat \<times> (string + bytes)) list \<Rightarrow> bool" where
  "promises_ok pend ans \<longleftrightarrow> distinct (keys pend) \<and> distinct (map snd pend @ map fst ans)"

definition rt_wf :: "('p \<Rightarrow> string) \<Rightarrow> 'p runtime \<Rightarrow> bool" where
  "rt_wf serialize rt \<longleftrightarrow> (\<forall>(c, p) \<in> set (known_clients rt). serialize p = c) \<and>
     (\<forall>(c, p, b) \<in> set (outbox rt). serialize p = c) \<and>
     promises_ok (pending_query_promises rt) (answered rt)"

lemma promises_answer:
  assumes "promises_ok pend ans" "map_of pend k = Some p"
  shows "promises_ok (AList.delete k pend) (ans @ [(p, r)]) \<and> p \<notin> snd ` set (AList.delete k pend)"
proof -
  from assms have kp: "(k, p) \<in> set pend" by (auto dest: map_of_SomeD)
  have "p \<notin> snd ` set (AList.delete k pend)"
  proof
    assume "p \<in> snd ` set (AList.delete k pend)"
    then obtain k' where "(k', p) \<in> set pend" "k' \<noteq> k" by (auto simp: AList.delete_eq)
    with kp assms(1) show False
      unfolding promises_ok_def distinct_append distinct_map by (metis inj_onD prod.inject snd_conv)
  qed
  moreover have "distinct (map snd (AList.delete k pend))" "snd ` set (AList.delete k pend) \<subseteq> snd ` set pend"
    using assms(1) by (auto simp: promises_ok_def AList.delete_eq distinct_map_filter)
  moreover have "p \<in> snd ` set pend" using kp by force
  with assms(1) have "p \<notin> fst ` set ans" unfolding promises_ok_def by auto
  moreover have "snd ` set pend \<inter> fst ` set ans = {}" using assms(1) by (simp add: promises_ok_def)
  ultimately have "snd ` set (AList.delete k pend) \<inter> insert p (fst ` set ans) = {}" by blast
  with \<open>p \<notin> fst ` set ans\<close> \<open>distinct (map snd (AList.delete k pend))\<close> show ?thesis
    using assms(1) by (simp add: promises_ok_def distinct_keys_delete)
qed

lemma delete_addresses: "snd ` set (AList.delete k al) \<subseteq> snd ` set al"
  by (auto simp: AList.delete_eq)

lemma promises_new:
  assumes "promises_ok pend ans" "map_of pend k = None" "p \<notin> fst ` set ans" "p \<notin> snd ` set pend"
  shows "promises_ok (AList.update k p pend) ans"
proof -
  have "set (map snd (AList.update k p pend)) = insert p (snd ` set pend)"
    using addresses_update_fresh [OF assms(2)] by simp
  moreover have "AList.update k p pend = pend @ [(k, p)]"
    using assms(2) by (induction pend) (auto split: if_splits)
  ultimately show ?thesis
    using assms by (auto simp: promises_ok_def map_of_eq_None_iff)
qed

lemma rt_wf_initial: "rt_wf serialize (AdnlBackendRuntime k a port)"
  by (simp add: rt_wf_def promises_ok_def AdnlBackendRuntime_def)

lemma rt_wf_send:
  assumes "rt_wf serialize rt"
  shows "rt_wf serialize (snd (runtime_sendToClient c b rt))"
proof -
  let ?rt' = "snd (runtime_sendToClient c b rt)"
  have "promises_ok (pending_query_promises ?rt') (answered ?rt')"
    using assms promises_answer [of "pending_query_promises rt" "answered rt"]
    by (auto simp: rt_wf_def runtime_sendToClient_def Let_def split: option.splits)
  moreover have "map_of (known_clients rt) c \<noteq> None" if "fst (runtime_sendToClient c b rt)"
    using that by (auto simp: runtime_sendToClient_def Let_def split: option.splits if_splits)
  then have "\<forall>(c, p, b) \<in> set (outbox ?rt'). serialize p = c"
    using assms by (fastforce simp: rt_wf_def runtime_send_outbox dest: map_of_SomeD)
  ultimately show ?thesis using assms by (simp add: rt_wf_def)
qed

lemma known_update:
  "\<forall>(c, p) \<in> set al. f p = c \<Longrightarrow> \<forall>(c, p) \<in> set (AList.update (f q) q al). f p = c"
  by (auto dest!: snd_set_update)

text \<open>Pending and resolved promises after the query of key \<open>k\<close> has superseded an older one.\<close>

definition superseded :: "string \<Rightarrow> (string \<times> nat) list \<Rightarrow> (nat \<times> (string + bytes)) list" where
  "superseded k pend = (case map_of pend k of Some q \<Rightarrow> [(q, Inl ''query superseded by new request'')] | None \<Rightarrow> [])"

lemma on_adnl_query_state:
  assumes k: "extract_stream_key (serialize src) data = Some k"
    and pend: "pend = AList.update k p (AList.delete k (pending_query_promises rt))"
    and ans: "ans = answered rt @ superseded k (pending_query_promises rt)"
    and known: "known = AList.update (serialize src) src (known_clients rt)"
  shows "fst (on_adnl_query serialize src data p rt) =
    (if k = [] then rt\<lparr>answered := answered rt @ [(p, Inl ''invalid query frame'')]\<rparr>
     else if on_message_set rt then rt\<lparr>known_clients := known, pending_query_promises := pend, answered := ans\<rparr>
     else rt\<lparr>known_clients := known, pending_query_promises := AList.delete k pend,
            answered := ans @ [(p, Inl ''egress handler is not set'')]\<rparr>)"
proof (cases "map_of (pending_query_promises rt) k")
  case None
  then have "AList.delete k (pending_query_promises rt) = pending_query_promises rt"
    by (simp add: map_of_eq_None_iff)
  with None k show ?thesis by (simp add: on_adnl_query_def Let_def superseded_def pend ans known)
next
  case (Some q)
  with k show ?thesis by (simp add: on_adnl_query_def Let_def superseded_def pend ans known)
qed

lemma promises_query:
  assumes ok: "promises_ok pend ans" and p: "p \<notin> fst ` set ans" "p \<notin> snd ` set pend"
  shows "promises_ok (AList.update k p (AList.delete k pend)) (ans @ superseded k pend)"
proof (rule promises_new)
  show "promises_ok (AList.delete k pend) (ans @ superseded k pend)"
  proof (cases "map_of pend k")
    case None
    with ok show ?thesis by (simp add: superseded_def) (simp add: map_of_eq_None_iff)
  next
    case (Some q)
    with promises_answer [OF ok Some] show ?thesis by (simp add: superseded_def)
  qed
  show "p \<notin> snd ` set (AList.delete k pend)" using p(2) delete_addresses [of k pend] by blast
  show "p \<notin> fst ` set (ans @ superseded k pend)"
  proof (cases "map_of pend k")
    case None
    with p show ?thesis by (simp add: superseded_def)
  next
    case (Some q)
    from map_of_SomeD [OF this] p(2) have "p \<noteq> q" by force
    with Some p(1) show ?thesis by (simp add: superseded_def)
  qed
qed simp

lemma rt_wf_query:
  assumes wf: "rt_wf serialize rt" and p: "p \<notin> fst ` set (answered rt)" "p \<notin> snd ` set (pending_query_promises rt)"
  shows "rt_wf serialize (fst (on_adnl_query serialize src data p rt))"
proof -
  obtain k where k: "extract_stream_key (serialize src) data = Some k" using extract_stream_key_eq by blast
  from wf have ok: "promises_ok (pending_query_promises rt) (answered rt)" by (simp add: rt_wf_def)
  note new = promises_query [OF ok p, of k]
  have bad: "promises_ok (pending_query_promises rt) (answered rt @ [(p, r)])" for r
    using ok p by (auto simp: promises_ok_def)
  have drop: "promises_ok (AList.delete k (AList.update k p (AList.delete k (pending_query_promises rt))))
      ((answered rt @ superseded k (pending_query_promises rt)) @ [(p, r)])" for r
    using promises_answer [OF new, of k p] by simp
  have known: "\<forall>(c, p) \<in> set (AList.update (serialize src) src (known_clients rt)). serialize p = c"
    using wf by (intro known_update) (simp add: rt_wf_def)
  show ?thesis
    unfolding on_adnl_query_state [where serialize = serialize and src = src and data = data and rt = rt and p = p,
        OF k refl refl refl]
    using wf known new bad drop by (simp add: rt_wf_def)
qed

lemma rt_wf_step: "rt_step serialize rt rt' \<Longrightarrow> rt_wf serialize rt \<Longrightarrow> rt_wf serialize rt'"
proof (induction rule: rt_step.induct)
  case (rt_message rt src data)
  then show ?case
    using known_update [of "known_clients rt" serialize src]
    by (auto simp: on_adnl_message_def Let_def rt_wf_def)
qed (auto simp: rt_wf_send rt_wf_query, auto simp: rt_wf_def runtime_start_def init_adnl_runtime_def Let_def
      runtime_stop_def shutdown_adnl_runtime_def runtime_setOnMessage_def split: option.splits)

text \<open>C37. In every reachable state of the runtime, a query's promise is resolved at most once
  and is never both pending and resolved; and every message on the network is addressed to
  the ADNL node whose serialized id is the client id it was sent to.\<close>

theorem runtime_promises_and_addressing:
  assumes "(rt_step serialize)\<^sup>*\<^sup>* (AdnlBackendRuntime key address port) rt"
  shows "distinct (map fst (answered rt)) \<and>
    snd ` set (pending_query_promises rt) \<inter> fst ` set (answered rt) = {} \<and>
    (\<forall>(c, p, b) \<in> set (outbox rt). serialize p = c)"
proof -
  from assms have "rt_wf serialize rt"
    by (induction rule: rtranclp_induct) (auto intro: rt_wf_initial rt_wf_step)
  then show ?thesis by (auto simp: rt_wf_def promises_ok_def)
qed

theorem runtime_promises_and_addressing_witness:
  "distinct (map fst (answered (fst (on_adnl_query (\<lambda>_. ''n'') (4 :: nat) [2, 0, 0] 1 (AdnlBackendRuntime [] [] 1)))))"
proof -
  have "(rt_step (\<lambda>_. ''n''))\<^sup>*\<^sup>* (AdnlBackendRuntime [] [] 1)
      (fst (on_adnl_query (\<lambda>_. ''n'') (4 :: nat) [2, 0, 0] 1 (AdnlBackendRuntime [] [] 1)))"
    by (intro r_into_rtranclp rt_query) (simp_all add: AdnlBackendRuntime_def)
  from runtime_promises_and_addressing [OF this] show ?thesis by blast
qed

section \<open>Key import\<close>

definition hex_digit :: "nat \<Rightarrow> char" where
  "hex_digit d = (if d < 10 then char_of (48 + d) else char_of (87 + d))"

definition hex_string :: "bytes \<Rightarrow> string" where
  "hex_string bs = concat (map (\<lambda>b. [hex_digit (unat b div 16), hex_digit (unat b mod 16)]) bs)"

lemma hex_to_int_digit: "d < 16 \<Longrightarrow> hex_to_int (hex_digit d) = int d"
  by (auto simp: hex_to_int_def hex_digit_def Let_def)

lemma length_hex_string [simp]: "length (hex_string bs) = 2 * length bs"
  by (induction bs) (auto simp: hex_string_def)

lemma decode_hex_string: "decode_hex_pairs (hex_string bs) = Some bs"
proof (induction bs)
  case (Cons b bs)
  have "unat b < 256" by (rule order_less_le_trans [OF unsigned_less]) simp
  then have "unat b div 16 < 16" by auto
  moreover have "int (unat b div 16) * 16 + int (unat b mod 16) = int (unat b)"
    by (metis div_mult_mod_eq of_nat_add of_nat_mult of_nat_numeral)
  moreover have "word_of_int (int (unat b)) = b" by simp
  ultimately show ?case
    using Cons by (simp add: hex_string_def hex_to_int_digit del: of_nat_unat)
qed (simp add: hex_string_def)

lemma maybe_decode_hex_string [simp]: "maybe_decode_hex (hex_string bs) = bs"
  by (simp add: maybe_decode_hex_def decode_hex_string)

text \<open>A private key configured as 64 hexadecimal digits is imported as the 36-byte TL
  object (the 4-byte constructor id and the 32 raw bytes); 72 digits are taken as such an
  object already; a value that is not hexadecimal is passed on unchanged.\<close>

lemma normalize_private_key_cases:
  "(length raw = 32 \<longrightarrow> bytes_of_str (normalize_private_key_for_import pk_id (hex_string raw)) =
      [ucast pk_id, ucast (drop_bit 8 pk_id), ucast (drop_bit 16 pk_id), ucast (drop_bit 24 pk_id)] @ raw) \<and>
   (length raw = 36 \<longrightarrow> bytes_of_str (normalize_private_key_for_import pk_id (hex_string raw)) = raw) \<and>
   (odd (length s) \<or> decode_hex_pairs s = None \<longrightarrow> normalize_private_key_for_import pk_id s = s)"
  by (auto simp: normalize_private_key_for_import_def Let_def to_tl_pk_ed25519_def maybe_decode_hex_def
      decode_hex_string comp_def split: option.splits dest: arg_cong [where f = length])

lemma normalize_private_key_cases_witness:
  "bytes_of_str (normalize_private_key_for_import 7 (hex_string (replicate 32 0))) = [7, 0, 0, 0] @ replicate 32 0"
  using normalize_private_key_cases [of "replicate 32 0" 7 "''x''"] by simp

lemma start_ignores_key_failure:
  assumes "\<not> rt_running rt" "import_key (normalize_private_key_for_import pk_id (rt_private_key rt)) = None"
  shows "runtime_start pk_id import_key hex_encode rt = (True, rt\<lparr>rt_running := True, adnl_live := True\<rparr>)"
  using assms by (simp add: runtime_start_def init_adnl_runtime_def)

lemma query_reply_also_sent:
  assumes "rt_running rt" "adnl_live rt" "length b \<ge> 5" "extract_stream_key c b = Some k"
    "map_of (pending_query_promises rt) k = Some p" "map_of (known_clients rt) c = Some dst"
  shows "\<exists>rt'. runtime_sendToClient c b rt = (True, rt') \<and> answered rt' = answered rt @ [(p, Inr b)] \<and>
    outbox rt' = outbox rt @ [(c, dst, b)]"
proof -
  from assms(3,4) have "k \<noteq> []" "b \<noteq> []" by (auto simp: extract_stream_key_eq keyFor_def)
  with assms show ?thesis by (simp add: runtime_sendToClient_def Let_def)
qed

end
