(* ===== verification/Adnl_Client.thy ===== *)
theory Adnl_Client
  imports Adnl_Backend
begin

text \<open>
  The client side of ADNL, \<^verbatim>\<open>app/src/main/cpp/ton_adnl_client_backend.cpp\<close>: the class
  \<^verbatim>\<open>TonAdnlClientRuntime\<close>, its inbound callback and the C entry points that the Android
  and the Windows client load. The TON library and the address parsers of the platform are
  the fields of \<open>ton_lib\<close>, over arbitrary types of private keys \<open>'s\<close>, full ids \<open>'k\<close>,
  short ids \<open>'n\<close> and addresses \<open>'a\<close>. The actors the runtime owns are the fields of
  \<open>stack\<close>, which record what was registered with them; \<^verbatim>\<open>Adnl::send_message\<close> appends to
  \<open>cr_outbox\<close>, an invocation of the callback to \<open>cr_callback_log\<close>. The scheduler thread is the
  field \<open>cr_thread\<close>: it runs \<open>init_adnl_udp\<close> some time after \<open>start\<close> returned.
\<close>

section \<open>Helpers\<close>

definition trim_ascii_ws :: "string \<Rightarrow> string" where
  "trim_ascii_ws s = dropWhile is_space (rev (dropWhile is_space (rev s)))"

definition is_unusable_advertise_host :: "string \<Rightarrow> bool" where
  "is_unusable_advertise_host host =
     (if host = [] then False
      else let h = map tolower host in
        h = ''0.0.0.0'' \<or> h = ''127.0.0.1'' \<or> h = ''localhost'' \<or> h = ''::1'')"

text \<open>\<open>pton\<close> is \<^verbatim>\<open>inet_pton\<close> for IPv4 followed by \<^verbatim>\<open>ntohl\<close>.\<close>

definition parse_ipv4_u32 :: "(string \<Rightarrow> u32 option) \<Rightarrow> string \<Rightarrow> u32 option" where
  "parse_ipv4_u32 pton ip = pton (c_str ip)"

definition is_private_ipv4 :: "u32 \<Rightarrow> bool" where
  "is_private_ipv4 v =
     (let is10 = (v AND 0xFF000000 = 0x0A000000);
          is172 = (v AND 0xFFF00000 = 0xAC100000);
          is192 = (v AND 0xFFFF0000 = 0xC0A80000)
      in is10 \<or> is172 \<or> is192)"

definition same_subnet24 :: "u32 \<Rightarrow> u32 \<Rightarrow> bool" where
  "same_subnet24 a b \<longleftrightarrow> a AND 0xFFFFFF00 = b AND 0xFFFFFF00"

function client_hex_loop :: "string \<Rightarrow> nat \<Rightarrow> bytes \<Rightarrow> bytes" where
  "client_hex_loop value i out =
     (if i < length value then
        let hi = hex_to_int (value ! i); lo = hex_to_int (value ! (i + 1)) in
        if hi < 0 \<or> lo < 0 then []
        else client_hex_loop value (i + 2) (out @ [word_of_int (push_bit 4 hi OR lo)])
      else out)"
  by pat_completeness auto
termination by (relation "measure (\<lambda>(value, i, out). length value - i)") auto

declare client_hex_loop.simps [simp del]

definition client_maybe_decode_hex :: "string \<Rightarrow> bytes" where
  "client_maybe_decode_hex value = (if length value mod 2 \<noteq> 0 then [] else client_hex_loop value 0 [])"

definition client_to_tl_pk_ed25519 :: "u32 \<Rightarrow> bytes \<Rightarrow> string" where
  "client_to_tl_pk_ed25519 pk_id raw32 =
     str_of_bytes [ucast pk_id, ucast (drop_bit 8 pk_id), ucast (drop_bit 16 pk_id), ucast (drop_bit 24 pk_id)]
     @ str_of_bytes raw32"

definition client_normalize_private_key :: "u32 \<Rightarrow> string \<Rightarrow> string" where
  "client_normalize_private_key pk_id value =
     (let raw = client_maybe_decode_hex value in
      if raw = [] then value
      else if length raw = 36 then str_of_bytes raw
      else if length raw = 32 then client_to_tl_pk_ed25519 pk_id raw
      else str_of_bytes raw)"


section \<open>The library and the state\<close>

text \<open>
  \<open>key_from_hex\<close>: \<^verbatim>\<open>Bits256::from_hex\<close> reading 256 bits, as the full id of that key;
  \<open>import_key\<close>, \<open>full_id\<close>, \<open>short_id\<close>: the key and id functions; \<open>init_host_port\<close>,
  \<open>init_ipv4_port\<close>, \<open>get_ip_str\<close>: the methods of \<^verbatim>\<open>td::IPAddress\<close>; \<open>lib_pton\<close>: see above.
\<close>

record ('s, 'k, 'n, 'a) ton_lib =
  pk_ed25519_ID :: u32
  key_from_hex :: "string \<Rightarrow> 'k option"
  import_key :: "string \<Rightarrow> 's option"
  full_id :: "'s \<Rightarrow> 'k"
  short_id :: "'k \<Rightarrow> 'n"
  init_host_port :: "string \<Rightarrow> 'a option"
  init_ipv4_port :: "string \<Rightarrow> u16 \<Rightarrow> 'a option"
  get_ip_str :: "'a \<Rightarrow> string"
  lib_pton :: "string \<Rightarrow> u32 option"

record ('s, 'k, 'n, 'a) stack =
  st_keys :: "'s list"
  st_self_addr :: bool
  st_ids :: "('k \<times> 'a list) list"
  st_peers :: "('n \<times> 'k \<times> 'a) list"
  st_subscribed :: "'n list"

datatype thread_phase = No_Thread | Starting | Serving

record ('s, 'k, 'n, 'a) client_rt =
  cr_private_key :: string
  cr_egress_adnl_address :: string
  cr_local_advertise_host :: string
  cr_running :: bool
  cr_ready :: bool
  cr_callback :: bool
  cr_thread :: thread_phase
  cr_stack :: "('s, 'k, 'n, 'a) stack option"
  cr_local_id :: "'n option"
  cr_remote_short_id :: "'n option"
  cr_outbox :: "('n option \<times> 'n option \<times> bytes) list"
  cr_callback_log :: "bytes list"

definition TonAdnlClientRuntime :: "string \<Rightarrow> string \<Rightarrow> string \<Rightarrow> ('s, 'k, 'n, 'a) client_rt" where
  "TonAdnlClientRuntime key egress_address advertise_host =
     \<lparr>cr_private_key = key, cr_egress_adnl_address = egress_address,
      cr_local_advertise_host = trim_ascii_ws advertise_host,
      cr_running = False, cr_ready = False, cr_callback = False, cr_thread = No_Thread, cr_stack = None,
      cr_local_id = None, cr_remote_short_id = None, cr_outbox = [], cr_callback_log = []\<rparr>"

definition k_local_udp_listen_port :: u16 where "k_local_udp_listen_port = 40000"


section \<open>Bringing the stack up\<close>

definition parse_egress :: "('s, 'k, 'n, 'a) ton_lib \<Rightarrow> string \<Rightarrow> ('k \<times> string) option" where
  "parse_egress lib value =
     (let pos = length (takeWhile (\<lambda>c. c \<noteq> CHR ''@'') value) in
      if pos = length value \<or> pos = 0 \<or> pos + 1 \<ge> length value then None
      else case key_from_hex lib (take pos value) of
             None \<Rightarrow> None
           | Some key \<Rightarrow> Some (key, drop (pos + 1) value))"

text \<open>The decision which address the client announces: \<open>None\<close> is the early return with an
  error, \<open>Some []\<close> announces nothing.\<close>

definition advertised_addresses :: "('s, 'k, 'n, 'a) ton_lib \<Rightarrow> string \<Rightarrow> 'a \<Rightarrow> 'a list option" where
  "advertised_addresses lib advertise_host peer_ip =
     (let trimmed_adv = trim_ascii_ws advertise_host in
      if trimmed_adv = [] then Some []
      else if is_unusable_advertise_host trimmed_adv then None
      else case init_ipv4_port lib trimmed_adv k_local_udp_listen_port of
        None \<Rightarrow> None
      | Some advertise_udp_ip \<Rightarrow>
          let advertise_ip = get_ip_str lib advertise_udp_ip;
              peer_ip_str = get_ip_str lib peer_ip;
              adv_v = parse_ipv4_u32 (lib_pton lib) advertise_ip;
              peer_v = parse_ipv4_u32 (lib_pton lib) peer_ip_str;
              adv_is_ipv4 = (adv_v \<noteq> None); peer_is_ipv4 = (peer_v \<noteq> None);
              adv_is_private = (adv_is_ipv4 \<and> is_private_ipv4 (the adv_v));
              peer_is_private = (peer_is_ipv4 \<and> is_private_ipv4 (the peer_v));
              same_private_subnet = (adv_is_private \<and> peer_is_private \<and> same_subnet24 (the adv_v) (the peer_v));
              advertises_peer_endpoint = (adv_is_ipv4 \<and> peer_is_ipv4 \<and> the adv_v = the peer_v);
              allow_advertise = (same_private_subnet \<and> \<not> advertises_peer_endpoint)
          in Some (if allow_advertise then [advertise_udp_ip] else []))"

definition init_adnl_udp ::
  "('s, 'k, 'n, 'a) ton_lib \<Rightarrow> ('s, 'k, 'n, 'a) client_rt \<Rightarrow> ('s, 'k, 'n, 'a) client_rt" where
  "init_adnl_udp lib r =
     (case parse_egress lib (cr_egress_adnl_address r) of
        None \<Rightarrow> r\<lparr>cr_ready := False\<rparr>
      | Some (remote_full_id, remote_host_port) \<Rightarrow>
          let st = \<lparr>st_keys = [], st_self_addr = False, st_ids = [], st_peers = [], st_subscribed = []\<rparr>;
              r = r\<lparr>cr_remote_short_id := Some (short_id lib remote_full_id), cr_stack := Some st\<rparr>;
              normalized_key = client_normalize_private_key (pk_ed25519_ID lib) (cr_private_key r) in
          case import_key lib normalized_key of
            None \<Rightarrow> r\<lparr>cr_ready := False\<rparr>
          | Some local_key \<Rightarrow>
              let local_full_id = full_id lib local_key;
                  local_id = short_id lib local_full_id;
                  st = st\<lparr>st_keys := [local_key]\<rparr>;
                  r = r\<lparr>cr_local_id := Some local_id, cr_stack := Some st\<rparr> in
              case init_host_port lib remote_host_port of
                None \<Rightarrow> r\<lparr>cr_ready := False\<rparr>
              | Some peer_ip \<Rightarrow>
                  (case advertised_addresses lib (cr_local_advertise_host r) peer_ip of
                     None \<Rightarrow> r\<lparr>cr_ready := False\<rparr>
                   | Some local_addrs \<Rightarrow>
                       r\<lparr>cr_stack := Some (st\<lparr>st_self_addr := True,
                                            st_ids := [(local_full_id, local_addrs)],
                                            st_peers := [(local_id, remote_full_id, peer_ip)],
                                            st_subscribed := [local_id]\<rparr>),
                         cr_ready := True\<rparr>))"

definition shutdown_adnl_udp :: "('s, 'k, 'n, 'a) client_rt \<Rightarrow> ('s, 'k, 'n, 'a) client_rt" where
  "shutdown_adnl_udp r = r\<lparr>cr_ready := False, cr_stack := None\<rparr>"

definition client_start :: "('s, 'k, 'n, 'a) client_rt \<Rightarrow> bool \<times> ('s, 'k, 'n, 'a) client_rt" where
  "client_start r = (if cr_running r then (True, r) else (True, r\<lparr>cr_running := True, cr_thread := Starting\<rparr>))"

text \<open>The first action of the scheduler thread.\<close>

definition scheduler_begin ::
  "('s, 'k, 'n, 'a) ton_lib \<Rightarrow> ('s, 'k, 'n, 'a) client_rt \<Rightarrow> ('s, 'k, 'n, 'a) client_rt" where
  "scheduler_begin lib r = (if cr_thread r = Starting then (init_adnl_udp lib r)\<lparr>cr_thread := Serving\<rparr> else r)"

text \<open>\<open>stop\<close> joins the thread, which by then has run its initialization and its shutdown.\<close>

definition client_stop ::
  "('s, 'k, 'n, 'a) ton_lib \<Rightarrow> ('s, 'k, 'n, 'a) client_rt \<Rightarrow> ('s, 'k, 'n, 'a) client_rt" where
  "client_stop lib r =
     (if \<not> cr_running r then r
      else (shutdown_adnl_udp (scheduler_begin lib (r\<lparr>cr_running := False\<rparr>)))\<lparr>cr_thread := No_Thread\<rparr>)"


section \<open>Traffic\<close>

definition is_empty_data :: "bytes \<Rightarrow> bool" where
  "is_empty_data d \<longleftrightarrow> 9 \<le> length d \<and> d ! 0 = 2 \<and>
     push_bit 24 (ucast (d ! 5)) OR push_bit 16 (ucast (d ! 6)) OR push_bit 8 (ucast (d ! 7)) OR ucast (d ! 8) = (0 :: u32)"

text \<open>\<open>None\<close> is a null pointer.\<close>

definition client_send :: "bytes option \<Rightarrow> ('s, 'k, 'n, 'a) client_rt \<Rightarrow> bool \<times> ('s, 'k, 'n, 'a) client_rt" where
  "client_send data r =
     (if data = None \<or> the data = [] \<or> \<not> cr_ready r \<or> cr_stack r = None then (False, r)
      else if is_empty_data (the data) then (True, r)
      else (True, r\<lparr>cr_outbox := cr_outbox r @ [(cr_local_id r, cr_remote_short_id r, the data)]\<rparr>))"

definition set_callback :: "bool \<Rightarrow> ('s, 'k, 'n, 'a) client_rt \<Rightarrow> ('s, 'k, 'n, 'a) client_rt" where
  "set_callback present r = r\<lparr>cr_callback := present\<rparr>"

definition emit_inbound :: "bytes \<Rightarrow> ('s, 'k, 'n, 'a) client_rt \<Rightarrow> ('s, 'k, 'n, 'a) client_rt" where
  "emit_inbound data r =
     (if \<not> cr_callback r \<or> data = [] then r else r\<lparr>cr_callback_log := cr_callback_log r @ [data]\<rparr>)"

definition on_inbound_message :: "bytes \<Rightarrow> ('s, 'k, 'n, 'a) client_rt \<Rightarrow> ('s, 'k, 'n, 'a) client_rt" where
  "on_inbound_message data r = emit_inbound data r"

text \<open>The callback object: messages are passed to its owner, queries are refused.\<close>

definition receive_message ::
  "bytes \<Rightarrow> ('s, 'k, 'n, 'a) client_rt option \<Rightarrow> ('s, 'k, 'n, 'a) client_rt option" where
  "receive_message data r = map_option (on_inbound_message data) r"

definition client_receive_query :: "bytes \<Rightarrow> string + bytes" where
  "client_receive_query data = Inl ''query mode disabled on client; use receive_message path''"


section \<open>C entry points\<close>

definition ton_adnl_client_create ::
  "string option \<Rightarrow> string option \<Rightarrow> string option \<Rightarrow> ('s, 'k, 'n, 'a) client_rt option" where
  "ton_adnl_client_create key egress_address advertise =
     (case (key, egress_address) of
        (Some k, Some e) \<Rightarrow>
          Some (TonAdnlClientRuntime (c_str k) (c_str e) (case advertise of None \<Rightarrow> [] | Some a \<Rightarrow> c_str a))
      | _ \<Rightarrow> None)"

definition ton_adnl_client_start ::
  "('s, 'k, 'n, 'a) client_rt option \<Rightarrow> int \<times> ('s, 'k, 'n, 'a) client_rt option" where
  "ton_adnl_client_start h =
     (case h of
        None \<Rightarrow> (-1, None)
      | Some r \<Rightarrow> (case client_start r of (ok, r) \<Rightarrow> (if ok then 0 else -2, Some r)))"

definition ton_adnl_client_stop ::
  "('s, 'k, 'n, 'a) ton_lib \<Rightarrow> ('s, 'k, 'n, 'a) client_rt option \<Rightarrow> ('s, 'k, 'n, 'a) client_rt option" where
  "ton_adnl_client_stop lib h = map_option (client_stop lib) h"

text \<open>The object is gone afterwards; its last state is returned, for the messages it sent.\<close>

definition ton_adnl_client_destroy ::
  "('s, 'k, 'n, 'a) ton_lib \<Rightarrow> ('s, 'k, 'n, 'a) client_rt option \<Rightarrow> ('s, 'k, 'n, 'a) client_rt option" where
  "ton_adnl_client_destroy lib h = map_option (client_stop lib) h"

definition ton_adnl_client_send ::
  "('s, 'k, 'n, 'a) client_rt option \<Rightarrow> bytes option \<Rightarrow> int \<times> ('s, 'k, 'n, 'a) client_rt option" where
  "ton_adnl_client_send h data =
     (case h of
        None \<Rightarrow> (-1, None)
      | Some r \<Rightarrow>
          if data = None \<or> the data = [] then (-1, Some r)
          else case client_send data r of (ok, r) \<Rightarrow> (if ok then 0 else -2, Some r))"

definition ton_adnl_client_set_on_message ::
  "bool \<Rightarrow> ('s, 'k, 'n, 'a) client_rt option \<Rightarrow> ('s, 'k, 'n, 'a) client_rt option" where
  "ton_adnl_client_set_on_message present h = map_option (set_callback present) h"

section \<open>The same keys as the server\<close>

lemma hex_to_int_range: "hex_to_int c < 16"
  by (auto simp: hex_to_int_def Let_def)

lemma or_nibbles: "0 \<le> lo \<Longrightarrow> lo < 16 \<Longrightarrow> push_bit 4 hi OR lo = hi * 16 + (lo :: int)"
proof -
  assume "0 \<le> lo" "lo < 16"
  then have lo: "take_bit 4 lo = lo" by (simp add: take_bit_int_eq_self_iff)
  have "push_bit 4 hi AND take_bit 4 lo = 0" by (rule bit_eqI) (auto simp: bit_simps)
  with lo show "push_bit 4 hi OR lo = hi * 16 + lo"
    using disjunctive_add_eq_or [of "push_bit 4 hi" lo] by (simp add: push_bit_eq_mult)
qed

lemma client_hex_loop_eq:
  assumes "even (length v)" "even i"
  shows "client_hex_loop v i out
       = (case decode_hex_pairs (drop i v) of None \<Rightarrow> [] | Some bs \<Rightarrow> out @ bs)"
  using assms
proof (induction v i out rule: client_hex_loop.induct)
  case (1 v i out)
  show ?case
  proof (cases "i < length v")
    case False
    then show ?thesis by (subst client_hex_loop.simps) simp
  next
    case True
    with "1.prems" have "i + 1 < length v" by presburger
    then have split: "drop i v = v ! i # v ! (i + 1) # drop (i + 2) v"
      by (simp add: Cons_nth_drop_Suc)
    let ?hi = "hex_to_int (v ! i)" and ?lo = "hex_to_int (v ! (i + 1))"
    show ?thesis
    proof (cases "?hi < 0 \<or> ?lo < 0")
      case True
      with \<open>i < length v\<close> split show ?thesis by (subst client_hex_loop.simps) (auto simp: Let_def)
    next
      case False
      then have "push_bit 4 ?hi OR ?lo = ?hi * 16 + ?lo"
        using hex_to_int_range by (intro or_nibbles) simp_all
      with False True split "1.IH" [OF True refl refl False] "1.prems" show ?thesis
        by (subst client_hex_loop.simps) (simp add: Let_def split: option.split)
    qed
  qed
qed

text \<open>The two ends read a private key the same way.\<close>

lemma client_normalize_private_key_eq:
  "client_normalize_private_key pk_id v = normalize_private_key_for_import pk_id v"
proof -
  have "client_maybe_decode_hex v = maybe_decode_hex v"
    using client_hex_loop_eq [of v 0 "[]"]
    by (simp add: client_maybe_decode_hex_def maybe_decode_hex_def even_iff_mod_2_eq_zero split: option.split)
  then show ?thesis
    by (simp add: client_normalize_private_key_def normalize_private_key_for_import_def
        client_to_tl_pk_ed25519_def to_tl_pk_ed25519_def Let_def)
qed


section \<open>What is announced\<close>

lemma is_private_ipv4_ranges:
  "is_private_ipv4 v \<longleftrightarrow> in_range v 0x0A000000 0x0AFFFFFF \<or> in_range v 0xAC100000 0xAC1FFFFF
     \<or> in_range v 0xC0A80000 0xC0A8FFFF"
  by (simp add: is_private_ipv4_def Let_def blocked_prefixes)

lemma same_subnet24_iff: "same_subnet24 a b \<longleftrightarrow> unat a div 256 = unat b div 256"
proof -
  have m: "0xFFFFFF00 = push_bit 8 (mask (32 - 8) :: u32)"
    by (simp add: mask_eq_exp_minus_1 push_bit_eq_mult)
  have "same_subnet24 a b \<longleftrightarrow> push_bit 8 (drop_bit 8 a) = push_bit 8 (drop_bit 8 b)"
    unfolding same_subnet24_def m by (simp only: and_high_mask)
  also have "\<dots> \<longleftrightarrow> unat a div 256 * 256 = unat b div 256 * 256"
    by (simp only: word_unat_eq_iff unat_high_part) simp
  finally show ?thesis by simp
qed

lemma advertised_member:
  assumes "advertised_addresses lib host peer = Some addrs" "adv \<in> set addrs"
  shows "\<exists>a p. parse_ipv4_u32 (lib_pton lib) (get_ip_str lib adv) = Some a
    \<and> parse_ipv4_u32 (lib_pton lib) (get_ip_str lib peer) = Some p
    \<and> is_private_ipv4 a \<and> same_subnet24 a p \<and> a \<noteq> p"
  using assms by (auto simp: advertised_addresses_def Let_def split: if_splits option.splits)

text \<open>C20. The client never announces a public address: whenever it announces an address at all,
  that address and the server's are both in a private range (10/8, 172.16/12 or 192.168/16),
  lie in the same /24 network and differ. (The modes "self" and "public" of the log message
  can therefore never be reported.)\<close>

theorem announces_only_lan:
  assumes "advertised_addresses lib host peer = Some addrs" "adv \<in> set addrs"
  shows "\<exists>a p. lib_pton lib (c_str (get_ip_str lib adv)) = Some a
    \<and> lib_pton lib (c_str (get_ip_str lib peer)) = Some p
    \<and> (in_range a 0x0A000000 0x0AFFFFFF \<or> in_range a 0xAC100000 0xAC1FFFFF \<or> in_range a 0xC0A80000 0xC0A8FFFF)
    \<and> unat a div 256 = unat p div 256 \<and> a \<noteq> p"
  using advertised_member [OF assms] by (simp add: parse_ipv4_u32_def is_private_ipv4_ranges same_subnet24_iff)

text \<open>A library in which addresses are the texts themselves and two of them are known.\<close>

definition sample_lib :: "(string, string, string, string) ton_lib" where
  "sample_lib = \<lparr>pk_ed25519_ID = 7, key_from_hex = Some, import_key = Some, full_id = id, short_id = id,
     init_host_port = Some, init_ipv4_port = (\<lambda>h p. Some h), get_ip_str = id,
     lib_pton = (\<lambda>s. if s = ''192.168.1.5'' then Some 0xC0A80105
                     else if s = ''192.168.1.1'' then Some 0xC0A80101 else None)\<rparr>"

lemma sample_advertised: "advertised_addresses sample_lib '' 192.168.1.5'' ''192.168.1.1'' = Some [''192.168.1.5'']"
  by (simp add: advertised_addresses_def sample_lib_def Let_def trim_ascii_ws_def is_space_def
      is_unusable_advertise_host_def tolower_def parse_ipv4_u32_def c_str_def is_private_ipv4_def same_subnet24_def)

theorem announces_only_lan_witness:
  "\<exists>a p. lib_pton sample_lib (c_str (get_ip_str sample_lib ''192.168.1.5'')) = Some a
    \<and> lib_pton sample_lib (c_str (get_ip_str sample_lib ''192.168.1.1'')) = Some p
    \<and> (in_range a 0x0A000000 0x0AFFFFFF \<or> in_range a 0xAC100000 0xAC1FFFFF \<or> in_range a 0xC0A80000 0xC0A8FFFF)
    \<and> unat a div 256 = unat p div 256 \<and> a \<noteq> p"
  by (rule announces_only_lan [OF sample_advertised]) simp


section \<open>Reachable states\<close>

text \<open>Calls of the application, the scheduler thread, and messages from the network, which
  arrive at a subscribed stack.\<close>

inductive client_step ::
  "('s, 'k, 'n, 'a) ton_lib \<Rightarrow> ('s, 'k, 'n, 'a) client_rt \<Rightarrow> ('s, 'k, 'n, 'a) client_rt \<Rightarrow> bool"
  for lib :: "('s, 'k, 'n, 'a) ton_lib" where
  start: "client_step lib r (snd (client_start r))"
| scheduler: "client_step lib r (scheduler_begin lib r)"
| stop: "client_step lib r (client_stop lib r)"
| send: "client_step lib r (snd (client_send data r))"
| callback: "client_step lib r (set_callback present r)"
| inbound: "cr_stack r = Some st \<Longrightarrow> st_subscribed st \<noteq> [] \<Longrightarrow> client_step lib r (on_inbound_message data r)"

definition client_wf :: "('s, 'k, 'n, 'a) ton_lib \<Rightarrow> string \<Rightarrow> ('s, 'k, 'n, 'a) client_rt \<Rightarrow> bool" where
  "client_wf lib address r \<longleftrightarrow>
     cr_egress_adnl_address r = address
   \<and> (cr_running r \<longleftrightarrow> cr_thread r \<noteq> No_Thread)
   \<and> (cr_thread r \<noteq> Serving \<longrightarrow> \<not> cr_ready r \<and> cr_stack r = None)
   \<and> (cr_ready r \<longrightarrow>
        (\<exists>k hp peer l st. parse_egress lib address = Some (k, hp) \<and> init_host_port lib hp = Some peer
          \<and> cr_remote_short_id r = Some (short_id lib k) \<and> cr_local_id r = Some l
          \<and> cr_stack r = Some st \<and> st_peers st = [(l, k, peer)] \<and> st_subscribed st = [l] \<and> st_self_addr st))
   \<and> (\<forall>(l, d, m) \<in> set (cr_outbox r). l \<noteq> None \<and> m \<noteq> [] \<and> \<not> is_empty_data m
        \<and> (\<exists>k hp. parse_egress lib address = Some (k, hp) \<and> d = Some (short_id lib k)))"

lemma init_adnl_udp_fields [simp]:
  "cr_egress_adnl_address (init_adnl_udp lib r) = cr_egress_adnl_address r"
  "cr_running (init_adnl_udp lib r) = cr_running r"
  "cr_outbox (init_adnl_udp lib r) = cr_outbox r"
  "cr_thread (init_adnl_udp lib r) = cr_thread r"
  by (auto simp: init_adnl_udp_def Let_def split: option.splits)

lemma init_adnl_udp_ready:
  assumes "cr_ready (init_adnl_udp lib r)"
  shows "\<exists>k hp peer l st. parse_egress lib (cr_egress_adnl_address r) = Some (k, hp) \<and> init_host_port lib hp = Some peer
          \<and> cr_remote_short_id (init_adnl_udp lib r) = Some (short_id lib k)
          \<and> cr_local_id (init_adnl_udp lib r) = Some l
          \<and> cr_stack (init_adnl_udp lib r) = Some st \<and> st_peers st = [(l, k, peer)] \<and> st_subscribed st = [l]
          \<and> st_self_addr st"
  using assms by (auto simp: init_adnl_udp_def Let_def split: option.splits)

lemma client_wf_initial: "client_wf lib address (TonAdnlClientRuntime key address host)"
  by (simp add: client_wf_def TonAdnlClientRuntime_def)

lemma client_wf_begin: "client_wf lib address r \<Longrightarrow> client_wf lib address (scheduler_begin lib r)"
  using init_adnl_udp_ready [of lib r] by (auto simp: client_wf_def scheduler_begin_def)

lemma client_wf_stop:
  assumes "client_wf lib address r"
  shows "client_wf lib address (client_stop lib r)"
  using assms by (auto simp: client_wf_def client_stop_def shutdown_adnl_udp_def scheduler_begin_def)

lemma client_wf_send: "client_wf lib address r \<Longrightarrow> client_wf lib address (snd (client_send data r))"
  by (auto simp: client_wf_def client_send_def)

lemma client_wf_step: "client_step lib r r' \<Longrightarrow> client_wf lib address r \<Longrightarrow> client_wf lib address r'"
proof (induction rule: client_step.induct)
  case (start r)
  then show ?case by (auto simp: client_wf_def client_start_def)
next
  case (callback r present)
  then show ?case by (auto simp: client_wf_def set_callback_def)
next
  case (inbound r st data)
  then show ?case by (auto simp: client_wf_def on_inbound_message_def emit_inbound_def)
qed (simp_all add: client_wf_begin client_wf_stop client_wf_send)

lemma client_wf_reachable:
  "(client_step lib)\<^sup>*\<^sup>* (TonAdnlClientRuntime key address host) r \<Longrightarrow> client_wf lib address r"
  by (induction rule: rtranclp_induct) (auto simp: client_wf_initial client_wf_step)

text \<open>C19. In every reachable state of the client's runtime: every message it has sent was
  non-empty, no empty DATA frame, and addressed to the ADNL id of the server configured in the
  \<^verbatim>\<open>key@host:port\<close> address; it reports ready only while its thread serves a stack that knows
  this server as its peer and is subscribed under the client's own id; and a runtime that is
  not running holds no stack.\<close>

theorem client_runtime_invariant:
  assumes "(client_step lib)\<^sup>*\<^sup>* (TonAdnlClientRuntime key address host) r"
  shows "(\<forall>(l, d, m) \<in> set (cr_outbox r). m \<noteq> [] \<and> \<not> is_empty_data m
            \<and> (\<exists>k hp. parse_egress lib address = Some (k, hp) \<and> d = Some (short_id lib k)))
       \<and> (cr_ready r \<longrightarrow> cr_running r \<and> (\<exists>k hp peer l st. parse_egress lib address = Some (k, hp)
            \<and> cr_stack r = Some st \<and> st_peers st = [(l, k, peer)] \<and> st_subscribed st = [l]
            \<and> cr_local_id r = Some l \<and> cr_remote_short_id r = Some (short_id lib k)))
       \<and> (\<not> cr_running r \<longrightarrow> cr_stack r = None)"
  using client_wf_reachable [OF assms] by (fastforce simp: client_wf_def)

definition sample_client :: "(string, string, string, string) client_rt" where
  "sample_client = TonAdnlClientRuntime ''k'' ''key@host'' []"

definition sample_served :: "(string, string, string, string) client_rt" where
  "sample_served = snd (client_send (Some [1, 2]) (scheduler_begin sample_lib (snd (client_start sample_client))))"

lemma sample_served_reachable: "(client_step sample_lib)\<^sup>*\<^sup>* sample_client sample_served"
  unfolding sample_served_def
  by (meson client_step.start client_step.scheduler client_step.send r_into_rtranclp rtranclp_trans)

lemma sample_served_sent: "cr_outbox sample_served = [(Some ''k'', Some ''key'', [1, 2])]" "cr_ready sample_served"
  by (simp_all add: sample_served_def sample_client_def TonAdnlClientRuntime_def client_start_def scheduler_begin_def
      init_adnl_udp_def parse_egress_def sample_lib_def client_normalize_private_key_eq
      normalize_private_key_for_import_def maybe_decode_hex_def advertised_addresses_def trim_ascii_ws_def
      client_send_def is_empty_data_def Let_def)

theorem client_runtime_invariant_witness:
  "cr_outbox sample_served = [(Some ''k'', Some ''key'', [1, 2])] \<and> cr_running sample_served
   \<and> (\<exists>k hp. parse_egress sample_lib ''key@host'' = Some (k, hp) \<and> Some ''key'' = Some (short_id sample_lib k))"
  using client_runtime_invariant [OF sample_served_reachable [unfolded sample_client_def]] sample_served_sent by auto


section \<open>What the return values tell\<close>

lemma client_send_result:
  "client_send data r = (ok, r') \<Longrightarrow>
     (if ok \<and> \<not> is_empty_data (the data)
      then cr_outbox r' = cr_outbox r @ [(cr_local_id r, cr_remote_short_id r, the data)] \<and> cr_ready r
      else r' = r)"
  by (auto simp: client_send_def split: if_splits)

text \<open>A successful start says nothing about the keys: with a private key that cannot be
  imported the entry point returns 0, and every later send is refused.\<close>

lemma start_ok_but_never_ready:
  assumes h: "h = Some (TonAdnlClientRuntime key address host)"
    and bad: "import_key lib (client_normalize_private_key (pk_ed25519_ID lib) key) = None"
  shows "fst (ton_adnl_client_start h) = 0"
    and "fst (ton_adnl_client_send (map_option (scheduler_begin lib) (snd (ton_adnl_client_start h))) (Some (b # bs))) = -2"
  using assms
  by (auto simp: ton_adnl_client_start_def client_start_def ton_adnl_client_send_def scheduler_begin_def
      init_adnl_udp_def TonAdnlClientRuntime_def client_send_def Let_def split: option.split)

end
