(* ===== verification/Desktop_App.thy ===== *)
theory Desktop_App
  imports Desktop_Proxy Wintun_Bridge Adnl_Client
begin

text \<open>
  The desktop application, \<^verbatim>\<open>TON-Tunnel/TON-Tunnel.cpp\<close>: the backend that connects the core
  to the ADNL client, and the start, stop and window procedure that put the parts together. The
  global variables of the backend are the record \<open>direct\<close>; it is the backend state of the
  core, also while no core exists (\<open>dt_has_core\<close> is \<^verbatim>\<open>g_core != nullptr\<close>). Which system calls
  succeed, and the contents of the configuration files, are the fields of \<open>start_env\<close>.
\<close>

section \<open>The ADNL backend\<close>

record ('s, 'k, 'n, 'a) direct =
  da_handle :: "('s, 'k, 'n, 'a) client_rt option"
  da_queue :: "bytes list"
  da_started :: bool

definition desktop_onAdnlMessage :: "bytes option \<Rightarrow> ('s, 'k, 'n, 'a) direct \<Rightarrow> ('s, 'k, 'n, 'a) direct" where
  "desktop_onAdnlMessage data b =
     (if data = None \<or> the data = [] then b else b\<lparr>da_queue := da_queue b @ [the data]\<rparr>)"

definition direct_start ::
  "string \<Rightarrow> string \<Rightarrow> string \<Rightarrow> ('s, 'k, 'n, 'a) direct \<Rightarrow> (string + unit) \<times> ('s, 'k, 'n, 'a) direct" where
  "direct_start key address advertise b =
     (let handle = ton_adnl_client_create (Some key) (Some address) (Some advertise) in
      if handle = None then (Inl ''ton_adnl_client_create returned null'', b\<lparr>da_handle := None\<rparr>)
      else
        case ton_adnl_client_start (ton_adnl_client_set_on_message True handle) of (rc, handle) \<Rightarrow>
        if rc \<noteq> 0 then (Inl ''ton_adnl_client_start failed'', b\<lparr>da_handle := None\<rparr>)
        else (Inr (), b\<lparr>da_handle := handle, da_started := True\<rparr>))"

text \<open>Stopping destroys the runtime (\<open>ton_adnl_client_stop\<close> and \<open>ton_adnl_client_destroy\<close>).\<close>

definition direct_stop :: "('s, 'k, 'n, 'a) direct \<Rightarrow> ('s, 'k, 'n, 'a) direct" where
  "direct_stop b = b\<lparr>da_started := False, da_queue := [], da_handle := None\<rparr>"

definition direct_sendPacket :: "('s, 'k, 'n, 'a) direct packet_sender" where
  "direct_sendPacket packet b =
     (if \<not> da_started b \<or> da_handle b = None then (-1, b)
      else case ton_adnl_client_send (da_handle b) (Some packet) of (rc, handle) \<Rightarrow> (rc, b\<lparr>da_handle := handle\<rparr>))"

definition direct_receivePacket :: "('s, 'k, 'n, 'a) direct packet_receiver" where
  "direct_receivePacket b =
     (case da_queue b of [] \<Rightarrow> (None, b) | p # ps \<Rightarrow> (Some p, b\<lparr>da_queue := ps\<rparr>))"

text \<open>What has been handed to the network.\<close>

definition direct_accepted :: "('s, 'k, 'n, 'a) direct \<Rightarrow> bytes list" where
  "direct_accepted b = (case da_handle b of None \<Rightarrow> [] | Some r \<Rightarrow> map (snd \<circ> snd) (cr_outbox r))"

lemma data_frame_not_empty:
  assumes "d \<noteq> []" "length d \<le> 1200"
  shows "\<not> is_empty_data (encodeDataFrame i d)"
proof -
  let ?n = "word_of_nat (length d) :: u32"
  have "unat ?n = length d" using assms(2) by simp
  then have "?n \<noteq> 0" using assms(1) by (metis length_0_conv unsigned_0)
  moreover have "encodeDataFrame i d = 2 # be32 i @ be32 ?n @ d" by (simp add: codec_simps)
  ultimately show ?thesis
    using word_u32_split [of ?n] by (simp add: is_empty_data_def be32_def)
qed

interpretation direct: transport_backend direct_sendPacket direct_receivePacket direct_accepted da_queue
  "\<lambda>p. \<not> is_empty_data p"
proof (unfold_locales, goal_cases)
  case (1 p b)
  then show ?case
    by (cases "p = []")
       (auto simp: direct_sendPacket_def direct_accepted_def ton_adnl_client_send_def client_send_def split: option.splits)
next
  case (2 d i)
  then show ?case by (rule data_frame_not_empty)
qed (auto simp: direct_receivePacket_def direct_accepted_def split: list.split)


section \<open>The application\<close>

record start_env =
  se_exeCfg :: string
  se_cwdCfg :: string
  se_androidRaw :: string
  se_wsa_ok :: bool
  se_socket_ok :: bool
  se_bind_ok :: bool
  se_listen_ok :: bool
  se_dll :: "string + unit"
  se_adapter_ok :: bool
  se_session_ok :: bool
  se_polls :: "(string \<times> u32 \<times> u32 list) list option list"
  se_lwip_ok :: bool

record ('s, 'k, 'n, 'a) desktop =
  dt_px :: proxy_world
  dt_has_core :: bool
  dt_core :: "('s, 'k, 'n, 'a) direct core"
  dt_socks :: "socks_server option"
  dt_wintun :: "wintun option"
  dt_running :: bool
  dt_written_config :: "string option"

definition desktop_launched :: "registry \<Rightarrow> string option \<Rightarrow> ('s, 'k, 'n, 'a) desktop" where
  "desktop_launched reg state_file =
     \<lparr>dt_px = \<lparr>px_reg = reg, px_file = state_file, px_prev = no_proxy_state, px_path = False\<rparr>,
      dt_has_core = False, dt_core = TonClientCore \<lparr>da_handle = None, da_queue = [], da_started = False\<rparr>,
      dt_socks = None, dt_wintun = None, dt_running = False, dt_written_config = None\<rparr>"

abbreviation dt_backend :: "('s, 'k, 'n, 'a) desktop \<Rightarrow> ('s, 'k, 'n, 'a) direct" where
  "dt_backend d \<equiv> backend (dt_core d)"

text \<open>Dropping the core stops its receiver and, as the last owner, its backend.\<close>

definition reset_core :: "('s, 'k, 'n, 'a) desktop \<Rightarrow> ('s, 'k, 'n, 'a) desktop" where
  "reset_core d =
     (if dt_has_core d
      then d\<lparr>dt_has_core := False, dt_core := TonClientCore (direct_stop (backend (core_stop (dt_core d))))\<rparr>
      else d)"

definition stopCore :: "win \<Rightarrow> ('s, 'k, 'n, 'a) desktop \<Rightarrow> ('s, 'k, 'n, 'a) desktop" where
  "stopCore win d =
     (let d = d\<lparr>dt_px := restoreSystemProxy win (dt_px d)\<rparr>;
          d = d\<lparr>dt_wintun := map_option wintun_stop (dt_wintun d)\<rparr>;
          d = d\<lparr>dt_wintun := None\<rparr>;
          d = d\<lparr>dt_socks := map_option socks_stop (dt_socks d)\<rparr>;
          d = d\<lparr>dt_socks := None\<rparr>;
          d = reset_core d;
          d = d\<lparr>dt_core := (dt_core d)\<lparr>backend := direct_stop (dt_backend d)\<rparr>\<rparr>
      in d\<lparr>dt_running := False\<rparr>)"

text \<open>The four stages of a start with a configuration: backend and core, SOCKS server, system
  proxy, tunnel adapter. Only the first two can fail the start.\<close>

definition start_components ::
  "win \<Rightarrow> start_env \<Rightarrow> RuntimeConfig \<Rightarrow> ('s, 'k, 'n, 'a) desktop \<Rightarrow> ('s, 'k, 'n, 'a) desktop" where
  "start_components win env cfg d =
     (case direct_start (c_str (rc_clientKey cfg)) (c_str (rc_egress cfg)) (c_str (rc_advertiseHost cfg)) (dt_backend d) of
        (Inl err, b) \<Rightarrow> stopCore win (d\<lparr>dt_core := (dt_core d)\<lparr>backend := b\<rparr>\<rparr>)
      | (Inr _, b) \<Rightarrow>
          let d = d\<lparr>dt_has_core := True, dt_core := TonClientCore b\<rparr>;
              (started, core) = core_start True (dt_core d);
              d = d\<lparr>dt_core := core\<rparr> in
          if \<not> started then stopCore win d
          else
            case socks_start (se_wsa_ok env) (se_socket_ok env) (se_bind_ok env) (se_listen_ok env)
                   (rc_socksPort cfg) LocalSocks5Server of
              (Inl err, sv) \<Rightarrow> stopCore win (d\<lparr>dt_socks := Some sv\<rparr>)
            | (Inr _, sv) \<Rightarrow>
                let d = d\<lparr>dt_socks := Some sv\<rparr>;
                    d = d\<lparr>dt_px := snd (applySystemSocksProxy win (rc_socksPort cfg) (dt_px d))\<rparr>;
                    (r, w) = wintun_start (se_dll env) (se_adapter_ok env) (se_session_ok env) (se_polls env)
                               (se_lwip_ok env) ''127.0.0.1'' (rc_socksPort cfg) WintunLwipBridge
                in d\<lparr>dt_wintun := Some w, dt_running := True\<rparr>)"

definition startTunnel :: "win \<Rightarrow> start_env \<Rightarrow> ('s, 'k, 'n, 'a) desktop \<Rightarrow> ('s, 'k, 'n, 'a) desktop" where
  "startTunnel win env d =
     (let d = stopCore win d in
      case loadRuntimeConfig (se_exeCfg env) (se_cwdCfg env) (se_androidRaw env) default_runtime_config of
        Inl err \<Rightarrow> d
      | Inr (cfg, written) \<Rightarrow>
          start_components win env cfg (if written = None then d else d\<lparr>dt_written_config := written\<rparr>))"

datatype window_message = WM_CREATE | Auto_Start | Button_Start | Button_Stop | WM_DESTROY | Other_Message

definition WindowProc ::
  "win \<Rightarrow> start_env \<Rightarrow> window_message \<Rightarrow> ('s, 'k, 'n, 'a) desktop \<Rightarrow> ('s, 'k, 'n, 'a) desktop" where
  "WindowProc win env msg d =
     (case msg of
        WM_CREATE \<Rightarrow>
          let d = d\<lparr>dt_px := (dt_px d)\<lparr>px_path := True\<rparr>\<rparr> in
          d\<lparr>dt_px := recoverStaleTonProxyIfNeeded win (dt_px d)\<rparr>
      | Auto_Start \<Rightarrow> startTunnel win env d
      | Button_Start \<Rightarrow> startTunnel win env d
      | Button_Stop \<Rightarrow> stopCore win d
      | WM_DESTROY \<Rightarrow> stopCore win d
      | Other_Message \<Rightarrow> d)"

text \<open>The message loop: closing the window posts the quit message with code 0; \<open>None\<close> is a loop
  that still waits. The window procedure sees \<open>WM_CREATE\<close> while the window is created.\<close>

fun message_loop ::
  "win \<Rightarrow> (start_env \<times> window_message) list \<Rightarrow> ('s, 'k, 'n, 'a) desktop \<Rightarrow> (int \<times> ('s, 'k, 'n, 'a) desktop) option" where
  "message_loop win [] d = None"
| "message_loop win ((env, msg) # msgs) d =
     (let d = WindowProc win env msg d in
      if msg = WM_DESTROY then Some (0, d) else message_loop win msgs d)"

definition wWinMain ::
  "win \<Rightarrow> bool \<Rightarrow> bool \<Rightarrow> bool \<Rightarrow> bool \<Rightarrow> start_env \<Rightarrow> (start_env \<times> window_message) list
     \<Rightarrow> ('s, 'k, 'n, 'a) desktop \<Rightarrow> (int \<times> ('s, 'k, 'n, 'a) desktop) option" where
  "wWinMain win mutex_ok already_exists class_ok window_ok env msgs d =
     (if \<not> mutex_ok then Some (10, d)
      else if already_exists then Some (0, d)
      else if \<not> class_ok then Some (1, d)
      else if \<not> window_ok then Some (2, d)
      else message_loop win msgs (WindowProc win env WM_CREATE d))"

text \<open>The handlers of a crash, which end the process; the dump they write is left out.\<close>

definition unhandledExceptionFilter :: "win \<Rightarrow> ('s, 'k, 'n, 'a) desktop \<Rightarrow> ('s, 'k, 'n, 'a) desktop" where
  "unhandledExceptionFilter win d = d\<lparr>dt_px := restoreSystemProxy win (dt_px d)\<rparr>"

definition onTerminate :: "win \<Rightarrow> ('s, 'k, 'n, 'a) desktop \<Rightarrow> ('s, 'k, 'n, 'a) desktop" where
  "onTerminate win d = d\<lparr>dt_px := restoreSystemProxy win (dt_px d)\<rparr>"

text \<open>What happens between window messages: the scheduler of the ADNL client, a message from the
  network (when the callback is installed), and the core's receiver thread.\<close>

definition desktop_scheduler :: "('s, 'k, 'n, 'a) ton_lib \<Rightarrow> ('s, 'k, 'n, 'a) desktop \<Rightarrow> ('s, 'k, 'n, 'a) desktop" where
  "desktop_scheduler lib d =
     d\<lparr>dt_core := (dt_core d)\<lparr>backend := (dt_backend d)\<lparr>da_handle := map_option (scheduler_begin lib) (da_handle (dt_backend d))\<rparr>\<rparr>\<rparr>"

definition desktop_network :: "bytes \<Rightarrow> ('s, 'k, 'n, 'a) desktop \<Rightarrow> ('s, 'k, 'n, 'a) desktop" where
  "desktop_network data d =
     (case da_handle (dt_backend d) of
        None \<Rightarrow> d
      | Some r \<Rightarrow>
          let r' = on_inbound_message data r; b = (dt_backend d)\<lparr>da_handle := Some r'\<rparr>;
              b = (if cr_callback_log r' = cr_callback_log r then b else desktop_onAdnlMessage (Some data) b)
          in d\<lparr>dt_core := (dt_core d)\<lparr>backend := b\<rparr>\<rparr>)"

definition desktop_receiver :: "('s, 'k, 'n, 'a) desktop \<Rightarrow> ('s, 'k, 'n, 'a) desktop" where
  "desktop_receiver d =
     (if core_running (dt_core d) then d\<lparr>dt_core := receiver_iteration direct_receivePacket (dt_core d)\<rparr> else d)"

text \<open>The operations of the SOCKS workers on the core.\<close>

definition on_core :: "(('s, 'k, 'n, 'a) direct core \<Rightarrow> ('s, 'k, 'n, 'a) direct core) \<Rightarrow> ('s, 'k, 'n, 'a) desktop \<Rightarrow> ('s, 'k, 'n, 'a) desktop" where
  "on_core f d = (if dt_has_core d then d\<lparr>dt_core := f (dt_core d)\<rparr> else d)"

inductive desktop_step ::
  "win \<Rightarrow> ('s, 'k, 'n, 'a) ton_lib \<Rightarrow> ('s, 'k, 'n, 'a) desktop \<Rightarrow> ('s, 'k, 'n, 'a) desktop \<Rightarrow> bool"
  for win :: win and lib :: "('s, 'k, 'n, 'a) ton_lib" where
  message: "msg \<noteq> WM_CREATE \<Longrightarrow> desktop_step win lib d (WindowProc win env msg d)"
| scheduler: "desktop_step win lib d (desktop_scheduler lib d)"
| network: "desktop_step win lib d (desktop_network data d)"
| receiver: "desktop_step win lib d (desktop_receiver d)"
| register: "desktop_step win lib d (on_core (registerStream i) d)"
| unregister: "desktop_step win lib d (on_core (unregisterStream i) d)"
| await: "desktop_step win lib d (on_core (\<lambda>c. snd (awaitStreamFrame i c)) d)"
| send: "desktop_step win lib d (on_core (\<lambda>c. snd (send_packet direct_sendPacket p c)) d)"

definition no_backend :: "('s, 'k, 'n, 'a) direct" where
  "no_backend = \<lparr>da_handle = None, da_queue = [], da_started = False\<rparr>"

text \<open>The two states of the application, and the proxy setting \<open>user\<close> that belongs to the user.\<close>

definition backend_up :: "('s, 'k, 'n, 'a) direct \<Rightarrow> bool" where
  "backend_up b \<longleftrightarrow> da_started b \<and> (\<exists>r. da_handle b = Some r \<and> cr_running r \<and> cr_callback r)"

definition desktop_up :: "('s, 'k, 'n, 'a) desktop \<Rightarrow> bool" where
  "desktop_up d \<longleftrightarrow> dt_has_core d \<and> core_running (dt_core d) \<and> backend_up (dt_backend d)
     \<and> dt_wintun d \<noteq> None
     \<and> (\<exists>sv. dt_socks d = Some sv \<and> sv_listening sv
          \<and> effective (px_reg (dt_px d))
            = Some (wide (''socks=127.0.0.1:'' @ to_string (unat (sv_port sv))), wide ''<local>''))"

definition desktop_down :: "(wtext \<times> wtext) option \<Rightarrow> ('s, 'k, 'n, 'a) desktop \<Rightarrow> bool" where
  "desktop_down user d \<longleftrightarrow> \<not> dt_has_core d \<and> \<not> core_running (dt_core d) \<and> dt_backend d = no_backend
     \<and> dt_wintun d = None \<and> dt_socks d = None \<and> effective (px_reg (dt_px d)) = user"

definition px_ok :: "registry \<Rightarrow> proxy_world \<Rightarrow> bool" where
  "px_ok reg x \<longleftrightarrow>
     (if ps_captured (px_prev x) then \<forall>r. effective (write_proxy (px_prev x) r) = effective reg else px_reg x = reg)"

definition desktop_wf :: "registry \<Rightarrow> ('s, 'k, 'n, 'a) desktop \<Rightarrow> bool" where
  "desktop_wf reg d \<longleftrightarrow> px_ok reg (dt_px d)
     \<and> (if dt_running d then desktop_up d else desktop_down (effective reg) d)"

lemma restore_px:
  assumes "px_ok reg x" "w_reg_ok win"
  shows "px_ok reg (restoreSystemProxy win x) \<and> effective (px_reg (restoreSystemProxy win x)) = effective reg"
  using assms by (simp add: px_ok_def restoreSystemProxy_def deleteProxyStateFile_def)

lemma apply_px:
  assumes "px_ok reg x" "windows_ok win reg"
  shows "px_ok reg (snd (applySystemSocksProxy win port x))
       \<and> effective (px_reg (snd (applySystemSocksProxy win port x)))
         = Some (wide (''socks=127.0.0.1:'' @ to_string (unat port)), wide ''<local>'')"
proof -
  have reg: "w_reg_ok win" using assms(2) by (simp add: windows_ok_def)
  have in_force: "effective (r\<lparr>rg_enable := 1, rg_server := Some (wide (''socks=127.0.0.1:'' @ to_string (unat port))),
      rg_override := Some (wide ''<local>'')\<rparr>) = Some (wide (''socks=127.0.0.1:'' @ to_string (unat port)), wide ''<local>'')" for r
    by (simp add: effective_def or_empty_def wide_def)
  obtain k x' where cap: "captureSystemProxyState win x = (k, x')" by fastforce
  show ?thesis
  proof (cases "ps_captured (px_prev x)")
    case True
    then show ?thesis using assms(1) reg in_force by (simp add: px_ok_def applySystemSocksProxy_def)
  next
    case False
    then have "windows_ok win (px_reg x)" "px_reg x = reg" using assms by (simp_all add: px_ok_def)
    then have "px_ok reg x'" "ps_captured (px_prev x')" using capture_describes [OF _ cap] by (simp_all add: px_ok_def)
    then show ?thesis using False cap reg in_force by (simp add: px_ok_def applySystemSocksProxy_def)
  qed
qed

lemma stop_down:
  assumes "px_ok reg (dt_px d)" "w_reg_ok win" "\<not> dt_has_core d \<Longrightarrow> \<not> core_running (dt_core d)"
  shows "px_ok reg (dt_px (stopCore win d)) \<and> \<not> dt_running (stopCore win d) \<and> desktop_down (effective reg) (stopCore win d)"
  using assms restore_px [OF assms(1,2)]
  by (simp add: stopCore_def reset_core_def desktop_down_def direct_stop_def no_backend_def TonClientCore_def Let_def)

lemma direct_start_up: "direct_start key address advertise b = (Inr u, b') \<Longrightarrow> backend_up b'"
  by (auto simp: direct_start_def backend_up_def ton_adnl_client_create_def ton_adnl_client_start_def client_start_def
      ton_adnl_client_set_on_message_def set_callback_def TonAdnlClientRuntime_def Let_def split: if_splits prod.splits)

lemma desktop_wf_core_off: "desktop_wf reg d \<Longrightarrow> \<not> dt_has_core d \<Longrightarrow> \<not> core_running (dt_core d)"
  by (auto simp: desktop_wf_def desktop_up_def desktop_down_def split: if_splits)

lemma stop_wf:
  assumes "px_ok reg (dt_px d)" "w_reg_ok win" "\<not> dt_has_core d \<Longrightarrow> \<not> core_running (dt_core d)"
  shows "desktop_wf reg (stopCore win d)"
  using stop_down [OF assms] by (simp add: desktop_wf_def)

lemma socks_start_listens:
  "socks_start a b c d port LocalSocks5Server = (Inr u, sv) \<Longrightarrow> sv_listening sv \<and> sv_port sv = port"
  by (auto simp: socks_start_def LocalSocks5Server_def split: if_splits)

lemma start_components_wf:
  assumes off: "px_ok reg (dt_px d)" "\<not> dt_has_core d" "\<not> core_running (dt_core d)" and win: "windows_ok win reg"
  shows "desktop_wf reg (start_components win env cfg d)"
proof -
  have reg: "w_reg_ok win" using win by (simp add: windows_ok_def)
  obtain r b where st: "direct_start (c_str (rc_clientKey cfg)) (c_str (rc_egress cfg)) (c_str (rc_advertiseHost cfg)) (dt_backend d) = (r, b)"
    by fastforce
  obtain q sv where so: "socks_start (se_wsa_ok env) (se_socket_ok env) (se_bind_ok env) (se_listen_ok env)
      (rc_socksPort cfg) LocalSocks5Server = (q, sv)" by fastforce
  consider e where "r = Inl e" | u e where "r = Inr u" "q = Inl e" | u v where "r = Inr u" "q = Inr v"
    by (cases r; cases q) auto
  then show ?thesis
  proof cases
    case 1
    then show ?thesis by (auto intro!: stop_wf simp: start_components_def st off reg)
  next
    case 2
    then show ?thesis by (auto intro!: stop_wf simp: start_components_def core_start_def st so off reg)
  next
    case 3
    obtain z w where "wintun_start (se_dll env) (se_adapter_ok env) (se_session_ok env) (se_polls env)
        (se_lwip_ok env) ''127.0.0.1'' (rc_socksPort cfg) WintunLwipBridge = (z, w)" by fastforce
    with 3 have "start_components win env cfg d =
        d\<lparr>dt_has_core := True, dt_core := snd (core_start True (TonClientCore b)), dt_socks := Some sv,
          dt_px := snd (applySystemSocksProxy win (rc_socksPort cfg) (dt_px d)), dt_wintun := Some w, dt_running := True\<rparr>"
      by (simp add: start_components_def st so core_start_def Let_def)
    then show ?thesis
      using apply_px [OF off(1) win, of "rc_socksPort cfg"] socks_start_listens [of _ _ _ _ "rc_socksPort cfg" v sv]
        direct_start_up st so 3
      by (auto simp: desktop_wf_def desktop_up_def core_start_def TonClientCore_def)
  qed
qed

lemma startTunnel_wf:
  assumes d: "desktop_wf reg d" and win: "windows_ok win reg"
  shows "desktop_wf reg (startTunnel win env d)"
proof -
  let ?d = "stopCore win d"
  have off: "px_ok reg (dt_px ?d)" "desktop_wf reg ?d" "\<not> dt_has_core ?d" "\<not> core_running (dt_core ?d)"
    using stop_down [of reg d win] stop_wf [of reg d win] d win desktop_wf_core_off [OF d]
    by (auto simp: desktop_wf_def desktop_down_def windows_ok_def)
  then have "desktop_wf reg (start_components win env cfg (if written = None then ?d else ?d\<lparr>dt_written_config := written\<rparr>))"
    for cfg written
    using win by (intro start_components_wf) simp_all
  then show ?thesis using off(2) by (simp add: startTunnel_def Let_def split: sum.split prod.split split del: if_split)
qed

text \<open>Everything else leaves the two states apart and the proxy alone.\<close>

lemma desktop_wf_core:
  assumes "desktop_wf reg d" "core_running c = core_running (dt_core d)"
    and "backend_up (dt_backend d) \<Longrightarrow> backend_up (backend c)"
    and "dt_backend d = no_backend \<Longrightarrow> backend c = no_backend"
  shows "desktop_wf reg (d\<lparr>dt_core := c\<rparr>)"
  using assms by (auto simp: desktop_wf_def desktop_up_def desktop_down_def split: if_splits)

lemma backend_up_receive: "backend_up b \<Longrightarrow> backend_up (snd (direct_receivePacket b))"
  by (auto simp: backend_up_def direct_receivePacket_def split: list.split)

lemma backend_up_send: "backend_up b \<Longrightarrow> backend_up (snd (direct_sendPacket p b))"
  by (auto simp: backend_up_def direct_sendPacket_def ton_adnl_client_send_def client_send_def)

lemma no_backend_receive: "direct_receivePacket no_backend = (None, no_backend)"
  by (simp add: direct_receivePacket_def no_backend_def)

lemma no_backend_send: "direct_sendPacket p no_backend = (-1, no_backend)"
  by (simp add: direct_sendPacket_def no_backend_def)

lemma receiver_iteration_backend:
  "backend (receiver_iteration recv c) = snd (recv (backend c))"
  "core_running (receiver_iteration recv c) = core_running c"
  by (simp_all add: receiver_iteration_def Let_def split: prod.split option.split)

lemma desktop_wf_on_core:
  assumes "desktop_wf reg d" "\<And>c. core_running (f c) = core_running c"
    and "\<And>c. backend_up (backend c) \<Longrightarrow> backend_up (backend (f c))"
  shows "desktop_wf reg (on_core f d)"
proof (cases "dt_has_core d")
  case True
  then have "dt_running d" using assms(1) by (auto simp: desktop_wf_def desktop_down_def split: if_splits)
  then show ?thesis using assms True by (auto simp: on_core_def desktop_wf_def desktop_up_def)
qed (simp add: on_core_def assms(1))

lemma core_operations_keep_running:
  "core_running (registerStream i c) = core_running c" "core_running (unregisterStream i c) = core_running c"
  "core_running (snd (awaitStreamFrame i c)) = core_running c"
  "core_running (snd (send_packet sp p c)) = core_running c"
  by (simp_all add: registerStream_def unregisterStream_def awaitStreamFrame_def send_packet_def
      split: option.split list.split prod.split)

lemma core_operations_backend:
  "backend (unregisterStream i c) = backend c"
  "backend (snd (send_packet sp p c)) = snd (sp p (backend c))"
  by (simp_all add: unregisterStream_def send_packet_def split: prod.split)

lemma scheduler_keeps:
  "map_option f h = Some r' \<longleftrightarrow> (\<exists>r. h = Some r \<and> r' = f r)"
  "cr_running (scheduler_begin lib r) = cr_running r" "cr_callback (scheduler_begin lib r) = cr_callback r"
  by (auto simp: scheduler_begin_def init_adnl_udp_def Let_def split: option.split prod.split)

lemma desktop_wf_step:
  assumes "desktop_step win lib d d'" "desktop_wf reg d" "windows_ok win reg"
  shows "desktop_wf reg d'"
  using assms
proof (induction rule: desktop_step.induct)
  case (message msg d env)
  have "w_reg_ok win" "px_ok reg (dt_px d)" using message.prems by (simp_all add: windows_ok_def desktop_wf_def)
  then have "desktop_wf reg (stopCore win d)" using stop_wf desktop_wf_core_off [OF message.prems(1)] by blast
  then show ?case
    using message startTunnel_wf [OF message.prems, of env] by (cases msg) (simp_all add: WindowProc_def)
next
  case (scheduler d)
  show ?case unfolding desktop_scheduler_def
    by (rule desktop_wf_core [OF scheduler.prems(1)]) (auto simp: backend_up_def no_backend_def scheduler_keeps)
next
  case (network d data)
  show ?case
  proof (cases "da_handle (dt_backend d)")
    case (Some r)
    then have up: "dt_backend d \<noteq> no_backend" by (auto simp: no_backend_def)
    show ?thesis unfolding desktop_network_def Some option.case Let_def
      by (rule desktop_wf_core [OF network.prems(1)])
         (auto simp: backend_up_def up Some on_inbound_message_def emit_inbound_def desktop_onAdnlMessage_def)
  qed (simp add: desktop_network_def network.prems)
next
  case (receiver d)
  show ?case unfolding desktop_receiver_def
    using desktop_wf_core [OF receiver.prems(1)] receiver.prems(1)
    by (simp add: receiver_iteration_backend backend_up_receive no_backend_receive)
qed (auto intro!: desktop_wf_on_core backend_up_send simp: core_operations_keep_running core_operations_backend)

text \<open>The state after the window has been created; no setting of an earlier run is found.\<close>

abbreviation created :: "win \<Rightarrow> start_env \<Rightarrow> registry \<Rightarrow> string option \<Rightarrow> ('s, 'k, 'n, 'a) desktop" where
  "created win env reg state_file \<equiv> WindowProc win env WM_CREATE (desktop_launched reg state_file)"

lemma created_wf: "desktop_wf (px_reg (dt_px (created win env reg f :: ('s, 'k, 'n, 'a) desktop)))
    (created win env reg f :: ('s, 'k, 'n, 'a) desktop)"
  by (simp add: desktop_wf_def px_ok_def desktop_down_def WindowProc_def desktop_launched_def no_backend_def TonClientCore_def
      recoverStaleTonProxyIfNeeded_def deleteProxyStateFile_def no_proxy_state_def Let_def split: option.split)

lemma desktop_wf_reachable:
  assumes "(desktop_step win lib)\<^sup>*\<^sup>* d d'" "desktop_wf reg d" "windows_ok win reg"
  shows "desktop_wf reg d'"
  using assms by (induction rule: rtranclp_induct) (auto intro: desktop_wf_step)

text \<open>C9. After any sequence of window messages, network messages and operations of the worker
  threads the application is in one of two states: it shows "running", the core, the ADNL client
  and the listening proxy exist and the system proxy names the port that proxy listens on; or
  nothing of them is left and the proxy setting in force is the one from before. Pressing STOP or
  closing the window leads to the second state from every reachable one, and a crash that reaches
  one of the two handlers gives the setting back as well.\<close>

theorem desktop_invariant:
  fixes d d0 :: "('s, 'k, 'n, 'a) desktop"
  assumes "d0 = created win env reg f" "windows_ok win (px_reg (dt_px d0))" "(desktop_step win lib)\<^sup>*\<^sup>* d0 d"
  shows "(if dt_running d then desktop_up d else desktop_down (effective (px_reg (dt_px d0))) d)
       \<and> desktop_down (effective (px_reg (dt_px d0))) (stopCore win d)
       \<and> effective (px_reg (dt_px (onTerminate win d))) = effective (px_reg (dt_px d0))
       \<and> effective (px_reg (dt_px (unhandledExceptionFilter win d))) = effective (px_reg (dt_px d0))"
proof -
  have wf: "desktop_wf (px_reg (dt_px d0)) d"
    by (rule desktop_wf_reachable [OF assms(3) _ assms(2)]) (simp add: assms(1) created_wf)
  moreover have "desktop_down (effective (px_reg (dt_px d0))) (stopCore win d)"
    using stop_down [of _ d win] wf desktop_wf_core_off [OF wf] assms(2) by (simp add: desktop_wf_def windows_ok_def)
  moreover have "effective (px_reg (restoreSystemProxy win (dt_px d))) = effective (px_reg (dt_px d0))"
    using restore_px wf assms(2) by (auto simp: desktop_wf_def windows_ok_def)
  ultimately show ?thesis by (simp add: desktop_wf_def onTerminate_def unhandledExceptionFilter_def)
qed

definition sample_env :: start_env where
  "sample_env = \<lparr>se_exeCfg = fallback_config sample_runtime_config, se_cwdCfg = [], se_androidRaw = [],
     se_wsa_ok = True, se_socket_ok = True, se_bind_ok = True, se_listen_ok = True,
     se_dll = Inl ''wintun.dll'', se_adapter_ok = False, se_session_ok = False, se_polls = [], se_lwip_ok = False\<rparr>"

definition sample_created :: "(string, string, string, string) desktop" where
  "sample_created = created sample_win sample_env (px_reg sample_proxy) None"

lemma sample_config_loads:
  "loadRuntimeConfig (fallback_config sample_runtime_config) [] [] default_runtime_config = Inr (sample_runtime_config, None)"
proof -
  have "fallback_config sample_runtime_config \<noteq> []" by (simp add: fallback_config_def)
  moreover have "loadFromJson (fallback_config sample_runtime_config) default_runtime_config = sample_runtime_config"
    by (rule fallback_loads_back)
       (simp_all add: sample_runtime_config_def clean_def quote_char_def backslash_def config_keys_def)
  ultimately show ?thesis by (simp add: loadRuntimeConfig_def) (simp add: incomplete_def sample_runtime_config_def)
qed

lemma sample_started: "dt_running (WindowProc sample_win sample_env Auto_Start sample_created)"
  using sample_config_loads
  by (simp add: WindowProc_def startTunnel_def start_components_def sample_env_def direct_start_def ton_adnl_client_create_def
      ton_adnl_client_set_on_message_def ton_adnl_client_start_def client_start_def core_start_def socks_start_def
      LocalSocks5Server_def set_callback_def Let_def split: prod.split)

lemma sample_created_setting:
  "windows_ok sample_win (px_reg (dt_px sample_created))"
  "effective (px_reg (dt_px sample_created)) = Some (wide ''proxy:8080'', [])"
proof -
  have "px_reg (dt_px sample_created) = px_reg sample_proxy"
    by (simp add: sample_created_def WindowProc_def desktop_launched_def recoverStaleTonProxyIfNeeded_def sample_proxy_def wide_def Let_def)
  then show "windows_ok sample_win (px_reg (dt_px sample_created))"
    "effective (px_reg (dt_px sample_created)) = Some (wide ''proxy:8080'', [])"
    using sample_windows_ok by (simp_all add: sample_proxy_def effective_def or_empty_def wide_def)
qed

theorem desktop_invariant_witness:
  "dt_running (WindowProc sample_win sample_env Auto_Start sample_created)
   \<and> desktop_up (WindowProc sample_win sample_env Auto_Start sample_created)
   \<and> desktop_down (Some (wide ''proxy:8080'', [])) (stopCore sample_win (WindowProc sample_win sample_env Auto_Start sample_created))"
proof -
  have "(desktop_step sample_win sample_lib)\<^sup>*\<^sup>* sample_created (WindowProc sample_win sample_env Auto_Start sample_created)"
    by (rule r_into_rtranclp) (rule desktop_step.message, simp)
  from desktop_invariant [OF sample_created_def sample_created_setting(1) this] show ?thesis
    using sample_started sample_created_setting(2) by simp
qed

text \<open>When the program ends through its message loop nothing is left behind: whatever buttons were
  pressed, the last state is the stopped one and the user's proxy setting is in force.\<close>

lemma message_loop_ends_down:
  assumes "message_loop win msgs d = Some (code, d')" "desktop_wf reg d" "windows_ok win reg"
    and "WM_CREATE \<notin> snd ` set msgs"
  shows "code = 0 \<and> desktop_down (effective reg) d' \<and> \<not> dt_running d'"
  using assms
proof (induction win msgs d rule: message_loop.induct)
  case (2 win env msg msgs d)
  have wf: "desktop_wf reg (WindowProc win env msg d)"
  proof (rule desktop_wf_step [OF desktop_step.message "2.prems"(2,3)])
    show "msg \<noteq> WM_CREATE" using "2.prems"(4) by auto
  qed
  show ?case
  proof (cases "msg = WM_DESTROY")
    case True
    then have "d' = stopCore win d" "code = 0" using "2.prems"(1) by (simp_all add: WindowProc_def)
    then show ?thesis using wf True by (auto simp: desktop_wf_def WindowProc_def stopCore_def Let_def)
  next
    case False
    then show ?thesis using "2.IH" [of "WindowProc win env msg d"] "2.prems" wf by simp
  qed
qed simp

lemma wWinMain_leaves_nothing:
  fixes d0 d' :: "('s, 'k, 'n, 'a) desktop"
  assumes "wWinMain win True False True True env msgs (desktop_launched reg f) = Some (code, d')"
    and "d0 = created win env reg f" "windows_ok win (px_reg (dt_px d0))" "WM_CREATE \<notin> snd ` set msgs"
  shows "code = 0 \<and> desktop_down (effective (px_reg (dt_px d0))) d'"
  using message_loop_ends_down [of win msgs d0 code d' "px_reg (dt_px d0)"] assms created_wf [of win env reg f]
  by (auto simp: wWinMain_def)

end
