(* ===== verification/Transport_Factory.thy ===== *)
theory Transport_Factory
  imports Adnl_Backend
begin

text \<open>
  The transports the node can be built with and the program's entry point:
  \<^verbatim>\<open>ton_transport_stub.cpp\<close>, \<^verbatim>\<open>ton_transport_factory.cpp\<close> and \<^verbatim>\<open>main.cpp\<close> of
  \<^verbatim>\<open>ton-egress-node/src\<close>. \<^verbatim>\<open>TonTransportAdnl\<close> loads the ADNL runtime from a shared
  library; what the loader finds is a parameter (\<open>None\<close> when \<^verbatim>\<open>dlopen\<close> fails, otherwise
  whether every symbol resolved).
\<close>

section \<open>The stub\<close>

record stub =
  stub_local_address :: string
  stub_on_message :: bool
  stub_log :: "(string \<times> bytes) list"

definition TonTransportStub :: "string \<Rightarrow> stub" where
  "TonTransportStub address = \<lparr>stub_local_address = address, stub_on_message = False, stub_log = []\<rparr>"

definition stub_start :: "stub \<Rightarrow> bool \<times> stub" where "stub_start s = (True, s)"
definition stub_stop :: "stub \<Rightarrow> stub" where "stub_stop s = s"

definition stub_sendToClient :: "string \<Rightarrow> bytes \<Rightarrow> stub \<Rightarrow> bool \<times> stub" where
  "stub_sendToClient client_id payload s = (True, s\<lparr>stub_log := stub_log s @ [(client_id, payload)]\<rparr>)"

definition stub_setOnMessage :: "stub \<Rightarrow> stub" where "stub_setOnMessage s = s\<lparr>stub_on_message := True\<rparr>"

interpretation stub_transport: client_transport stub_sendToClient stub_log "\<lambda>_. True"
  by unfold_locales (auto simp: stub_sendToClient_def)


section \<open>The wrapper around the shared library\<close>

record 'p wrapper =
  library_path :: string
  wr_private_key :: string
  wr_listen_address :: string
  wr_listen_port :: u16
  so_loaded :: bool
  symbols_loaded :: bool
  handle :: "'p runtime option"
  wr_on_message :: bool

definition TonTransportAdnl :: "string \<Rightarrow> string \<Rightarrow> string \<Rightarrow> u16 \<Rightarrow> 'p wrapper" where
  "TonTransportAdnl path key address port =
     \<lparr>library_path = path, wr_private_key = key, wr_listen_address = address, wr_listen_port = port,
      so_loaded = False, symbols_loaded = False, handle = None, wr_on_message = False\<rparr>"

definition loadSymbols :: "(string \<Rightarrow> bool option) \<Rightarrow> 'p wrapper \<Rightarrow> bool \<times> 'p wrapper" where
  "loadSymbols dl w =
     (case dl (c_str (library_path w)) of
        None \<Rightarrow> (False, w\<lparr>so_loaded := False\<rparr>)
      | Some found \<Rightarrow> (found, w\<lparr>so_loaded := True, symbols_loaded := found\<rparr>))"

definition adnl_start ::
  "(string \<Rightarrow> bool option) \<Rightarrow> u32 \<Rightarrow> (string \<Rightarrow> bytes option) \<Rightarrow> (bytes \<Rightarrow> string) \<Rightarrow> 'p wrapper \<Rightarrow> bool \<times> 'p wrapper" where
  "adnl_start dl pk_id import_key hex_encode w =
     (case loadSymbols dl w of (ok, w) \<Rightarrow>
      if \<not> ok then (False, w)
      else
        let w = w\<lparr>handle := ton_adnl_create (Some (c_str (wr_private_key w))) (Some (c_str (wr_listen_address w)))
                              (wr_listen_port w)\<rparr> in
        if handle w = None then (False, w)
        else
          let w = w\<lparr>handle := map_option runtime_setOnMessage (handle w)\<rparr> in
          case ton_adnl_start pk_id import_key hex_encode (handle w) of (rc, h) \<Rightarrow>
          let w = w\<lparr>handle := h\<rparr> in (rc = 0, w))"

definition adnl_stop :: "'p wrapper \<Rightarrow> 'p wrapper" where
  "adnl_stop w = (if handle w = None then w else w\<lparr>handle := None\<rparr>)"

definition adnl_sendToClient :: "string \<Rightarrow> bytes \<Rightarrow> 'p wrapper \<Rightarrow> bool \<times> 'p wrapper" where
  "adnl_sendToClient client_id payload w =
     (if handle w = None then (False, w)
      else case ton_adnl_send (handle w) (Some (c_str client_id)) (if payload = [] then None else Some payload) of
             (rc, h) \<Rightarrow> (rc = 0, w\<lparr>handle := h\<rparr>))"

definition adnl_localAddress :: "'p wrapper \<Rightarrow> string" where
  "adnl_localAddress w =
     (if handle w = None \<or> \<not> symbols_loaded w then []
      else case ton_adnl_local_address (handle w) of Some a \<Rightarrow> c_str a | None \<Rightarrow> [])"

definition adnl_setOnMessage :: "'p wrapper \<Rightarrow> 'p wrapper" where
  "adnl_setOnMessage w = w\<lparr>wr_on_message := True\<rparr>"

text \<open>The bridge from the library's C callback to the node: what the handler is called with.
  The id arrives as a C string; an empty payload may arrive as a null pointer and is then
  ignored, which makes no difference to the node.\<close>

definition onMessageBridge :: "'p wrapper \<Rightarrow> string \<times> bytes \<Rightarrow> (string \<times> bytes) option" where
  "onMessageBridge w call =
     (case call of (client_id, data) \<Rightarrow>
        if data = [] then None
        else if \<not> wr_on_message w then None
        else Some (c_str client_id, data))"

definition wrapper_delivered :: "'p wrapper \<Rightarrow> (string \<times> bytes) list" where
  "wrapper_delivered w = (case handle w of None \<Rightarrow> [] | Some rt \<Rightarrow> runtime_delivered rt)"

interpretation adnl_wrapper: client_transport adnl_sendToClient wrapper_delivered "\<lambda>c. CHR 0x00 \<notin> set c"
proof
  show "wrapper_delivered t' = wrapper_delivered t @ [(c, b)]"
    if "CHR 0x00 \<notin> set c" "adnl_sendToClient c b t = (True, t')" for c b and t t' :: "'p wrapper"
    using that adnl_runtime.send_ok [OF TrueI]
    by (auto simp: adnl_sendToClient_def ton_adnl_send_def c_str_id wrapper_delivered_def
        split: option.splits if_splits prod.splits)
  show "wrapper_delivered t' = wrapper_delivered t"
    if "CHR 0x00 \<notin> set c" "adnl_sendToClient c b t = (False, t')" for c b and t t' :: "'p wrapper"
    using that adnl_runtime.send_failed [OF TrueI]
    by (auto simp: adnl_sendToClient_def ton_adnl_send_def c_str_id wrapper_delivered_def
        split: option.splits if_splits prod.splits)
qed

section \<open>The factory and the entry point\<close>

datatype 'p ITonTransport = Stub stub | Adnl "'p wrapper"

definition createTonTransport :: "string \<Rightarrow> string \<Rightarrow> string \<Rightarrow> string \<Rightarrow> u16 \<Rightarrow> 'p ITonTransport" where
  "createTonTransport backend path key address port =
     (if backend = ''adnl'' then Adnl (TonTransportAdnl path key address port)
      else Stub (TonTransportStub ''stub-adnl-address''))"

text \<open>Dynamic dispatch through the interface.\<close>

fun transport_sendToClient :: "string \<Rightarrow> bytes \<Rightarrow> 'p ITonTransport \<Rightarrow> bool \<times> 'p ITonTransport" where
  "transport_sendToClient c b (Stub s) = apsnd Stub (stub_sendToClient c b s)"
| "transport_sendToClient c b (Adnl w) = apsnd Adnl (adnl_sendToClient c b w)"

fun transport_start ::
  "(string \<Rightarrow> bool option) \<Rightarrow> u32 \<Rightarrow> (string \<Rightarrow> bytes option) \<Rightarrow> (bytes \<Rightarrow> string) \<Rightarrow> 'p ITonTransport \<Rightarrow> bool \<times> 'p ITonTransport" where
  "transport_start dl pk_id import_key hex_encode (Stub s) = apsnd Stub (stub_start s)"
| "transport_start dl pk_id import_key hex_encode (Adnl w) = apsnd Adnl (adnl_start dl pk_id import_key hex_encode w)"

fun transport_stop :: "'p ITonTransport \<Rightarrow> 'p ITonTransport" where
  "transport_stop (Stub s) = Stub (stub_stop s)"
| "transport_stop (Adnl w) = Adnl (adnl_stop w)"

fun transport_setOnMessage :: "'p ITonTransport \<Rightarrow> 'p ITonTransport" where
  "transport_setOnMessage (Stub s) = Stub (stub_setOnMessage s)"
| "transport_setOnMessage (Adnl w) = Adnl (adnl_setOnMessage w)"

fun transport_delivered :: "'p ITonTransport \<Rightarrow> (string \<times> bytes) list" where
  "transport_delivered (Stub s) = stub_log s"
| "transport_delivered (Adnl w) = wrapper_delivered w"

interpretation any_transport: client_transport transport_sendToClient transport_delivered "\<lambda>c. CHR 0x00 \<notin> set c"
proof
  show "transport_delivered t' = transport_delivered t @ [(c, b)]"
    if "CHR 0x00 \<notin> set c" "transport_sendToClient c b t = (True, t')" for c b and t t' :: "'p ITonTransport"
    using that stub_transport.send_ok [OF TrueI] adnl_wrapper.send_ok
    by (cases t) (force simp: apsnd_def map_prod_def split: prod.splits)+
  show "transport_delivered t' = transport_delivered t"
    if "CHR 0x00 \<notin> set c" "transport_sendToClient c b t = (False, t')" for c b and t t' :: "'p ITonTransport"
    using that stub_transport.send_failed [OF TrueI] adnl_wrapper.send_failed
    by (cases t) (force simp: apsnd_def map_prod_def split: prod.splits)+
qed

text \<open>The command line after the program name: the last \<^verbatim>\<open>--config\<close> that has an argument
  wins.\<close>

fun config_path :: "string list \<Rightarrow> string \<Rightarrow> string" where
  "config_path (a # b # r) p = (if a = ''--config'' then config_path r b else config_path (b # r) p)"
| "config_path _ p = p"

text \<open>\<open>files\<close> is the file system, \<open>serve\<close> what happens to the node between start and signal.
  The result is the exit code and, where a node was built, its final state (the destructor's
  \<open>stop\<close> included).\<close>

definition main_program ::
  "(string \<Rightarrow> string option) \<Rightarrow> (string \<Rightarrow> bool option) \<Rightarrow> u32 \<Rightarrow> (string \<Rightarrow> bytes option) \<Rightarrow> (bytes \<Rightarrow> string) \<Rightarrow> io \<Rightarrow>
   ('p ITonTransport node \<Rightarrow> 'p ITonTransport node) \<Rightarrow> string list \<Rightarrow> int \<times> 'p ITonTransport node option" where
  "main_program files dl pk_id import_key hex_encode io serve args =
     (let path = config_path args ''../config.json'' in
      case loadConfigOrThrow path (files path) of
        Inl e \<Rightarrow> (2, None)
      | Inr cfg \<Rightarrow>
          let t = createTonTransport (transport_backend cfg) (adnl_library_path cfg) (private_key cfg)
                    (adnl_listen_address cfg) (listen_port cfg) in
          case node_start transport_setOnMessage (transport_start dl pk_id import_key hex_encode) (EgressNode cfg t) of
            (ok, n) \<Rightarrow>
              if \<not> ok then (1, Some (node_stop transport_stop io n))
              else (0, Some (node_stop transport_stop io (node_stop transport_stop io (serve n)))))"


section \<open>Properties\<close>



text \<open>C38. The program exits with 2 when the configuration cannot be loaded and with 1 when the
  transport does not start (ADNL backend without its library or symbols); otherwise, if the
  node was still running when the signal arrived, it exits with 0 with every socket of its
  table closed and no stream left.\<close>

theorem main_exit_codes:
  fixes serve :: "'p ITonTransport node \<Rightarrow> 'p ITonTransport node"
  assumes serve: "\<And>n. node_wf n \<Longrightarrow> running n \<Longrightarrow> node_wf (serve n) \<and> running (serve n)"
  shows "case main_program files dl pk_id import_key hex_encode io serve args of (code, final) \<Rightarrow>
    (let path = config_path args ''../config.json'' in
     case loadConfigOrThrow path (files path) of
       Inl e \<Rightarrow> code = 2 \<and> final = None
     | Inr cfg \<Rightarrow>
         (if transport_backend cfg = ''adnl'' \<and> dl (c_str (adnl_library_path cfg)) \<noteq> Some True then code = 1
          else code = 0 \<and> (\<exists>n. final = Some n \<and> active n = Map.empty \<and> \<not> running n)))"
proof (cases "loadConfigOrThrow (config_path args ''../config.json'') (files (config_path args ''../config.json''))")
  case (Inl e)
  then show ?thesis by (simp add: main_program_def)
next
  case (Inr cfg)
  let ?t = "createTonTransport (transport_backend cfg) (adnl_library_path cfg) (private_key cfg)
      (adnl_listen_address cfg) (listen_port cfg) :: 'p ITonTransport"
  let ?start = "node_start transport_setOnMessage (transport_start dl pk_id import_key hex_encode) (EgressNode cfg ?t)"
  have ok: "fst ?start \<longleftrightarrow> \<not> (transport_backend cfg = ''adnl'' \<and> dl (c_str (adnl_library_path cfg)) \<noteq> Some True)"
    by (auto simp: node_start_def createTonTransport_def TonTransportAdnl_def EgressNode_def adnl_setOnMessage_def
        adnl_start_def loadSymbols_def ton_adnl_create_def ton_adnl_start_def runtime_start_def stub_start_def
        stub_setOnMessage_def TonTransportStub_def Let_def split: option.splits prod.splits if_splits)
  have "node_wf (snd ?start)" by (rule node_wf_start [OF node_wf_initial])
  moreover have "running (snd ?start)" if "fst ?start"
    using that by (auto simp: node_start_def Let_def case_prod_beta split: if_splits)
  ultimately have final: "active (node_stop transport_stop io (node_stop transport_stop io (serve (snd ?start)))) = Map.empty \<and>
      \<not> running (node_stop transport_stop io (node_stop transport_stop io (serve (snd ?start))))" if "fst ?start"
    using that serve [of "snd ?start"] node_stop_effect [of "serve (snd ?start)" transport_stop io transport_stop io]
    by (simp add: Let_def)
  show ?thesis
    using Inr ok final by (auto simp: main_program_def Let_def case_prod_beta)
qed

theorem main_exit_codes_witness:
  "fst (main_program (\<lambda>_. Some ''{ }'') (\<lambda>_. Some True) 7 (\<lambda>_. None) str_of_bytes sample_io
     (id :: nat ITonTransport node \<Rightarrow> _) [''--config'', ''a.json'']) = 0"
  using main_exit_codes [where serve = "id :: nat ITonTransport node \<Rightarrow> _" and files = "\<lambda>_. Some ''{ }''"
      and dl = "\<lambda>_. Some True" and pk_id = 7 and import_key = "\<lambda>_. None" and hex_encode = str_of_bytes
      and io = sample_io and args = "[''--config'', ''a.json'']"]
  by (simp add: load_without_keys quote_char_def default_config_def case_prod_beta)

end
