(* ===== verification/End_To_End.thy ===== *)
theory End_To_End
  imports Desktop_App Transport_Factory
begin

text \<open>
  The two ends of the tunnel together: the desktop client with its ADNL backend
  (\<open>Client_Core\<close>, \<open>Local_Socks5\<close>, \<open>Adnl_Client\<close>, \<open>Desktop_App\<close>) and the egress node over its
  ADNL runtime (\<open>Egress_Node\<close>, \<open>Adnl_Backend\<close>). The network between them is the argument that
  says which packets arrive; the statements are about the packets that do, in order.
\<close>

section \<open>Towards the target\<close>

text \<open>The packets of a client reach the node one after the other, each with the answers of the
  outside world while it is handled.\<close>

primrec deliver_all :: "'t sender \<Rightarrow> string \<Rightarrow> (io \<times> bytes) list \<Rightarrow> 't node \<Rightarrow> 't node option" where
  "deliver_all send c [] n = Some n"
| "deliver_all send c (p # ps) n =
     (case onAdnlMessage send (\<lambda>_. fst p) c (snd p) n of None \<Rightarrow> None | Some n' \<Rightarrow> deliver_all send c ps n')"

text \<open>What a list of socket operations writes to a descriptor.\<close>

fun written_to :: "int \<Rightarrow> sock_op list \<Rightarrow> bytes" where
  "written_to fd [] = []"
| "written_to fd (Send_To f d # os) = (if f = fd then d else []) @ written_to fd os"
| "written_to fd (op # os) = written_to fd os"

lemma deliver_data:
  assumes wf: "node_wf n" and fd: "active n (c, i) = Some fd" and limit: "1200 \<le> unat (max_payload_bytes (egress (config n)))"
    and d: "d \<noteq> []" "length d \<le> 1200" and kernel: "io_send io fd d = int (length d)"
  obtains n' where "onAdnlMessage send (\<lambda>_. io) c (encodeDataFrame i d) n = Some n'" "node_wf n'" "active n' = active n"
    "config n' = config n" "ops n' = ops n @ [Send_To fd d]" "transport n' = transport n"
proof -
  let ?n = "n\<lparr>cnt := (cnt n)\<lparr>rx_bytes := rx_bytes (cnt n) + int (length (wire (Data_Frame i d)))\<rparr>\<rparr>"
  let ?m = "handleData send io c i d ?n"
  have "length d < 2 ^ 32" using d(2) by simp
  then have "onAdnlMessage send (\<lambda>_. io) c (encodeDataFrame i d) n = Some (maybeLogCounters (io_now io) ?m)"
    using onAdnlMessage_runs [of "[Data_Frame i d]" send io c n]
    by (simp add: client_encoders_wire dispatch_def empty_message_def)
  moreover have "active ?m = active n \<and> ops ?m = ops n @ [Send_To fd d] \<and> transport ?m = transport n"
    using handleData_effect [of ?n c i fd d send io] assms by (simp add: Let_def)
  moreover have "node_wf ?m" using wf by (simp add: node_wf_handleData)
  moreover have "config ?m = config n" by (simp add: handleData_def Let_def split: option.split)
  ultimately show thesis by (intro that [of "maybeLogCounters (io_now io) ?m"]) simp_all
qed

lemma deliver_segments:
  assumes "node_wf n" "active n (c, i) = Some fd" "1200 \<le> unat (max_payload_bytes (egress (config n)))"
    and "map snd ps = map (encodeDataFrame i) segs" "\<forall>d \<in> set segs. d \<noteq> [] \<and> length d \<le> 1200"
    and "\<forall>(io, p) \<in> set ps. \<forall>d. io_send io fd d = int (length d)"
  shows "\<exists>n'. deliver_all send c ps n = Some n' \<and> active n' = active n \<and> transport n' = transport n
           \<and> (\<exists>done. ops n' = ops n @ done \<and> written_to fd done = concat segs)"
  using assms
proof (induction ps arbitrary: n segs)
  case (Cons p ps)
  obtain io b where p: "p = (io, b)" by fastforce
  obtain d ds where segs: "segs = d # ds" "b = encodeDataFrame i d" "map snd ps = map (encodeDataFrame i) ds"
    using Cons.prems(4) p by (cases segs) auto
  have d: "d \<noteq> []" "length d \<le> 1200" "io_send io fd d = int (length d)" using Cons.prems(5,6) segs p by auto
  obtain m where m: "onAdnlMessage send (\<lambda>_. io) c b n = Some m" "node_wf m" "active m = active n" "config m = config n"
    "ops m = ops n @ [Send_To fd d]" "transport m = transport n"
    using deliver_data [OF Cons.prems(1-3) d, of send] segs(2) by blast
  obtain n' rest where "deliver_all send c ps m = Some n'" "active n' = active m" "transport n' = transport m"
    "ops n' = ops m @ rest" "written_to fd rest = concat ds"
    using Cons.IH [of m ds] Cons.prems m segs by (auto simp: segs(1))
  then show ?case using m p segs by (intro exI [of _ n']) (auto intro!: exI [of _ "Send_To fd d # rest"])
qed simp

text \<open>C6. Uplink, end to end: the bytes a browser's connection has handed to the tunnel are the
  bytes the egress node writes to the target. Over any interleaving of the bridge's threads, the
  packets the ADNL client has accepted for a bridged stream, when they reach a node that holds
  the stream open (with a payload limit of at least 1200 and a kernel that accepts each write),
  make the node write exactly the bytes read from the browser to that stream's socket, in order,
  and send nothing back.\<close>

theorem uplink_end_to_end:
  fixes b :: "('s, 'k, 'n, 'a) direct bridge"
  assumes "(bridge_step direct_sendPacket direct_receivePacket i)\<^sup>*\<^sup>* (bridge_opened s core) b" "br_uplink b"
    and "direct_accepted (backend (br_core b)) = direct_accepted (backend core) @ map snd ps"
    and "node_wf n" "active n (c, i) = Some fd" "1200 \<le> unat (max_payload_bytes (egress (config n)))"
    and "\<forall>(io, p) \<in> set ps. \<forall>d. io_send io fd d = int (length d)"
  shows "\<exists>n'. deliver_all send c ps n = Some n' \<and> active n' = active n \<and> transport n' = transport n
           \<and> (\<exists>done. ops n' = ops n @ done \<and> written_to fd done = br_read b)"
proof -
  obtain segs where "map snd ps = map (encodeDataFrame i) segs" "\<forall>d \<in> set segs. d \<noteq> [] \<and> length d \<le> 1200"
    "br_read b = concat segs"
    using direct.bridge_wf_reachable [OF assms(1)] assms(2,3) unfolding bridge_wf_def by auto
  with deliver_segments [OF assms(4-6) _ _ assms(7)] show ?thesis by simp
qed

definition sample_backend :: "(string, string, string, string) direct" where
  "sample_backend = \<lparr>da_handle = Some sample_served, da_queue = [], da_started = True\<rparr>"

definition sample_uplink :: "(string, string, string, string) direct bridge" where
  "sample_uplink = uplink_step direct_sendPacket 5 True (bridge_opened sample_browser (registerStream 5 (TonClientCore sample_backend)))"

lemma sample_backend_sends:
  "direct_sendPacket (encodeDataFrame 5 [1, 2]) sample_backend
   = (0, sample_backend\<lparr>da_handle := Some (sample_served\<lparr>cr_outbox := cr_outbox sample_served
        @ [(cr_local_id sample_served, cr_remote_short_id sample_served, encodeDataFrame 5 [1, 2])]\<rparr>)\<rparr>)"
proof -
  have "cr_stack sample_served \<noteq> None"
    using client_wf_reachable [OF sample_served_reachable [unfolded sample_client_def]] sample_served_sent(2) by (auto simp: client_wf_def)
  moreover have "encodeDataFrame 5 [1, 2] \<noteq> []" by (simp add: codec_simps)
  ultimately show ?thesis
    using data_frame_not_empty [of "[1, 2]" 5] sample_served_sent(2)
    by (simp add: direct_sendPacket_def sample_backend_def ton_adnl_client_send_def client_send_def)
qed

lemma sample_uplink_reachable:
  "(bridge_step direct_sendPacket direct_receivePacket 5)\<^sup>*\<^sup>*
     (bridge_opened sample_browser (registerStream 5 (TonClientCore sample_backend))) sample_uplink"
  unfolding sample_uplink_def by (rule r_into_rtranclp) (rule bridge_step.uplink)

lemma sample_uplink_state:
  "br_uplink sample_uplink" "br_read sample_uplink = [1, 2]"
  "direct_accepted (backend (br_core sample_uplink))
     = direct_accepted (backend (registerStream 5 (TonClientCore sample_backend))) @ map snd [(sample_io, encodeDataFrame 5 [1, 2])]"
proof -
  let ?c = "registerStream 5 (TonClientCore sample_backend)"
  have b: "backend ?c = sample_backend" by (simp add: TonClientCore_def)
  have send: "fst (sendStreamData direct_sendPacket 5 [1, 2] ?c) = 0"
    "direct_accepted (backend (snd (sendStreamData direct_sendPacket 5 [1, 2] ?c)))
       = direct_accepted sample_backend @ [encodeDataFrame 5 [1, 2]]"
    using b sample_backend_sends
    by (simp_all add: sendStreamData.simps kDataSegmentSize_def send_packet_def case_prod_beta)
       (simp add: direct_accepted_def sample_backend_def)
  show "br_uplink sample_uplink" "br_read sample_uplink = [1, 2]"
    "direct_accepted (backend (br_core sample_uplink)) = direct_accepted (backend ?c) @ map snd [(sample_io, encodeDataFrame 5 [1, 2])]"
    using send b
    by (simp_all add: sample_uplink_def bridge_opened_def sample_browser_def uplink_step_def sock_recv_def
        kBridgeBuffer_def case_prod_beta)
qed

theorem uplink_end_to_end_witness:
  "\<exists>n' done. deliver_all sample_send ''c'' [(sample_io, encodeDataFrame 5 [1, 2])] sample_node = Some n'
     \<and> ops n' = ops sample_node @ done \<and> written_to 7 done = [1, 2]"
proof -
  have "active sample_node (''c'', 5) = Some 7" by (simp add: active_def sample_node_state)
  moreover have "1200 \<le> unat (max_payload_bytes (egress (config sample_node)))"
    by (simp add: sample_node_state default_config_def)
  moreover have "\<forall>(io, p) \<in> set [(sample_io, encodeDataFrame 5 [1, 2])]. \<forall>d. io_send io 7 d = int (length d)"
    by (simp add: sample_io_def)
  ultimately show ?thesis
    using uplink_end_to_end [OF sample_uplink_reachable sample_uplink_state(1,3) sample_node_wf, of "''c''" 7 sample_send]
      sample_uplink_state(2)
    by auto
qed

text \<open>C17. A bridged connection is transparent in both directions, over any interleaving of its two
  threads with the receiver thread: at every moment the packets the ADNL client has taken since
  the bridge began are DATA frames of this stream, of 1 to 1200 bytes, that spell out the bytes
  read from the client, and the bytes written to the client spell out the payloads taken from
  the stream; only the last read (or payload) may be cut, and then that direction has ended.\<close>

theorem bridge_transparent:
  fixes b :: "('s, 'k, 'n, 'a) direct bridge"
  assumes "(bridge_step direct_sendPacket direct_receivePacket i)\<^sup>*\<^sup>* (bridge_opened s core) b"
  shows "(\<exists>segs lost. direct_accepted (backend (br_core b)) = direct_accepted (backend core) @ map (encodeDataFrame i) segs
            \<and> (\<forall>d \<in> set segs. d \<noteq> [] \<and> length d \<le> 1200)
            \<and> br_read b = concat segs @ lost \<and> (br_uplink b \<longrightarrow> lost = []))
       \<and> (\<exists>written lost. c_out (br_sock b) = c_out s @ written
            \<and> br_got b = written @ lost \<and> (br_down b \<longrightarrow> lost = []))"
  using direct.bridge_wf_reachable [OF assms] unfolding bridge_wf_def .

theorem bridge_transparent_witness:
  "\<exists>segs. direct_accepted (backend (br_core sample_uplink)) = direct_accepted sample_backend @ map (encodeDataFrame 5) segs
     \<and> concat segs = [1, 2]"
proof -
  have "backend (registerStream 5 (TonClientCore sample_backend)) = sample_backend" by (simp add: TonClientCore_def)
  then show ?thesis
    using bridge_transparent [OF sample_uplink_reachable] sample_uplink_state(1,2) by auto
qed

section \<open>Towards the browser\<close>

lemma queue_after_messages:
  "da_queue (fold (\<lambda>p. desktop_onAdnlMessage (Some p)) ps b) = da_queue b @ filter (\<lambda>p. p \<noteq> []) ps"
  by (induction ps arbitrary: b) (simp_all add: desktop_onAdnlMessage_def)

lemma server_and_client_data_frames: "encodeData \<lparr>dm_stream_id = i, dm_payload = d\<rparr> = encodeDataFrame i d"
  by (simp add: codec_simps client_encoders_wire)

text \<open>C7. Downlink, end to end: a buffer that the node read from a target and pushed to its client
  reaches the waiting stream of the desktop client unchanged. When the ADNL messages the node
  sent for it arrive at the client's callback, the core's receiver thread, taking one packet per
  turn, appends to the stream's queue DATA frames of that stream whose payloads concatenate to
  the buffer.\<close>

theorem downlink_end_to_end:
  fixes core :: "('s, 'k, 'n, 'a) direct core"
  assumes "push_data runtime_sendToClient c i buf n = (True, n')"
    and "map_of (streamQueues core) i = Some q" "da_queue (backend core) = []"
    and "map (\<lambda>(c, dst, p). (c, p)) (outbox (transport n')) = map (\<lambda>(c, dst, p). (c, p)) (outbox (transport n)) @ map (Pair c) ps"
  shows "\<exists>frames. map_of (streamQueues ((receiver_iteration direct_receivePacket ^^ length ps)
                (core\<lparr>backend := fold (\<lambda>p. desktop_onAdnlMessage (Some p)) ps (backend core)\<rparr>))) i = Some (q @ frames)
           \<and> concat (map if_payload frames) = buf \<and> (\<forall>f \<in> set frames. if_type f = FT_Data \<and> if_streamId f = i)"
proof -
  let ?segs = "chunks kMaxDataChunkBytes buf"
  have pos: "0 < kMaxDataChunkBytes" by (simp add: kMaxDataChunkBytes_def)
  from adnl_runtime.push_data_delivered [OF TrueI, of c i buf n] assms(1)
  have "runtime_delivered (transport n') = runtime_delivered (transport n) @ map (\<lambda>d. (c, encodeDataFrame i d)) ?segs"
    by (auto simp: server_and_client_data_frames)
  then have "map (Pair c) ps = map (Pair c) (map (encodeDataFrame i) ?segs)"
    using assms(4) by (simp add: runtime_delivered_def comp_def)
  from arg_cong [OF this, of "map snd"] have ps: "ps = map (encodeDataFrame i) ?segs" by (simp add: comp_def)
  have "filter (\<lambda>p. p \<noteq> []) ps = ps" by (simp add: ps client_encoders_wire filter_id_conv)
  moreover have "\<forall>d \<in> set ?segs. length d < 2 ^ 32"
    using chunks_bounds [OF pos] by (fastforce simp: kMaxDataChunkBytes_def)
  ultimately have "map_of (streamQueues ((receiver_iteration direct_receivePacket ^^ length ?segs)
      (core\<lparr>backend := fold (\<lambda>p. desktop_onAdnlMessage (Some p)) ps (backend core)\<rparr>))) i
      = Some (q @ map (\<lambda>d. inbound_of (Data_Frame i d)) ?segs)"
    using direct.receiver_drains [of "core\<lparr>backend := fold (\<lambda>p. desktop_onAdnlMessage (Some p)) ps (backend core)\<rparr>" i ?segs q]
      assms(2,3) by (simp add: queue_after_messages ps)
  then show ?thesis
    using concat_chunks [OF pos, of buf] by (auto simp: ps comp_def intro!: exI [of _ "map (\<lambda>d. inbound_of (Data_Frame i d)) ?segs"])
qed

definition sample_pushing :: "nat runtime node" where
  "sample_pushing = EgressNode default_config (sample_runtime\<lparr>known_clients := [(''c'', 0)]\<rparr>)"

lemma sample_push:
  "fst (push_data runtime_sendToClient ''c'' 5 [1, 2, 3] sample_pushing)"
  "outbox (transport (snd (push_data runtime_sendToClient ''c'' 5 [1, 2, 3] sample_pushing)))
     = [(''c'', 0, encodeDataFrame 5 [1, 2, 3])]"
proof -
  have "rt_running (transport sample_pushing)" "adnl_live (transport sample_pushing)" "outbox (transport sample_pushing) = []"
    "map_of (known_clients (transport sample_pushing)) ''c'' = Some 0"
    by (simp_all add: sample_pushing_def EgressNode_def sample_runtime_def AdnlBackendRuntime_def)
  moreover have "encodeDataFrame 5 [1, 2, 3] \<noteq> []" by (simp add: client_encoders_wire)
  ultimately have "fst (runtime_sendToClient ''c'' (encodeDataFrame 5 [1, 2, 3]) (transport sample_pushing))"
    "outbox (snd (runtime_sendToClient ''c'' (encodeDataFrame 5 [1, 2, 3]) (transport sample_pushing)))
       = [(''c'', 0, encodeDataFrame 5 [1, 2, 3])]"
    by (auto simp: runtime_sendToClient_def Let_def split: option.splits)
  then show "fst (push_data runtime_sendToClient ''c'' 5 [1, 2, 3] sample_pushing)"
    "outbox (transport (snd (push_data runtime_sendToClient ''c'' 5 [1, 2, 3] sample_pushing)))
       = [(''c'', 0, encodeDataFrame 5 [1, 2, 3])]"
    using push_data_step [of "[1, 2, 3]" runtime_sendToClient "''c''" 5 sample_pushing]
    by (simp_all add: kMaxDataChunkBytes_def server_and_client_data_frames Let_def)
qed

theorem downlink_end_to_end_witness:
  "\<exists>frames. map_of (streamQueues ((receiver_iteration direct_receivePacket ^^ 1)
       ((registerStream 5 (TonClientCore sample_backend))\<lparr>backend :=
          desktop_onAdnlMessage (Some (encodeDataFrame 5 [1, 2, 3])) sample_backend\<rparr>))) 5 = Some frames
     \<and> concat (map if_payload frames) = [1, 2, 3]"
proof -
  let ?core = "registerStream 5 (TonClientCore sample_backend)"
  have "push_data runtime_sendToClient ''c'' 5 [1, 2, 3] sample_pushing
      = (True, snd (push_data runtime_sendToClient ''c'' 5 [1, 2, 3] sample_pushing))"
    using sample_push(1) by (simp add: prod_eq_iff)
  moreover have "map_of (streamQueues ?core) 5 = Some []" "backend ?core = sample_backend" "da_queue sample_backend = []"
    by (simp_all add: TonClientCore_def sample_backend_def registerStream_def)
  moreover have "outbox (transport sample_pushing) = []"
    by (simp add: sample_pushing_def EgressNode_def sample_runtime_def AdnlBackendRuntime_def)
  ultimately show ?thesis
    using downlink_end_to_end [of "''c''" 5 "[1, 2, 3]" sample_pushing _ ?core "[]" "[encodeDataFrame 5 [1, 2, 3]]"]
      sample_push(2)
    by fastforce
qed

section \<open>Opening a stream\<close>

lemma opened_over_runtime:
  assumes "rt_running (transport n)" "adnl_live (transport n)" "map_of (known_clients (transport n)) c = Some src"
    and "io_thread_error io = None"
  shows "outbox (transport (opened runtime_sendToClient io c i fd n))
       = outbox (transport n) @ [(c, src, encodeOpenAckFrame i)]"
proof -
  have ack: "encodeOpen \<lparr>cm_stream_id = i\<rparr> = encodeOpenAckFrame i" "encodeOpenAckFrame i \<noteq> []"
    using open_ack_alone [of i] by (simp_all add: ack_bytes)
  have "fst (runtime_sendToClient c (encodeOpenAckFrame i) (transport n))"
    using assms ack(2) by (auto simp: runtime_sendToClient_def Let_def split: option.splits)
  then show ?thesis
    using runtime_send_outbox [of c "encodeOpenAckFrame i" "transport n"] assms(3,4)
    by (simp add: opened_def Let_def ack(1))
qed

lemma ack_opens_stream:
  assumes "map_of (streamQueues core) i = Some []" "da_queue (backend core) = [encodeOpenAckFrame i]"
    and "t_now t < deadline" "t_receiver t = receiver_iteration direct_receivePacket"
  shows "\<exists>core'. open_loop i deadline (t # ts) None core = Some (0, core')"
proof -
  let ?c = "receiver_iteration direct_receivePacket core"
  have "direct_receivePacket (backend core) = (Some (encodeOpenAckFrame i), (backend core)\<lparr>da_queue := []\<rparr>)"
    using assms(2) by (simp add: direct_receivePacket_def)
  from receiver_iteration_packet(3) [of direct_receivePacket, OF this, of i]
  have "map_of (streamQueues ?c) i = Some [ack_frame i]"
    using assms(1) by (simp add: decode_ack of_stream_def queue_after_def ack_frame_def)
  then show ?thesis
    using assms(3,4) by (simp add: awaitStreamFrame_def ack_frame_def)
qed

text \<open>C8. Opening a stream, end to end: when the OPEN packet of the desktop core reaches a node whose
  policy permits the request, whose client is below its limit and whose resolver and connect
  succeed, the node connects, enters the stream, and answers the sender with exactly one
  message; when that message reaches the client before the deadline, \<open>openStream\<close> returns 0.\<close>

theorem open_end_to_end:
  fixes core :: "('s, 'k, 'n, 'a) direct core"
  assumes wf: "node_wf n" and up: "rt_running (transport n)" "adnl_live (transport n)" "on_message_set (transport n)"
    and permitted: "open_permitted (config n) (serialize src) host port token" "length token < 2 ^ 16"
      "stream_count (serialize src) n < max_streams (config n)"
    and connects: "io_getaddrinfo io (c_str host) = Some result" "io_thread_error io = None"
      "connect_loop io (block_private_ips (egress (config n))) port result 0 True = Some (fd, blocked, tr)" "0 \<le> fd"
    and client: "map_of (streamQueues core) i = Some []" "da_queue (backend core) = []"
      "t_now t < deadline" "t_receiver t = receiver_iteration direct_receivePacket"
  shows "\<exists>n' answer. node_on_adnl_message serialize (\<lambda>_. io) src (encodeOpenFrame i host port token) n = Some n'
       \<and> active n' = (active n)((serialize src, i) \<mapsto> fd)
       \<and> outbox (transport n') = outbox (transport n) @ [(serialize src, src, answer)]
       \<and> (\<exists>core'. open_loop i deadline (t # ts) None
              (core\<lparr>backend := desktop_onAdnlMessage (Some answer) (backend core)\<rparr>) = Some (0, core'))"
proof -
  let ?c = "serialize src" and ?f = "Open_Frame i host port token"
  let ?rt = "fst (on_adnl_message serialize src (wire ?f) (transport n))"
  let ?n = "n\<lparr>transport := ?rt, cnt := (cnt n)\<lparr>rx_bytes := rx_bytes (cnt n) + int (length (wire ?f))\<rparr>\<rparr>"
  let ?m = "opened runtime_sendToClient io ?c i fd ((snd (client_count ?c ?n))\<lparr>ops := ops n @ tr\<rparr>)"
  let ?n' = "log_transport (maybeLogCounters (io_now io) ?m)"
  have rt: "rt_running ?rt" "adnl_live ?rt" "outbox ?rt = outbox (transport n)" "map_of (known_clients ?rt) ?c = Some src"
    using up by (simp_all add: on_adnl_message_def Let_def)
  have handle: "handleOpen runtime_sendToClient io ?c i host port token ?n = Some ?m"
    using handleOpen_permitted [of ?n ?c host port token runtime_sendToClient io i] permitted connects
    by (simp add: stream_count_def Let_def)
  have "frame_ok ?f" using permitted(1,2) by (simp add: open_permitted_def)
  then have "node_on_adnl_message serialize (\<lambda>_. io) src (encodeOpenFrame i host port token) n = Some ?n'"
    using onAdnlMessage_runs [of "[?f]" runtime_sendToClient io ?c "n\<lparr>transport := ?rt\<rparr>"] handle up(3)
    by (simp add: node_on_adnl_message_def client_encoders_wire on_adnl_message_def dispatch_def empty_message_def Let_def)
  moreover have "node_wf ((snd (client_count ?c ?n))\<lparr>ops := ops n @ tr\<rparr>)"
    using wf by (simp add: node_wf_client_count)
  note active_opened [OF this, of runtime_sendToClient io ?c i fd]
  then have "active ?n' = (active n)((?c, i) \<mapsto> fd)"
    using active_cong [of "log_transport (maybeLogCounters (io_now io) ?m)" ?m]
      active_cong [of "(snd (client_count ?c ?n))\<lparr>ops := ops n @ tr\<rparr>" n]
    by (simp add: log_transport_def)
  moreover have "outbox (transport ?n') = outbox (transport n) @ [(?c, src, encodeOpenAckFrame i)]"
    using opened_over_runtime [OF _ _ _ connects(2), of "(snd (client_count ?c ?n))\<lparr>ops := ops n @ tr\<rparr>" ?c src i fd] rt
    by simp
  moreover have "\<exists>core'. open_loop i deadline (t # ts) None
      (core\<lparr>backend := desktop_onAdnlMessage (Some (encodeOpenAckFrame i)) (backend core)\<rparr>) = Some (0, core')"
    using client by (intro ack_opens_stream) (simp_all add: desktop_onAdnlMessage_def ack_bytes)
  ultimately show ?thesis by blast
qed

definition sample_turn :: "(string, string, string, string) direct turn" where
  "sample_turn = \<lparr>t_now = 5, t_grace = 5, t_receiver = receiver_iteration direct_receivePacket, t_after = 6\<rparr>"

theorem open_end_to_end_witness:
  "\<exists>n' answer. node_on_adnl_message (\<lambda>_. ''c'') (\<lambda>_. sample_io) (0 :: nat) (encodeOpenFrame 5 ''h'' 443 [])
        (EgressNode default_config sample_runtime) = Some n'
     \<and> active n' (''c'', 5) = Some 7 \<and> outbox (transport n') = [(''c'', 0, answer)]
     \<and> (\<exists>core'. open_loop 5 20000 [sample_turn] None ((registerStream 5 (TonClientCore sample_backend))
          \<lparr>backend := desktop_onAdnlMessage (Some answer) sample_backend\<rparr>) = Some (0, core'))"
proof -
  let ?n = "EgressNode default_config sample_runtime" and ?core = "registerStream 5 (TonClientCore sample_backend)"
  have n: "rt_running (transport ?n)" "adnl_live (transport ?n)" "on_message_set (transport ?n)"
    "outbox (transport ?n) = []" "config ?n = default_config" "stream_count ''c'' ?n < max_streams default_config"
    by (simp_all add: EgressNode_def sample_runtime_def AdnlBackendRuntime_def stream_count_def default_config_def)
  have io: "io_thread_error sample_io = None" "block_private_ips (egress default_config)"
    by (simp_all add: sample_io_def default_config_def)
  have core: "map_of (streamQueues ?core) 5 = Some []" "backend ?core = sample_backend" "da_queue sample_backend = []"
    "t_now sample_turn < 20000" "t_receiver sample_turn = receiver_iteration direct_receivePacket"
    by (simp_all add: TonClientCore_def sample_backend_def registerStream_def sample_turn_def)
  show ?thesis
    using open_end_to_end [of ?n "\<lambda>_. ''c''" 0 "''h''" 443 "[]" sample_io "[0x01020304]" 7 False _ ?core 5 sample_turn 20000 "[]",
        OF node_wf_initial n(1-3)] sample_permitted sample_connects n(4-6) io core
    by fastforce
qed

end
