(* ===== verification/Jni_Transport.thy ===== *)
theory Jni_Transport
  imports Adnl_Client
begin

text \<open>
  The Android bridge: \<^verbatim>\<open>app/src/main/cpp/ton_transport.cpp\<close>, whose namespace-level
  variables are the record \<open>jni\<close>, and \<^verbatim>\<open>tun2socks_bridge.cpp\<close>. A Java reference that
  may be null is an option; whether the virtual machine can pin or allocate an array is an
  argument. \<open>jn_queued\<close> and \<open>jn_popped\<close> are ghost logs of everything ever put into and taken
  from the inbound queue. \<^verbatim>\<open>gContext->client_handle\<close> is a runtime of theory
  \<open>Adnl_Client\<close>.
\<close>

type_synonym u64 = "64 word"

record ('s, 'k, 'n, 'a) jni =
  gNativeReady :: bool
  gJniCalls :: u64
  gJniBytes :: u64
  gDroppedEmptyFrames :: u64
  gMetricsWindowStartMs :: int
  gLastError :: string
  gInboundQueue :: "bytes list"
  gContext :: "('s, 'k, 'n, 'a) client_rt option option"
  gPendingAddress :: string
  gPendingPrivateKey :: string
  gPendingToken :: string
  gPendingLocalAdvertiseHost :: string
  jn_queued :: "bytes list"
  jn_popped :: "bytes list"

definition jni_loaded :: "int \<Rightarrow> ('s, 'k, 'n, 'a) jni" where
  "jni_loaded now = \<lparr>gNativeReady = False, gJniCalls = 0, gJniBytes = 0, gDroppedEmptyFrames = 0,
     gMetricsWindowStartMs = now, gLastError = [], gInboundQueue = [], gContext = None,
     gPendingAddress = [], gPendingPrivateKey = [], gPendingToken = [], gPendingLocalAdvertiseHost = [],
     jn_queued = [], jn_popped = []\<rparr>"

definition kMetricsEnabled :: bool where "kMetricsEnabled = False"
definition kMetricsWindowMs :: int where "kMetricsWindowMs = 5000"

definition setLastError :: "string \<Rightarrow> ('s, 'k, 'n, 'a) jni \<Rightarrow> ('s, 'k, 'n, 'a) jni" where
  "setLastError message g = g\<lparr>gLastError := message\<rparr>"

definition getLastError :: "('s, 'k, 'n, 'a) jni \<Rightarrow> string" where
  "getLastError g = gLastError g"

definition jni_onAdnlMessage :: "bytes option \<Rightarrow> ('s, 'k, 'n, 'a) jni \<Rightarrow> ('s, 'k, 'n, 'a) jni" where
  "jni_onAdnlMessage data g =
     (if data = None \<or> the data = [] then g
      else g\<lparr>gInboundQueue := gInboundQueue g @ [the data], jn_queued := jn_queued g @ [the data]\<rparr>)"

text \<open>The statistics window; the metrics are only logged.\<close>

definition maybeLogMetrics :: "int \<Rightarrow> ('s, 'k, 'n, 'a) jni \<Rightarrow> ('s, 'k, 'n, 'a) jni" where
  "maybeLogMetrics nowMs g =
     (if \<not> kMetricsEnabled then g
      else if nowMs - gMetricsWindowStartMs g < kMetricsWindowMs then g
      else g\<lparr>gJniCalls := 0, gJniBytes := 0, gDroppedEmptyFrames := 0, gMetricsWindowStartMs := nowMs\<rparr>)"


section \<open>The exported methods\<close>

text \<open>The result is the address of the new context, modelled by whether it is non-zero. The
  old context is destroyed (its runtime stopped) before anything else is looked at.\<close>

definition initAdnlContext :: "('s, 'k, 'n, 'a) jni \<Rightarrow> bool \<times> ('s, 'k, 'n, 'a) jni" where
  "initAdnlContext g =
     (let g = g\<lparr>gContext := None\<rparr> in
      if gPendingAddress g = [] \<or> gPendingPrivateKey g = [] then
        (False, (setLastError ''ADNL peer config is incomplete. Call configureAdnlPeer before initialize.'' g)\<lparr>gNativeReady := False\<rparr>)
      else
        let client_handle = ton_adnl_client_create (Some (gPendingPrivateKey g)) (Some (gPendingAddress g))
              (Some (gPendingLocalAdvertiseHost g)) in
        if client_handle = None then
          (False, (setLastError ''ton_adnl_client_create returned null'' g)\<lparr>gNativeReady := False\<rparr>)
        else
          case ton_adnl_client_start (ton_adnl_client_set_on_message True client_handle) of (rc, client_handle) \<Rightarrow>
          if rc \<noteq> 0 then
            (False, (setLastError ''ton_adnl_client_start returned non-zero'' g)\<lparr>gNativeReady := False\<rparr>)
          else
            (True, (setLastError [] (g\<lparr>gContext := Some client_handle\<rparr>))\<lparr>gNativeReady := True\<rparr>))"

definition configureAdnlPeer ::
  "string option \<Rightarrow> string option \<Rightarrow> string option \<Rightarrow> string option \<Rightarrow> ('s, 'k, 'n, 'a) jni \<Rightarrow> int \<times> ('s, 'k, 'n, 'a) jni" where
  "configureAdnlPeer addressChars keyChars tokenChars advertiseChars g =
     (let chars = (\<lambda>s. case s of None \<Rightarrow> [] | Some s \<Rightarrow> c_str s) in
      (0, g\<lparr>gPendingAddress := chars addressChars, gPendingPrivateKey := chars keyChars,
            gPendingToken := chars tokenChars, gPendingLocalAdvertiseHost := chars advertiseChars\<rparr>))"

text \<open>The part the two send methods share: hand the bytes to the runtime and count them.\<close>

definition jni_send :: "int \<Rightarrow> bytes \<Rightarrow> ('s, 'k, 'n, 'a) jni \<Rightarrow> bool \<times> ('s, 'k, 'n, 'a) jni" where
  "jni_send nowMs packet g =
     (case ton_adnl_client_send (the (gContext g)) (Some packet) of (rc, client_handle) \<Rightarrow>
        (rc = 0, maybeLogMetrics nowMs (g\<lparr>gContext := Some client_handle, gJniCalls := gJniCalls g + 1,
                    gJniBytes := gJniBytes g + word_of_nat (length packet)\<rparr>)))"

definition jni_sendPacket ::
  "int \<Rightarrow> bool \<Rightarrow> bytes option \<Rightarrow> ('s, 'k, 'n, 'a) jni \<Rightarrow> int \<times> ('s, 'k, 'n, 'a) jni" where
  "jni_sendPacket nowMs mapped packet g =
     (case packet of
        None \<Rightarrow> (-1, g)
      | Some bytes \<Rightarrow>
          if bytes = [] then (-2, maybeLogMetrics nowMs (g\<lparr>gDroppedEmptyFrames := gDroppedEmptyFrames g + 1\<rparr>))
          else if \<not> mapped then (-3, g)
          else if \<not> gNativeReady g \<or> gContext g = None then
            (-4, setLastError ''sendPacket: native context is not initialized.'' g)
          else case jni_send nowMs bytes g of (sent, g) \<Rightarrow> (if sent then 0 else -5, g))"

text \<open>A direct buffer is its memory; \<open>Some None\<close> is a buffer object that is not direct.\<close>

definition jni_sendPacketDirect ::
  "int \<Rightarrow> bytes option option \<Rightarrow> int \<Rightarrow> ('s, 'k, 'n, 'a) jni \<Rightarrow> int \<times> ('s, 'k, 'n, 'a) jni" where
  "jni_sendPacketDirect nowMs packetBuffer packetLength g =
     (if packetBuffer = None \<or> packetLength \<le> 0 then
        (-1, if packetLength \<le> 0
             then maybeLogMetrics nowMs (g\<lparr>gDroppedEmptyFrames := gDroppedEmptyFrames g + 1\<rparr>) else g)
      else
        case the packetBuffer of
          None \<Rightarrow> (-2, g)
        | Some data \<Rightarrow>
            if int (length data) < packetLength then (-2, g)
            else if \<not> gNativeReady g \<or> gContext g = None then
              (-3, setLastError ''sendPacketDirect: native context is not initialized.'' g)
            else case jni_send nowMs (take (nat packetLength) data) g of (sent, g) \<Rightarrow> (if sent then 0 else -4, g))"

text \<open>\<open>allocated\<close>: \<^verbatim>\<open>NewByteArray\<close> succeeded.\<close>

definition jni_receivePacket :: "bool \<Rightarrow> ('s, 'k, 'n, 'a) jni \<Rightarrow> bytes option \<times> ('s, 'k, 'n, 'a) jni" where
  "jni_receivePacket allocated g =
     (if \<not> gNativeReady g then (None, g)
      else if gContext g = None \<or> gContext g = Some None then
        (None, setLastError ''receivePacket: ADNL context is empty.'' g)
      else
        case gInboundQueue g of
          [] \<Rightarrow> (None, g)
        | nextPacket # rest \<Rightarrow>
            let g = g\<lparr>gInboundQueue := rest, jn_popped := jn_popped g @ [nextPacket]\<rparr> in
            if nextPacket = [] then (None, g)
            else if \<not> allocated then (None, setLastError ''Failed to allocate jbyteArray in receivePacket.'' g)
            else (Some nextPacket, g))"

definition getLastNativeError :: "('s, 'k, 'n, 'a) jni \<Rightarrow> string" where
  "getLastNativeError g = c_str (getLastError g)"


section \<open>The runtime of the context\<close>

text \<open>The scheduler thread of the context's runtime, and a message that reaches its
  subscription: the callback was set to \<open>jni_onAdnlMessage\<close>.\<close>

definition jni_scheduler :: "('s, 'k, 'n, 'a) ton_lib \<Rightarrow> ('s, 'k, 'n, 'a) jni \<Rightarrow> ('s, 'k, 'n, 'a) jni" where
  "jni_scheduler lib g = g\<lparr>gContext := map_option (map_option (scheduler_begin lib)) (gContext g)\<rparr>"

definition jni_network :: "bytes \<Rightarrow> ('s, 'k, 'n, 'a) jni \<Rightarrow> ('s, 'k, 'n, 'a) jni" where
  "jni_network data g =
     (case gContext g of
        Some (Some r) \<Rightarrow>
          let r' = on_inbound_message data r; g = g\<lparr>gContext := Some (Some r')\<rparr> in
          if cr_callback_log r' = cr_callback_log r then g else jni_onAdnlMessage (Some data) g
      | _ \<Rightarrow> g)"


section \<open>The tun2socks bridge\<close>

text \<open>An argument is \<open>None\<close> for a null element, \<open>Some None\<close> when its characters cannot be
  read. \<open>tun2socks_start\<close> is the library's entry point.\<close>

fun collect_args :: "string option option list \<Rightarrow> string list \<Rightarrow> int + string list" where
  "collect_args [] storage = Inr storage"
| "collect_args (None # _) storage = Inl (-3)"
| "collect_args (Some None # _) storage = Inl (-4)"
| "collect_args (Some (Some utf) # args) storage = collect_args args (storage @ [c_str utf])"

definition startTun2SocksNative :: "(string list \<Rightarrow> int) \<Rightarrow> string option option list option \<Rightarrow> int" where
  "startTun2SocksNative tun2socks_start args =
     (case args of
        None \<Rightarrow> -1
      | Some args \<Rightarrow>
          if args = [] then -2
          else case collect_args args [] of Inl rc \<Rightarrow> rc | Inr argv \<Rightarrow> tun2socks_start argv)"

lemma collect_args_all: "collect_args (map (Some \<circ> Some) xs) storage = Inr (storage @ map c_str xs)"
  by (induction xs arbitrary: storage) simp_all

lemma startTun2Socks_passes_args:
  "xs \<noteq> [] \<Longrightarrow> startTun2SocksNative start (Some (map (Some \<circ> Some) xs)) = start (map c_str xs)"
  by (simp add: startTun2SocksNative_def collect_args_all)


section \<open>Reachable states\<close>

inductive jni_step ::
  "('s, 'k, 'n, 'a) ton_lib \<Rightarrow> ('s, 'k, 'n, 'a) jni \<Rightarrow> ('s, 'k, 'n, 'a) jni \<Rightarrow> bool"
  for lib :: "('s, 'k, 'n, 'a) ton_lib" where
  configure: "jni_step lib g (snd (configureAdnlPeer a k t h g))"
| init: "jni_step lib g (snd (initAdnlContext g))"
| scheduler: "jni_step lib g (jni_scheduler lib g)"
| send: "jni_step lib g (snd (jni_sendPacket now mapped packet g))"
| send_direct: "jni_step lib g (snd (jni_sendPacketDirect now buffer n g))"
| network: "jni_step lib g (jni_network data g)"
| receive: "jni_step lib g (snd (jni_receivePacket allocated g))"

definition jni_wf :: "('s, 'k, 'n, 'a) jni \<Rightarrow> bool" where
  "jni_wf g \<longleftrightarrow>
     (gNativeReady g \<longleftrightarrow> gContext g \<noteq> None)
   \<and> (case gContext g of None \<Rightarrow> True
        | Some h \<Rightarrow> (case h of None \<Rightarrow> False | Some r \<Rightarrow> cr_running r \<and> cr_callback r))
   \<and> jn_queued g = jn_popped g @ gInboundQueue g
   \<and> [] \<notin> set (jn_queued g)"

lemma jni_wf_init: "jni_wf g \<Longrightarrow> jni_wf (snd (initAdnlContext g))"
  by (auto simp: jni_wf_def initAdnlContext_def Let_def setLastError_def ton_adnl_client_create_def
      ton_adnl_client_set_on_message_def set_callback_def ton_adnl_client_start_def client_start_def)

lemma runtime_flags [simp]:
  "cr_running (scheduler_begin lib r) = cr_running r"
  "cr_callback (scheduler_begin lib r) = cr_callback r"
  "cr_running (snd (client_send d r)) = cr_running r"
  "cr_callback (snd (client_send d r)) = cr_callback r"
  "cr_running (on_inbound_message b r) = cr_running r"
  "cr_callback (on_inbound_message b r) = cr_callback r"
  by (auto simp: scheduler_begin_def init_adnl_udp_def Let_def client_send_def on_inbound_message_def
      emit_inbound_def split: option.splits)

lemma maybeLogMetrics_id [simp]: "maybeLogMetrics now g = g"
  by (simp add: maybeLogMetrics_def kMetricsEnabled_def)

lemma jni_wf_jni_send:
  assumes "jni_wf g" "gContext g \<noteq> None"
  shows "jni_wf (snd (jni_send now packet g))"
proof -
  obtain r where r: "gContext g = Some (Some r)" "cr_running r" "cr_callback r"
    using assms by (auto simp: jni_wf_def split: option.splits)
  obtain ok r' where send: "client_send (Some packet) r = (ok, r')" by fastforce
  have "cr_running r'" "cr_callback r'"
    using runtime_flags(3,4) [of "Some packet" r] r send by simp_all
  with assms r send show ?thesis
    by (auto simp: jni_wf_def jni_send_def ton_adnl_client_send_def)
qed

lemma jni_wf_setLastError [simp]: "jni_wf (setLastError m g) = jni_wf g"
  by (simp add: jni_wf_def setLastError_def)

lemma jni_wf_dropped [simp]: "jni_wf (g\<lparr>gDroppedEmptyFrames := n\<rparr>) = jni_wf g"
  by (simp add: jni_wf_def)

lemma jni_wf_send: "jni_wf g \<Longrightarrow> jni_wf (snd (jni_sendPacket now mapped packet g))"
  using jni_wf_jni_send [of g]
  by (auto simp: jni_sendPacket_def split: option.split prod.split) (metis snd_conv)+

lemma jni_wf_send_direct: "jni_wf g \<Longrightarrow> jni_wf (snd (jni_sendPacketDirect now buffer n g))"
  using jni_wf_jni_send [of g]
  by (auto simp: jni_sendPacketDirect_def split: option.split prod.split) (metis snd_conv)+

lemma jni_wf_network: "jni_wf g \<Longrightarrow> jni_wf (jni_network data g)"
  by (auto simp: jni_wf_def jni_network_def Let_def jni_onAdnlMessage_def on_inbound_message_def emit_inbound_def
      split: option.splits)

lemma jni_wf_receive: "jni_wf g \<Longrightarrow> jni_wf (snd (jni_receivePacket allocated g))"
  by (auto simp: jni_wf_def jni_receivePacket_def Let_def setLastError_def split: list.splits option.splits)

lemma jni_wf_step: "jni_step lib g g' \<Longrightarrow> jni_wf g \<Longrightarrow> jni_wf g'"
proof (induction rule: jni_step.induct)
  case (configure g a k t h)
  then show ?case by (auto simp: configureAdnlPeer_def jni_wf_def Let_def)
next
  case (scheduler g)
  then show ?case by (auto simp: jni_scheduler_def jni_wf_def split: option.splits)
qed (simp_all add: jni_wf_init jni_wf_send jni_wf_send_direct jni_wf_network jni_wf_receive)

lemma jni_wf_reachable: "(jni_step lib)\<^sup>*\<^sup>* (jni_loaded now) g \<Longrightarrow> jni_wf g"
  by (induction rule: rtranclp_induct) (auto simp: jni_wf_step, simp add: jni_loaded_def jni_wf_def)


definition sample_jni :: "(string, string, string, string) jni" where
  "sample_jni = jni_network [3] (jni_network [1, 2] (snd (initAdnlContext
     (snd (configureAdnlPeer (Some ''key@host'') (Some ''k'') (Some ''t'') None (jni_loaded 0))))))"

lemma sample_jni_reachable: "(jni_step sample_lib)\<^sup>*\<^sup>* (jni_loaded 0) sample_jni"
  unfolding sample_jni_def
  by (meson jni_step.configure jni_step.init jni_step.network r_into_rtranclp rtranclp_trans)

lemma sample_jni_queue: "gInboundQueue sample_jni = [[1, 2], [3]]" "gNativeReady sample_jni"
  by (simp_all add: sample_jni_def jni_network_def on_inbound_message_def emit_inbound_def jni_onAdnlMessage_def
      initAdnlContext_def configureAdnlPeer_def jni_loaded_def Let_def c_str_def setLastError_def
      ton_adnl_client_create_def ton_adnl_client_start_def client_start_def ton_adnl_client_set_on_message_def
      set_callback_def TonAdnlClientRuntime_def)


text \<open>A re-initialization keeps the packets that the previous context had queued: they are
  then received as if they came from the new one.\<close>

lemma stale_packets_survive_init: "gInboundQueue (snd (initAdnlContext g)) = gInboundQueue g"
  by (simp add: initAdnlContext_def Let_def setLastError_def split: prod.split)

text \<open>Without memory for the array the packet is taken from the queue and lost.\<close>

lemma receive_without_memory:
  assumes "gNativeReady g" "gContext g = Some (Some r)" "gInboundQueue g = p # ps"
  shows "fst (jni_receivePacket False g) = None" and "gInboundQueue (snd (jni_receivePacket False g)) = ps"
  using assms by (simp_all add: jni_receivePacket_def Let_def setLastError_def)

end
