(* ===== verification/Egress_Threads.thy ===== *)
theory Egress_Threads
  imports Egress_Behaviour
begin

text \<open>
  The egress node at the granularity of its lock: the handlers of \<open>Egress_Node\<close> cut where
  \<^verbatim>\<open>egress_node.cpp\<close> holds or releases \<^verbatim>\<open>mu_\<close>, loads a descriptor, makes a system call,
  starts or joins a thread. Three kinds of threads interleave: the actor thread that delivers the
  frames, the idle monitor, and the receive thread of every stream object. A program counter
  carries the local variables that are still needed. \<open>c_rx\<close> holds the counters of the receive
  threads by the address of their object (the flag \<open>rx_running\<close> of the object is not used here).
  The load of a descriptor is one step with the test before it: a later load reads the same number
  or \<open>-1\<close>, and the failing call is covered by \<open>Rx_End\<close> and by a result of \<open>io_send\<close> below one.
  The exchange of \<^verbatim>\<open>closed\<close>, the system calls that close the descriptor and the store of \<open>-1\<close> are
  one step: the other threads do not load the descriptor of an object once it is closed.
  Joining blocks: the step is undefined while the joined thread runs. A stream object is
  destroyed when nothing refers to it any more. \<open>EgressNode::stop\<close>, which runs after the
  transport has been stopped, is not part of this theory.
\<close>

section \<open>The threads\<close>

datatype close_pc =
    Close_Take string u32 string
  | Close_Release string u32 nat
  | Close_Join nat

datatype actor_pc =
    Ready
  | Open_Check string u32 string u16
  | Open_Connect string u32 string u16
  | Open_Register string u32 int
  | Open_Ack string u32 nat
  | Open_Start string u32 nat
  | Open_Assign nat
  | Data_Use string u32 nat bytes
  | Data_Send string u32 nat int bytes
  | Actor_Closing close_pc bool

datatype monitor_pc =
    Asleep
  | Sweeping "(string \<times> u32) list"
  | Monitor_Closing close_pc "(string \<times> u32) list"

datatype rx_pc =
    Rx_Off
  | Rx_Test
  | Rx_Recv int
  | Rx_Push bytes
  | Rx_Closing close_pc

record 't conc =
  c_node :: "'t node"
  c_actor :: actor_pc
  c_monitor :: monitor_pc
  c_rx :: "rx_pc list"

definition conc_start :: "'t node \<Rightarrow> 't conc" where
  "conc_start n = \<lparr>c_node = n, c_actor = Ready, c_monitor = Asleep, c_rx = []\<rparr>"


section \<open>The sections of \<open>closeStream\<close>\<close>

text \<open>The locked section: the stream leaves the table.\<close>

definition close_take :: "io \<Rightarrow> string \<Rightarrow> u32 \<Rightarrow> string \<Rightarrow> 't node \<Rightarrow> nat option \<times> 't node" where
  "close_take io client_id stream_id reason n =
     (let n = n\<lparr>cnt := count_close reason (cnt n)\<rparr>;
          key = keyFor client_id stream_id in
      case map_of (streams n) key of
        None \<Rightarrow> (None, close_missing io client_id stream_id n)
      | Some a \<Rightarrow>
          (Some a, n\<lparr>streams := AList.delete key (streams n),
                     recently_closed := AList.update key (io_now io) (recently_closed n),
                     streams_per_client :=
                       (case map_of (streams_per_client n) client_id of
                          Some k \<Rightarrow> if k > 0 then AList.update client_id (k - 1) (streams_per_client n)
                                    else streams_per_client n
                        | None \<Rightarrow> streams_per_client n)\<rparr>))"

text \<open>The exchange of \<^verbatim>\<open>closed\<close> and what its winner does.\<close>

definition close_release :: "'t sender \<Rightarrow> string \<Rightarrow> u32 \<Rightarrow> nat \<Rightarrow> 't node \<Rightarrow> 't node" where
  "close_release send client_id stream_id a n =
     (if st_closed (heap n ! a) then n
      else snd (sendToClient send client_id (encodeClose \<lparr>cm_stream_id = stream_id\<rparr>)
             (close_fd a (set_stream a ((heap n ! a)\<lparr>st_closed := True\<rparr>) n))))"

datatype close_result = Close_On close_pc | Close_Ended bool

fun close_turn ::
  "'t sender \<Rightarrow> io \<Rightarrow> nat option \<Rightarrow> rx_pc list \<Rightarrow> close_pc \<Rightarrow> 't node \<Rightarrow> (close_result \<times> 't node) option" where
  "close_turn send io caller rxs (Close_Take c i reason) n =
     (case close_take io c i reason n of
        (None, n) \<Rightarrow> Some (Close_Ended False, n)
      | (Some a, n) \<Rightarrow> Some (Close_On (Close_Release c i a), n))"
| "close_turn send io caller rxs (Close_Release c i a) n =
     Some (Close_On (Close_Join a), close_release send c i a n)"
| "close_turn send io caller rxs (Close_Join a) n =
     (if st_rx_thread (heap n ! a) = Joinable then
        if caller \<noteq> Some a then
          if rxs ! a = Rx_Off then Some (Close_Ended True, set_stream a ((heap n ! a)\<lparr>st_rx_thread := Joined\<rparr>) n)
          else None
        else Some (Close_Ended True, set_stream a ((heap n ! a)\<lparr>st_rx_thread := Detached\<rparr>) n)
      else Some (Close_Ended True, n))"

text \<open>Run without interruption the sections are \<open>closeStream\<close>, with the joined thread finishing
  in between.\<close>

lemma closeStream_sections:
  "closeStream send io caller c i reason n =
     (case close_take io c i reason n of
        (None, n) \<Rightarrow> (False, n)
      | (Some a, n) \<Rightarrow>
          let n = close_release send c i a n in
          (True, if st_rx_thread (heap n ! a) = Joinable then
                   if caller \<noteq> Some a then join_rx io a n
                   else set_stream a ((heap n ! a)\<lparr>st_rx_thread := Detached\<rparr>) n
                 else n))"
  by (simp add: closeStream_def close_take_def close_release_def Let_def split: option.split)


section \<open>Turns of the threads\<close>

text \<open>The actor thread takes the next frame: the checks before the first lock, and for DATA the
  locked lookup.\<close>

definition accept_open ::
  "'t sender \<Rightarrow> string \<Rightarrow> u32 \<Rightarrow> string \<Rightarrow> u16 \<Rightarrow> string \<Rightarrow> 't node \<Rightarrow> actor_pc \<times> 't node" where
  "accept_open send c i host port token n =
     (let cfg = config n; refuse = (\<lambda>msg. reply_error send c i msg n) in
      if \<not> eg_enabled (egress cfg) then (Ready, refuse ''egress disabled'')
      else if host = [] \<or> length host > 255 then (Ready, refuse ''invalid host'')
      else if \<not> isPortAllowed cfg port then (Ready, refuse ''port is not allowed'')
      else if isHostBlocked host then (Ready, refuse ''host is blocked'')
      else if auth_required cfg \<and> \<not> isClientAllowed cfg c token then (Ready, open_failed (refuse ''unauthorized''))
      else (Open_Check c i host port, n))"

definition accept_data :: "'t sender \<Rightarrow> io \<Rightarrow> string \<Rightarrow> u32 \<Rightarrow> bytes \<Rightarrow> 't node \<Rightarrow> actor_pc \<times> 't node" where
  "accept_data send io c i payload n =
     (if length payload > unat (max_payload_bytes (egress (config n))) then
        (Ready, reply_error send c i ''payload exceeds max_payload_bytes'' n)
      else
        case map_of (streams n) (keyFor c i) of
          Some a \<Rightarrow> (Data_Use c i a payload, n)
        | None \<Rightarrow>
            (case map_of (recently_closed n) (keyFor c i) of
               Some t \<Rightarrow> if io_now io - t \<le> kRecentlyClosedGraceMs then (Ready, n)
                         else (Ready, reply_error send c i ''stream not found'' n)
             | None \<Rightarrow> (Ready, reply_error send c i ''stream not found'' n)))"

definition accept_frame :: "'t sender \<Rightarrow> io \<Rightarrow> string \<Rightarrow> frame \<Rightarrow> 't conc \<Rightarrow> 't conc option" where
  "accept_frame send io c f s =
     (if c_actor s \<noteq> Ready then None
      else
        let (p, n) = (case f of
                        Open_Frame i host port token \<Rightarrow> accept_open send c i host port token (c_node s)
                      | Data_Frame i payload \<Rightarrow> accept_data send io c i payload (c_node s)
                      | Close_Frame i \<Rightarrow> (Actor_Closing (Close_Take c i ''client close'') True, c_node s)
                      | Error_Frame i msg \<Rightarrow> (Ready, c_node s))
        in Some (s\<lparr>c_actor := p, c_node := n\<rparr>))"

text \<open>The further sections of \<open>handleOpen\<close>: the counter under the lock; resolution and connect;
  registration under the lock; the acknowledgement; the receive thread, which runs before the
  assignment has stored its handle in the object.\<close>

definition open_check :: "'t sender \<Rightarrow> string \<Rightarrow> u32 \<Rightarrow> string \<Rightarrow> u16 \<Rightarrow> 't node \<Rightarrow> actor_pc \<times> 't node" where
  "open_check send c i host port n =
     (case client_count c n of (count, n) \<Rightarrow>
      if count \<ge> max_streams (config n) then (Ready, reply_error send c i ''max streams reached'' n)
      else (Open_Connect c i host port, n))"

definition open_connect ::
  "'t sender \<Rightarrow> io \<Rightarrow> string \<Rightarrow> u32 \<Rightarrow> string \<Rightarrow> u16 \<Rightarrow> 't node \<Rightarrow> (actor_pc \<times> 't node) option" where
  "open_connect send io c i host port n =
     (case io_getaddrinfo io (c_str host) of
        None \<Rightarrow> Some (Ready, reply_error send c i ''DNS resolve failed'' n)
      | Some result \<Rightarrow>
          (case connect_loop io (block_private_ips (egress (config n))) port result 0 True of
             None \<Rightarrow> None
           | Some (fd, blocked_only, done) \<Rightarrow>
               let n = n\<lparr>ops := ops n @ done\<rparr> in
               Some (if fd < 0 then
                       if blocked_only then (Ready, reply_error send c i ''destination blocked'' n)
                       else (Ready, open_failed (reply_error send c i ''tcp connect failed'' n))
                     else (Open_Register c i fd, n\<lparr>cnt := (cnt n)\<lparr>open_ok := open_ok (cnt n) + 1\<rparr>\<rparr>))))"

definition open_ack :: "'t sender \<Rightarrow> string \<Rightarrow> u32 \<Rightarrow> 't node \<Rightarrow> 't node" where
  "open_ack send c i n =
     add_tx (length (encodeOpen \<lparr>cm_stream_id = i\<rparr>)) (snd (sendToClient send c (encodeOpen \<lparr>cm_stream_id = i\<rparr>) n))"

fun actor_turn :: "'t sender \<Rightarrow> io \<Rightarrow> actor_pc \<Rightarrow> 't conc \<Rightarrow> 't conc option" where
  "actor_turn send io Ready s = None"
| "actor_turn send io (Open_Check c i host port) s =
     (case open_check send c i host port (c_node s) of (p, n) \<Rightarrow> Some (s\<lparr>c_actor := p, c_node := n\<rparr>))"
| "actor_turn send io (Open_Connect c i host port) s =
     (case open_connect send io c i host port (c_node s) of
        None \<Rightarrow> None
      | Some (p, n) \<Rightarrow> Some (s\<lparr>c_actor := p, c_node := n\<rparr>))"
| "actor_turn send io (Open_Register c i fd) s =
     Some (s\<lparr>c_actor := Open_Ack c i (length (heap (c_node s))),
             c_node := register_stream io c i fd (c_node s), c_rx := c_rx s @ [Rx_Off]\<rparr>)"
| "actor_turn send io (Open_Ack c i a) s = Some (s\<lparr>c_actor := Open_Start c i a, c_node := open_ack send c i (c_node s)\<rparr>)"
| "actor_turn send io (Open_Start c i a) s =
     (case io_thread_error io of
        None \<Rightarrow> Some (s\<lparr>c_actor := Open_Assign a, c_rx := (c_rx s)[a := Rx_Test]\<rparr>)
      | Some what \<Rightarrow> Some (s\<lparr>c_actor := Ready, c_node := reply_error send c i (''internal: '' @ what) (c_node s)\<rparr>))"
| "actor_turn send io (Open_Assign a) s = Some (s\<lparr>c_actor := Ready, c_node := start_rx a (c_node s)\<rparr>)"
| "actor_turn send io (Data_Use c i a payload) s =
     (let st = heap (c_node s) ! a in
      if st_fd st < 0 \<or> st_closed st
      then Some (s\<lparr>c_actor := Ready, c_node := reply_error send c i ''stream closed'' (c_node s)\<rparr>)
      else if payload = [] then Some (s\<lparr>c_actor := Ready\<rparr>)
      else Some (s\<lparr>c_actor := Data_Send c i a (st_fd st) payload\<rparr>))"
| "actor_turn send io (Data_Send c i a fd payload) s =
     (let n = c_node s; sent = io_send io fd payload in
      if sent \<le> 0 then Some (s\<lparr>c_actor := Actor_Closing (Close_Take c i ''tcp write failed'') False\<rparr>)
      else Some (s\<lparr>c_actor := Ready,
                   c_node := set_stream a ((heap n ! a)\<lparr>st_last_activity_ms := io_now io\<rparr>)
                     (n\<lparr>ops := ops n @ [Send_To fd (take (nat sent) payload)]\<rparr>)\<rparr>))"
| "actor_turn send io (Actor_Closing p reply) s =
     (case close_turn send io None (c_rx s) p (c_node s) of
        None \<Rightarrow> None
      | Some (Close_On p, n) \<Rightarrow> Some (s\<lparr>c_actor := Actor_Closing p reply, c_node := n\<rparr>)
      | Some (Close_Ended found, n) \<Rightarrow>
          Some (s\<lparr>c_actor := Ready,
                  c_node := (case p of
                     Close_Take c i reason \<Rightarrow>
                       if \<not> found \<and> reply then snd (sendToClient send c (encodeClose \<lparr>cm_stream_id = i\<rparr>) n) else n
                   | _ \<Rightarrow> n)\<rparr>))"

text \<open>The idle monitor: the locked sweep, then one close after the other.\<close>

definition begin_sweep :: "io \<Rightarrow> 't conc \<Rightarrow> 't conc option" where
  "begin_sweep io s =
     (if c_monitor s \<noteq> Asleep then None
      else
        let n = c_node s; now = io_now io in
        Some (s\<lparr>c_monitor := Sweeping (stale_streams now n),
                c_node := n\<lparr>recently_closed :=
                  filter (\<lambda>(k, t). \<not> now - t > kRecentlyClosedGraceMs) (recently_closed n)\<rparr>\<rparr>))"

fun monitor_turn :: "'t sender \<Rightarrow> io \<Rightarrow> monitor_pc \<Rightarrow> 't conc \<Rightarrow> 't conc option" where
  "monitor_turn send io Asleep s = None"
| "monitor_turn send io (Sweeping []) s = Some (s\<lparr>c_monitor := Asleep\<rparr>)"
| "monitor_turn send io (Sweeping ((c, i) # later)) s =
     Some (s\<lparr>c_monitor := Monitor_Closing (Close_Take c i ''idle timeout'') later\<rparr>)"
| "monitor_turn send io (Monitor_Closing p later) s =
     (case close_turn send io None (c_rx s) p (c_node s) of
        None \<Rightarrow> None
      | Some (Close_On p, n) \<Rightarrow> Some (s\<lparr>c_monitor := Monitor_Closing p later, c_node := n\<rparr>)
      | Some (Close_Ended found, n) \<Rightarrow> Some (s\<lparr>c_monitor := Sweeping later, c_node := n\<rparr>))"

text \<open>The receive thread of the object \<open>a\<close>: the test of \<^verbatim>\<open>closed\<close> and the load of the descriptor,
  the system call, the push.\<close>

definition rx_closing :: "nat \<Rightarrow> string \<Rightarrow> 't conc \<Rightarrow> rx_pc" where
  "rx_closing a reason s =
     Rx_Closing (Close_Take (st_client_id (heap (c_node s) ! a)) (st_stream_id (heap (c_node s) ! a)) reason)"

fun rx_turn :: "'t sender \<Rightarrow> io \<Rightarrow> rx_result \<Rightarrow> nat \<Rightarrow> rx_pc \<Rightarrow> 't conc \<Rightarrow> 't conc option" where
  "rx_turn send io r a Rx_Off s = None"
| "rx_turn send io r a Rx_Test s =
     (let st = heap (c_node s) ! a in
      Some (s\<lparr>c_rx := (c_rx s)[a := if st_closed st then Rx_Off else Rx_Recv (st_fd st)]\<rparr>))"
| "rx_turn send io r a (Rx_Recv fd) s =
     (case r of
        Rx_End \<Rightarrow> Some (s\<lparr>c_rx := (c_rx s)[a := rx_closing a ''remote closed'' s]\<rparr>)
      | Rx_Exception \<Rightarrow> Some (s\<lparr>c_rx := (c_rx s)[a := rx_closing a ''rx exception'' s]\<rparr>)
      | Rx_Unknown_Exception \<Rightarrow> Some (s\<lparr>c_rx := (c_rx s)[a := rx_closing a ''rx unknown exception'' s]\<rparr>)
      | Rx_Data buf \<Rightarrow>
          Some (s\<lparr>c_rx := (c_rx s)[a := Rx_Push buf],
                  c_node := set_stream a ((heap (c_node s) ! a)\<lparr>st_last_activity_ms := io_now io\<rparr>) (c_node s)\<rparr>))"
| "rx_turn send io r a (Rx_Push buf) s =
     (case push_data send (st_client_id (heap (c_node s) ! a)) (st_stream_id (heap (c_node s) ! a)) buf (c_node s) of
        (ok, n) \<Rightarrow> Some (s\<lparr>c_rx := (c_rx s)[a := if ok then Rx_Test else rx_closing a ''push failed'' s], c_node := n\<rparr>))"
| "rx_turn send io r a (Rx_Closing p) s =
     (case close_turn send io (Some a) (c_rx s) p (c_node s) of
        None \<Rightarrow> None
      | Some (Close_On p, n) \<Rightarrow> Some (s\<lparr>c_rx := (c_rx s)[a := Rx_Closing p], c_node := n\<rparr>)
      | Some (Close_Ended found, n) \<Rightarrow> Some (s\<lparr>c_rx := (c_rx s)[a := Rx_Off], c_node := n\<rparr>))"

section \<open>Lifetime of the stream objects\<close>

fun close_holds :: "nat \<Rightarrow> close_pc \<Rightarrow> bool" where
  "close_holds a (Close_Release c i b) \<longleftrightarrow> b = a"
| "close_holds a (Close_Join b) \<longleftrightarrow> b = a"
| "close_holds a _ \<longleftrightarrow> False"

fun actor_holds :: "nat \<Rightarrow> actor_pc \<Rightarrow> bool" where
  "actor_holds a (Open_Ack c i b) \<longleftrightarrow> b = a"
| "actor_holds a (Open_Start c i b) \<longleftrightarrow> b = a"
| "actor_holds a (Open_Assign b) \<longleftrightarrow> b = a"
| "actor_holds a (Data_Use c i b p) \<longleftrightarrow> b = a"
| "actor_holds a (Data_Send c i b fd p) \<longleftrightarrow> b = a"
| "actor_holds a (Actor_Closing p reply) \<longleftrightarrow> close_holds a p"
| "actor_holds a _ \<longleftrightarrow> False"

fun monitor_holds :: "nat \<Rightarrow> monitor_pc \<Rightarrow> bool" where
  "monitor_holds a (Monitor_Closing p later) \<longleftrightarrow> close_holds a p"
| "monitor_holds a _ \<longleftrightarrow> False"

fun rx_holds :: "nat \<Rightarrow> rx_pc \<Rightarrow> bool" where
  "rx_holds a (Rx_Closing p) \<longleftrightarrow> close_holds a p"
| "rx_holds a _ \<longleftrightarrow> False"

definition held :: "nat \<Rightarrow> 't conc \<Rightarrow> bool" where
  "held a s \<longleftrightarrow> a \<in> snd ` set (streams (c_node s)) \<or> actor_holds a (c_actor s) \<or> monitor_holds a (c_monitor s)
     \<or> c_rx s ! a \<noteq> Rx_Off \<or> list_ex (rx_holds a) (c_rx s)"

text \<open>The destructor of an object nobody refers to: \<^verbatim>\<open>std::terminate\<close> when its thread handle is
  still joinable.\<close>

definition settle :: "'t conc \<Rightarrow> 't conc" where
  "settle s =
     (if list_ex (\<lambda>a. \<not> held a s \<and> st_rx_thread (heap (c_node s) ! a) = Joinable) [0..<length (heap (c_node s))]
      then s\<lparr>c_node := (c_node s)\<lparr>terminated := True\<rparr>\<rparr> else s)"

datatype action =
    Frame io string frame
  | Wake io
  | Actor io
  | Monitor io
  | Rx nat io rx_result

fun perform :: "'t sender \<Rightarrow> action \<Rightarrow> 't conc \<Rightarrow> 't conc option" where
  "perform send (Frame io c f) s = accept_frame send io c f s"
| "perform send (Wake io) s = begin_sweep io s"
| "perform send (Actor io) s = actor_turn send io (c_actor s) s"
| "perform send (Monitor io) s = monitor_turn send io (c_monitor s) s"
| "perform send (Rx a io r) s = (if a < length (c_rx s) then rx_turn send io r a (c_rx s ! a) s else None)"

definition act :: "'t sender \<Rightarrow> action \<Rightarrow> 't conc \<Rightarrow> 't conc option" where
  "act send x s = (if terminated (c_node s) then None else map_option settle (perform send x s))"

text \<open>The kernel gives a new connection a descriptor that no object has open.\<close>

definition open_fds :: "'t node \<Rightarrow> int list" where
  "open_fds n = filter (\<lambda>fd. 0 \<le> fd) (map st_fd (heap n))"

definition fresh :: "'t conc \<Rightarrow> 't conc \<Rightarrow> bool" where
  "fresh s s' \<longleftrightarrow>
     (case (c_actor s, c_actor s') of
        (Open_Connect _ _ _ _, Open_Register _ _ fd) \<Rightarrow> fd \<notin> set (open_fds (c_node s))
      | _ \<Rightarrow> True)"

inductive interleaving :: "'t sender \<Rightarrow> 't conc \<Rightarrow> action list \<Rightarrow> 't conc \<Rightarrow> bool" for send where
  at_start: "interleaving send s [] s"
| then_act: "interleaving send s xs s' \<Longrightarrow> act send x s' = Some s'' \<Longrightarrow> fresh s' s'' \<Longrightarrow> interleaving send s (xs @ [x]) s''"

text \<open>Running a schedule, for concrete runs.\<close>

fun run :: "'t sender \<Rightarrow> action list \<Rightarrow> 't conc \<Rightarrow> 't conc option" where
  "run send [] s = Some s"
| "run send (x # xs) s =
     (case act send x s of None \<Rightarrow> None | Some s' \<Rightarrow> if fresh s s' then run send xs s' else None)"

end
