(* ===== verification/Egress_Interleaving.thy ===== *)
theory Egress_Interleaving
  imports Egress_Threads
begin

text \<open>
  What holds in every interleaving of the node's threads. The first part is a rely-guarantee
  argument: \<open>quiet\<close> is what every section but the registration guarantees to the other threads,
  and the assertions at the program counters (\<open>conc_wf\<close>) are stable under it. The second part
  follows the thread handles (\<open>handles_ok\<close>). The theorems about interleavings come last.
\<close>

section \<open>What the sections guarantee to the other threads\<close>

text \<open>Every section but the registration leaves the table consistent, takes entries out of it at
  most, and changes a descriptor only to \<open>-1\<close>.\<close>

definition quiet :: "'t node \<Rightarrow> 't node \<Rightarrow> bool" where
  "quiet n n' \<longleftrightarrow> config n' = config n \<and> length (heap n') = length (heap n)
     \<and> snd ` set (streams n') \<subseteq> snd ` set (streams n)
     \<and> (\<forall>a < length (heap n). st_fd (heap n' ! a) = st_fd (heap n ! a) \<or> st_fd (heap n' ! a) = -1)
     \<and> (\<forall>a < length (heap n). st_client_id (heap n' ! a) = st_client_id (heap n ! a)
          \<and> st_stream_id (heap n' ! a) = st_stream_id (heap n ! a))
     \<and> (\<forall>c. stream_count c n' \<le> stream_count c n) \<and> (node_wf n \<longrightarrow> node_wf n')"

lemma quiet_trans:
  assumes "quiet n n'" "quiet n' n''"
  shows "quiet n n''"
proof -
  note first = assms(1) [unfolded quiet_def] and second = assms(2) [unfolded quiet_def]
  have "st_fd (heap n'' ! a) = st_fd (heap n ! a) \<or> st_fd (heap n'' ! a) = -1" if "a < length (heap n)" for a
  proof -
    from first that have "st_fd (heap n' ! a) = st_fd (heap n ! a) \<or> st_fd (heap n' ! a) = -1" by simp
    moreover from first second that
    have "st_fd (heap n'' ! a) = st_fd (heap n' ! a) \<or> st_fd (heap n'' ! a) = -1" by simp
    ultimately show ?thesis by auto
  qed
  moreover have "stream_count c n'' \<le> stream_count c n" for c
    using first second order_trans [of "stream_count c n''" "stream_count c n'" "stream_count c n"] by simp
  moreover have "snd ` set (streams n'') \<subseteq> snd ` set (streams n)"
    using first second by (elim conjE) (rule subset_trans)
  ultimately show ?thesis
    using first second by (simp add: quiet_def)
qed

lemma quiet_same:
  assumes "streams n' = streams n" "heap n' = heap n" "config n' = config n" "\<And>c. stream_count c n' = stream_count c n"
  shows "quiet n n'"
  using assms by (simp add: quiet_def node_wf_def cong: streams_of_cong)

lemma quiet_refl [simp]: "quiet n n"
  by (rule quiet_same) simp_all

lemma stream_count_recent [simp]:
  "stream_count c (n\<lparr>recently_closed := rc\<rparr>) = stream_count c n"
  "stream_count c (n\<lparr>terminated := tm\<rparr>) = stream_count c n"
  by (simp_all add: stream_count_def)

lemma quiet_irrelevant [simp]:
  "quiet n (n\<lparr>ops := tr\<rparr>)"
  "quiet n (n\<lparr>cnt := k\<rparr>)"
  "quiet n (n\<lparr>recently_closed := rc\<rparr>)"
  "quiet n (n\<lparr>terminated := tm\<rparr>)"
  "quiet n (reply_error send c i m n)"
  "quiet n (open_failed (reply_error send c i m n))"
  "quiet n (snd (sendToClient send c b n))"
  "quiet n (open_ack send c i n)"
  "quiet n (snd (client_count c n))"
  by (rule quiet_same; simp add: open_ack_def)+

lemma quiet_push_data [simp]: "quiet n (snd (push_data send c i buf n))"
  by (rule quiet_same) (simp_all add: stream_count_def)

lemma quiet_touch:
  assumes "st_client_id s = st_client_id (heap n ! a)" "st_stream_id s = st_stream_id (heap n ! a)"
    "a < length (heap n)" "st_fd s = st_fd (heap n ! a) \<or> st_fd s = -1"
    "a \<in> snd ` set (streams n) \<Longrightarrow> st_closed s = st_closed (heap n ! a) \<and> st_fd s = st_fd (heap n ! a)"
  shows "quiet n (set_stream a s n)"
proof -
  have "node_wf (set_stream a s n)" if "node_wf n"
    using that assms node_wf_stream_live [OF that] by (intro node_wf_touch) auto
  with assms show ?thesis by (auto simp: quiet_def nth_list_update)
qed

lemma quiet_close_take:
  assumes "close_take io c i reason n = (r, n')" "node_wf n"
  shows "quiet n n'" and "r = Some a \<Longrightarrow> a < length (heap n') \<and> a \<notin> snd ` set (streams n')"
proof -
  let ?key = "keyFor c i"
  show "quiet n n'"
  proof (cases "map_of (streams n) ?key")
    case None
    with assms(1) show ?thesis by (auto intro: quiet_same simp: close_take_def Let_def stream_count_def)
  next
    case (Some b)
    note look = node_wf_lookup [OF assms(2) Some]
    from assms(2) have t: "table_wf (streams n) (heap n)" by (simp add: node_wf_def)
    have n': "streams n' = AList.delete ?key (streams n)" "streams_per_client n' = dec_count c (streams_per_client n)"
      "heap n' = heap n" "config n' = config n"
      using assms(1) Some by (auto simp: close_take_def Let_def dec_count_def split: option.split)
    have count: "stream_count c' n' = (if c' = c \<and> stream_count c n > 0 then stream_count c n - 1 else stream_count c' n)" for c'
      by (auto simp: stream_count_def n' dec_count_def split: option.splits)
    have len: "length (streams_of c' n') = length (streams_of c' n) - (if c' = c then 1 else 0)" for c'
      using length_filter_delete [of "streams n" ?key b] t Some look by (simp add: streams_of_def n' table_wf_def)
    have le: "stream_count c' n' \<le> stream_count c' n" for c'
      unfolding count by (auto simp: word_le_nat_alt unat_pred_u32)
    have old: "length (streams_of c' n) \<le> unat (stream_count c' n)" for c'
      using assms(2) by (simp add: node_wf_def)
    have "length (streams_of c' n') \<le> unat (stream_count c' n')" for c'
      using old [of c'] len [of c'] by (auto simp: count unat_pred_u32 word_less_nat_alt split: if_splits)
    moreover have "table_wf (streams n') (heap n')"
      using table_wf_delete [OF t Some, of "heap n ! b"] by (simp add: n')
    ultimately have "node_wf n'"
      using assms(2) le by (auto simp: node_wf_def n' intro: order_trans)
    with le show ?thesis
      using addresses_delete [OF t Some] by (auto simp: quiet_def n')
  qed
  show "a < length (heap n') \<and> a \<notin> snd ` set (streams n')" if "r = Some a"
  proof -
    have look: "map_of (streams n) ?key = Some a" and n': "streams n' = AList.delete ?key (streams n)" "heap n' = heap n"
      using assms(1) that by (auto simp: close_take_def Let_def split: option.splits)
    show ?thesis
      using addresses_delete [OF _ look, of "heap n"] node_wf_lookup(1) [OF assms(2) look] assms(2)
      by (simp add: n' node_wf_def)
  qed
qed

text \<open>An object on its way out is in no table entry.\<close>

fun close_ok :: "'t node \<Rightarrow> close_pc \<Rightarrow> bool" where
  "close_ok n (Close_Take c i reason) \<longleftrightarrow> True"
| "close_ok n (Close_Release c i a) \<longleftrightarrow> a < length (heap n) \<and> a \<notin> snd ` set (streams n)"
| "close_ok n (Close_Join a) \<longleftrightarrow> a < length (heap n) \<and> a \<notin> snd ` set (streams n)"

lemma quiet_close_fd:
  assumes "a < length (heap n)" "a \<notin> snd ` set (streams n)"
  shows "quiet n (close_fd a n)"
proof -
  have "quiet (n\<lparr>ops := tr\<rparr>) (set_stream a ((heap n ! a)\<lparr>st_fd := -1\<rparr>) (n\<lparr>ops := tr\<rparr>))" for tr
    using assms by (intro quiet_touch) auto
  from quiet_trans [OF quiet_irrelevant(1) this] show ?thesis
    by (simp add: close_fd_def Let_def)
qed

lemma quiet_close_release:
  assumes "a < length (heap n)" "a \<notin> snd ` set (streams n)"
  shows "quiet n (close_release send c i a n)"
proof -
  let ?m = "set_stream a ((heap n ! a)\<lparr>st_closed := True\<rparr>) n"
  have "quiet n ?m" using assms by (intro quiet_touch) auto
  moreover have "quiet ?m (close_fd a ?m)" using assms by (intro quiet_close_fd) auto
  moreover have "quiet (close_fd a ?m) (snd (sendToClient send c f (close_fd a ?m)))" for f by simp
  ultimately show ?thesis
    unfolding close_release_def by (auto intro: quiet_trans)
qed

lemma quiet_close_turn:
  assumes "close_turn send io caller rxs p n = Some (r, n')" "close_ok n p" "node_wf n"
  shows "quiet n n'" and "r = Close_On q \<Longrightarrow> close_ok n' q"
proof -
  have "quiet n n' \<and> (r = Close_On q \<longrightarrow> close_ok n' q)"
  proof (cases p)
    case (Close_Take c i reason)
    with assms quiet_close_take [of io c i reason n] show ?thesis
      by (auto split: prod.splits option.splits)
  next
    case (Close_Release c i a)
    with assms quiet_close_release [of a n send c i] show ?thesis
      by (auto simp: quiet_def)
  next
    case (Close_Join a)
    with assms have "quiet n (set_stream a ((heap n ! a)\<lparr>st_rx_thread := h\<rparr>) n)" for h
      by (intro quiet_touch) auto
    with Close_Join assms show ?thesis by (auto split: if_splits)
  qed
  then show "quiet n n'" and "r = Close_On q \<Longrightarrow> close_ok n' q" by auto
qed

lemma close_ok_quiet: "close_ok n p \<Longrightarrow> quiet n n' \<Longrightarrow> close_ok n' p"
  by (cases p) (auto simp: quiet_def)

section \<open>The invariant of the interleavings\<close>

text \<open>No two stream objects have the same descriptor open.\<close>

definition fds_apart :: "'t node \<Rightarrow> bool" where
  "fds_apart n \<longleftrightarrow> (\<forall>a < length (heap n). \<forall>b < length (heap n).
     a \<noteq> b \<longrightarrow> 0 \<le> st_fd (heap n ! a) \<longrightarrow> st_fd (heap n ! a) \<noteq> st_fd (heap n ! b))"

text \<open>What a thread may rely on at its program counter.\<close>

fun actor_ok :: "'t node \<Rightarrow> actor_pc \<Rightarrow> bool" where
  "actor_ok n (Open_Connect c i host port) \<longleftrightarrow> stream_count c n < max_streams (config n)"
| "actor_ok n (Open_Register c i fd) \<longleftrightarrow>
     stream_count c n < max_streams (config n) \<and> 0 \<le> fd \<and> (\<forall>b < length (heap n). st_fd (heap n ! b) \<noteq> fd)"
| "actor_ok n (Open_Ack c i a) \<longleftrightarrow> a < length (heap n)"
| "actor_ok n (Open_Start c i a) \<longleftrightarrow> a < length (heap n)"
| "actor_ok n (Open_Assign a) \<longleftrightarrow> a < length (heap n)"
| "actor_ok n (Data_Use c i a payload) \<longleftrightarrow>
     a < length (heap n) \<and> st_client_id (heap n ! a) = c \<and> st_stream_id (heap n ! a) = i"
| "actor_ok n (Data_Send c i a fd payload) \<longleftrightarrow>
     a < length (heap n) \<and> st_client_id (heap n ! a) = c \<and> st_stream_id (heap n ! a) = i \<and>
     0 \<le> fd \<and> (\<forall>b < length (heap n). b \<noteq> a \<longrightarrow> st_fd (heap n ! b) \<noteq> fd)"
| "actor_ok n (Actor_Closing p reply) \<longleftrightarrow> close_ok n p"
| "actor_ok n _ \<longleftrightarrow> True"

fun monitor_ok :: "'t node \<Rightarrow> monitor_pc \<Rightarrow> bool" where
  "monitor_ok n (Monitor_Closing p later) \<longleftrightarrow> close_ok n p"
| "monitor_ok n _ \<longleftrightarrow> True"

fun rx_ok :: "'t node \<Rightarrow> rx_pc \<Rightarrow> bool" where
  "rx_ok n (Rx_Closing p) \<longleftrightarrow> close_ok n p"
| "rx_ok n _ \<longleftrightarrow> True"

definition conc_wf :: "'t conc \<Rightarrow> bool" where
  "conc_wf s \<longleftrightarrow> node_wf (c_node s) \<and> fds_apart (c_node s) \<and> length (c_rx s) = length (heap (c_node s))
     \<and> actor_ok (c_node s) (c_actor s) \<and> monitor_ok (c_node s) (c_monitor s)
     \<and> (\<forall>a < length (c_rx s). rx_ok (c_node s) (c_rx s ! a))"

text \<open>The assertions are stable under the sections of the other threads.\<close>

lemma quiet_fd:
  assumes "quiet n n'" "a < length (heap n)"
  shows "st_fd (heap n' ! a) = st_fd (heap n ! a) \<or> st_fd (heap n' ! a) = -1"
  using assms by (simp add: quiet_def)

lemma quiet_ids:
  assumes "quiet n n'" "a < length (heap n)"
  shows "st_client_id (heap n' ! a) = st_client_id (heap n ! a)" "st_stream_id (heap n' ! a) = st_stream_id (heap n ! a)"
  using assms by (simp_all add: quiet_def)

lemma quiet_heap: "quiet n n' \<Longrightarrow> length (heap n') = length (heap n)"
  by (simp add: quiet_def)

lemma quiet_wf: "quiet n n' \<Longrightarrow> node_wf n \<Longrightarrow> node_wf n'"
  by (simp add: quiet_def)

lemma quiet_count:
  assumes "quiet n n'" "stream_count c n < max_streams (config n)"
  shows "stream_count c n' < max_streams (config n')"
  using assms le_less_trans [of "stream_count c n'" "stream_count c n"] by (simp add: quiet_def)

lemma fds_apart_quiet:
  assumes "fds_apart n" "quiet n n'"
  shows "fds_apart n'"
  unfolding fds_apart_def quiet_heap [OF assms(2)]
proof (intro allI impI)
  fix a b
  assume "a < length (heap n)" "b < length (heap n)" "a \<noteq> b" "0 \<le> st_fd (heap n' ! a)"
  with quiet_fd [OF assms(2), of a] quiet_fd [OF assms(2), of b] assms(1) [unfolded fds_apart_def, rule_format, of a b]
  show "st_fd (heap n' ! a) \<noteq> st_fd (heap n' ! b)" by auto
qed

lemma quiet_avoids:
  assumes "quiet n n'" "0 \<le> fd" "b < length (heap n)" "st_fd (heap n ! b) \<noteq> fd"
  shows "st_fd (heap n' ! b) \<noteq> fd"
  using quiet_fd [OF assms(1,3)] assms(2,4) by auto

lemma actor_ok_quiet:
  assumes "actor_ok n p" "quiet n n'"
  shows "actor_ok n' p"
  using assms(1) quiet_count [OF assms(2)] quiet_avoids [OF assms(2)] close_ok_quiet [OF _ assms(2)]
  by (cases p) (simp_all add: quiet_heap [OF assms(2)] quiet_ids [OF assms(2)])

lemma monitor_ok_quiet: "monitor_ok n p \<Longrightarrow> quiet n n' \<Longrightarrow> monitor_ok n' p"
  by (cases p) (auto intro: close_ok_quiet)

lemma rx_ok_quiet: "rx_ok n p \<Longrightarrow> quiet n n' \<Longrightarrow> rx_ok n' p"
  by (cases p) (auto intro: close_ok_quiet)

text \<open>A quiet section keeps the invariant when the thread that runs it arrives at a counter whose
  assertion holds.\<close>

lemma conc_wf_actor:
  assumes "conc_wf s" "quiet (c_node s) n" "actor_ok n p"
  shows "conc_wf (s\<lparr>c_actor := p, c_node := n\<rparr>)"
  using assms fds_apart_quiet [OF _ assms(2)] monitor_ok_quiet [OF _ assms(2)] rx_ok_quiet [OF _ assms(2)]
    quiet_wf [OF assms(2)] quiet_heap [OF assms(2)]
  by (simp add: conc_wf_def)

lemma conc_wf_monitor:
  assumes "conc_wf s" "quiet (c_node s) n" "monitor_ok n p"
  shows "conc_wf (s\<lparr>c_monitor := p, c_node := n\<rparr>)"
  using assms fds_apart_quiet [OF _ assms(2)] actor_ok_quiet [OF _ assms(2)] rx_ok_quiet [OF _ assms(2)]
    quiet_wf [OF assms(2)] quiet_heap [OF assms(2)]
  by (simp add: conc_wf_def)

lemma conc_wf_rx:
  assumes "conc_wf s" "quiet (c_node s) n" "rx_ok n p"
  shows "conc_wf (s\<lparr>c_rx := (c_rx s)[a := p], c_node := n\<rparr>)"
proof -
  have "rx_ok n ((c_rx s)[a := p] ! b)" if "b < length (c_rx s)" for b
    using that assms rx_ok_quiet [OF _ assms(2)] by (cases "b = a") (simp_all add: conc_wf_def)
  then show ?thesis
    using assms fds_apart_quiet [OF _ assms(2)] actor_ok_quiet [OF _ assms(2)] monitor_ok_quiet [OF _ assms(2)]
      quiet_wf [OF assms(2)] quiet_heap [OF assms(2)]
    by (simp add: conc_wf_def)
qed

lemma conc_wf_local:
  assumes "conc_wf s"
  shows "actor_ok (c_node s) p \<Longrightarrow> conc_wf (s\<lparr>c_actor := p\<rparr>)"
    and "monitor_ok (c_node s) q \<Longrightarrow> conc_wf (s\<lparr>c_monitor := q\<rparr>)"
    and "rx_ok (c_node s) r \<Longrightarrow> conc_wf (s\<lparr>c_rx := (c_rx s)[a := r]\<rparr>)"
  using conc_wf_actor [OF assms, of "c_node s" p] conc_wf_monitor [OF assms, of "c_node s" q]
    conc_wf_rx [OF assms, of "c_node s" r a]
  by simp_all

lemma conc_wf_node:
  assumes "conc_wf s" "quiet (c_node s) n"
  shows "conc_wf (s\<lparr>c_node := n\<rparr>)"
  using conc_wf_actor [OF assms, of "c_actor s"] assms actor_ok_quiet [of "c_node s" "c_actor s" n]
  by (simp add: conc_wf_def)

lemmas conc_wf_turns = conc_wf_actor conc_wf_monitor conc_wf_rx conc_wf_local


section \<open>Every turn keeps the invariant\<close>

lemma conc_wf_settle: "conc_wf s \<Longrightarrow> conc_wf (settle s)"
  by (simp add: settle_def conc_wf_node)

lemma conc_wf_accept_frame:
  assumes "conc_wf s" "accept_frame send io c f s = Some s'"
  shows "conc_wf s'"
proof -
  have wf: "node_wf (c_node s)" using assms(1) by (simp add: conc_wf_def)
  have open_frame: "quiet (c_node s) n \<and> actor_ok n p"
    if "accept_open send c i host port token (c_node s) = (p, n)" for i host port token p n
    using that by (auto simp: accept_open_def Let_def split: if_splits)
  have data_frame: "quiet (c_node s) n \<and> actor_ok n p"
    if "accept_data send io c i payload (c_node s) = (p, n)" for i payload p n
    using that node_wf_lookup(1-3) [OF wf] by (auto simp: accept_data_def split: if_splits option.splits)
  from assms show ?thesis
    by (auto simp: accept_frame_def split: if_splits frame.splits prod.splits
        intro!: conc_wf_turns dest!: open_frame data_frame)
qed

lemma conc_wf_begin_sweep: "conc_wf s \<Longrightarrow> begin_sweep io s = Some s' \<Longrightarrow> conc_wf s'"
  by (auto simp: begin_sweep_def Let_def intro!: conc_wf_monitor split: if_splits)

text \<open>The actor thread alone makes the table grow.\<close>

lemma conc_wf_register:
  assumes wf: "conc_wf s" and pc: "c_actor s = Open_Register c i fd"
  shows "conc_wf (s\<lparr>c_actor := Open_Ack c i (length (heap (c_node s))),
    c_node := register_stream io c i fd (c_node s), c_rx := c_rx s @ [Rx_Off]\<rparr>)"
proof -
  let ?n = "c_node s" and ?n' = "register_stream io c i fd (c_node s)"
  have ok: "stream_count c ?n < max_streams (config ?n)" "0 \<le> fd" "\<And>b. b < length (heap ?n) \<Longrightarrow> st_fd (heap ?n ! b) \<noteq> fd"
    using wf pc by (simp_all add: conc_wf_def)
  have node: "node_wf ?n" "fds_apart ?n" "length (c_rx s) = length (heap ?n)" "monitor_ok ?n (c_monitor s)"
    "\<And>a. a < length (heap ?n) \<Longrightarrow> rx_ok ?n (c_rx s ! a)"
    using wf by (simp_all add: conc_wf_def)
  have apart: "fds_apart ?n'"
    using node(2) ok(2,3) by (auto simp: fds_apart_def nth_append less_Suc_eq)
  have close: "close_ok ?n' p" if "close_ok ?n p" for p
    using that by (cases p) (auto dest!: snd_set_update)
  have "monitor_ok ?n' (c_monitor s)"
    using node(4) close by (cases "c_monitor s") auto
  moreover have "rx_ok ?n' ((c_rx s @ [Rx_Off]) ! a)" if "a < length (c_rx s @ [Rx_Off])" for a
  proof (cases "a < length (heap ?n)")
    case True
    with node(3) node(5) [OF True] close show ?thesis by (cases "c_rx s ! a") (auto simp: nth_append)
  next
    case False
    with that node(3) show ?thesis by (simp add: nth_append)
  qed
  ultimately show ?thesis
    using apart node(3) node_wf_register [OF node(1) ok(1,2)] by (simp add: conc_wf_def)
qed

lemma heap_open_ack [simp]: "heap (open_ack send c i n) = heap n"
  by (simp add: open_ack_def)

lemma open_check_ok: "open_check send c i host port n = (p, n') \<Longrightarrow> quiet n n' \<and> actor_ok n' p"
proof -
  assume *: "open_check send c i host port n = (p, n')"
  obtain k m where km: "client_count c n = (k, m)" by (cases "client_count c n")
  moreover have "quiet n (snd (client_count c n))" "stream_count c (snd (client_count c n)) = fst (client_count c n)"
    by simp_all
  ultimately have m: "quiet n m" "stream_count c m = k" by (simp_all del: stream_count_client_count)
  with * km show ?thesis
    by (auto simp: open_check_def intro: quiet_trans split: if_splits)
qed

lemma open_connect_ok:
  assumes "open_connect send io c i host port n = Some (p, n')" "stream_count c n < max_streams (config n)"
    "\<And>fd. p = Open_Register c i fd \<Longrightarrow> fd \<notin> set (open_fds n)"
  shows "quiet n n' \<and> actor_ok n' p"
proof (cases "\<exists>fd. p = Open_Register c i fd")
  case True
  then obtain fd where p: "p = Open_Register c i fd" by blast
  with assms(1) obtain tr k where n': "0 \<le> fd" "n' = n\<lparr>ops := tr, cnt := k\<rparr>"
    by (auto simp: open_connect_def Let_def split: option.splits if_splits)
  then have "quiet n n'" by (intro quiet_same) simp_all
  with n' show ?thesis
    using assms(2,3) p by (auto simp: open_fds_def)
next
  case False
  have err: "quiet n (reply_error send c i m (n\<lparr>ops := tr\<rparr>))"
    "quiet n (open_failed (reply_error send c i m (n\<lparr>ops := tr\<rparr>)))" for m tr
    by (rule quiet_same; simp)+
  from False assms(1) show ?thesis
    by (auto simp: open_connect_def Let_def intro: err split: option.splits if_splits)
qed

lemma quiet_stamp:
  assumes "a < length (heap n)"
  shows "quiet n (set_stream a ((heap n ! a)\<lparr>st_last_activity_ms := t\<rparr>) (n\<lparr>ops := tr\<rparr>))"
    and "quiet n (set_stream a ((heap n ! a)\<lparr>st_last_activity_ms := t\<rparr>) n)"
    and "quiet n (start_rx a n)"
proof -
  have "quiet (n\<lparr>ops := tr\<rparr>) (set_stream a ((heap n ! a)\<lparr>st_last_activity_ms := t\<rparr>) (n\<lparr>ops := tr\<rparr>))"
    using assms by (intro quiet_touch) auto
  then show "quiet n (set_stream a ((heap n ! a)\<lparr>st_last_activity_ms := t\<rparr>) (n\<lparr>ops := tr\<rparr>))"
    by (rule quiet_trans [OF quiet_irrelevant(1)])
  show "quiet n (set_stream a ((heap n ! a)\<lparr>st_last_activity_ms := t\<rparr>) n)" "quiet n (start_rx a n)"
    unfolding start_rx_def using assms by (intro quiet_touch; simp)+
qed

lemma conc_wf_actor_closing:
  assumes "conc_wf s" "c_actor s = Actor_Closing p reply" "actor_turn send io (c_actor s) s = Some s'"
  shows "conc_wf s'"
proof -
  obtain r n where turn: "close_turn send io None (c_rx s) p (c_node s) = Some (r, n)"
    using assms(2,3) by (auto split: option.splits)
  have ok: "close_ok (c_node s) p" "node_wf (c_node s)" using assms(1,2) by (auto simp: conc_wf_def)
  note step = quiet_close_turn [OF turn ok]
  show ?thesis
  proof (cases r)
    case (Close_On q)
    with assms turn step show ?thesis by (auto intro!: conc_wf_actor)
  next
    case (Close_Ended found)
    with assms turn have s': "\<exists>n'. s' = s\<lparr>c_actor := Ready, c_node := n'\<rparr> \<and>
        (n' = n \<or> (\<exists>c f. n' = snd (sendToClient send c f n)))"
      by (auto split: close_pc.splits if_splits)
    moreover have "quiet (c_node s) (snd (sendToClient send c f n))" for c f
      by (rule quiet_trans [OF step(1)]) simp
    ultimately show ?thesis using assms(1) step(1) by (auto intro!: conc_wf_actor)
  qed
qed

lemma conc_wf_actor_turn:
  assumes wf: "conc_wf s" and turn: "actor_turn send io (c_actor s) s = Some s'" and fresh: "fresh s s'"
  shows "conc_wf s'"
proof -
  have ok: "actor_ok (c_node s) (c_actor s)" using wf by (simp add: conc_wf_def)
  show ?thesis
  proof (cases "c_actor s")
    case (Open_Check c i host port)
    with wf turn show ?thesis by (auto dest!: open_check_ok intro!: conc_wf_actor split: prod.splits)
  next
    case (Open_Connect c i host port)
    then obtain p n where r: "open_connect send io c i host port (c_node s) = Some (p, n)"
        and s': "s' = s\<lparr>c_actor := p, c_node := n\<rparr>"
      using turn by (auto split: option.splits)
    have "quiet (c_node s) n \<and> actor_ok n p"
      using wf fresh Open_Connect by (intro open_connect_ok [OF r]) (auto simp: conc_wf_def fresh_def s')
    with wf show ?thesis by (auto simp: s' intro: conc_wf_actor)
  next
    case (Open_Register c i fd)
    with conc_wf_register [OF wf Open_Register, of io] turn show ?thesis by auto
  next
    case (Open_Start c i a)
    with wf have "conc_wf (s\<lparr>c_actor := Open_Assign a\<rparr>)" by (intro conc_wf_local) (simp_all add: conc_wf_def)
    from conc_wf_local(3) [OF this, of Rx_Test a]
    have "conc_wf (s\<lparr>c_actor := Open_Assign a, c_rx := (c_rx s)[a := Rx_Test]\<rparr>)" by simp
    with wf Open_Start turn show ?thesis by (auto intro!: conc_wf_actor split: option.splits)
  next
    case (Data_Use c i a payload)
    with wf have a: "a < length (heap (c_node s))" "fds_apart (c_node s)" by (auto simp: conc_wf_def)
    then have "st_fd (heap (c_node s) ! b) \<noteq> st_fd (heap (c_node s) ! a)"
      if "b < length (heap (c_node s))" "b \<noteq> a" "\<not> st_fd (heap (c_node s) ! a) < 0" for b
      using that unfolding fds_apart_def by (metis not_le_imp_less)
    with wf a ok Data_Use turn show ?thesis
      by (auto simp: Let_def intro!: conc_wf_turns split: if_splits)
  next
    case (Actor_Closing p reply)
    with conc_wf_actor_closing [OF wf _ turn] show ?thesis by blast
  qed (use wf turn ok in \<open>auto simp: Let_def intro!: conc_wf_turns quiet_stamp split: if_splits\<close>)
qed

lemma conc_wf_monitor_turn:
  assumes wf: "conc_wf s" and turn: "monitor_turn send io (c_monitor s) s = Some s'"
  shows "conc_wf s'"
proof (cases "c_monitor s")
  case (Sweeping later)
  with assms show ?thesis by (cases later) (auto intro!: conc_wf_local)
next
  case (Monitor_Closing p later)
  obtain r n where close: "close_turn send io None (c_rx s) p (c_node s) = Some (r, n)"
    using turn Monitor_Closing by (auto split: option.splits)
  have ok: "close_ok (c_node s) p" "node_wf (c_node s)" using wf Monitor_Closing by (auto simp: conc_wf_def)
  from quiet_close_turn [OF close ok] wf turn Monitor_Closing close show ?thesis
    by (auto intro!: conc_wf_monitor split: close_result.splits)
qed (use turn in simp)

lemma conc_wf_rx_turn:
  assumes wf: "conc_wf s" and a: "a < length (c_rx s)" and turn: "rx_turn send io r a (c_rx s ! a) s = Some s'"
  shows "conc_wf s'"
proof (cases "c_rx s ! a")
  case Rx_Test
  with assms show ?thesis by (auto simp: Let_def intro!: conc_wf_local)
next
  case (Rx_Recv fd)
  have "a < length (heap (c_node s))" using wf a by (simp add: conc_wf_def)
  with wf turn Rx_Recv show ?thesis
    by (auto simp: rx_closing_def intro!: conc_wf_turns quiet_stamp split: rx_result.splits)
next
  case (Rx_Push buf)
  have "quiet (c_node s) n" if "push_data send c i buf (c_node s) = (ok, n)" for c i ok n
    using quiet_push_data [of "c_node s" send c i buf] that by simp
  with wf turn Rx_Push show ?thesis
    by (auto simp: rx_closing_def intro!: conc_wf_rx split: prod.splits)
next
  case (Rx_Closing p)
  obtain r' n where close: "close_turn send io (Some a) (c_rx s) p (c_node s) = Some (r', n)"
    using turn Rx_Closing by (auto split: option.splits)
  have ok: "close_ok (c_node s) p" "node_wf (c_node s)" using wf a Rx_Closing by (auto simp: conc_wf_def)
  from quiet_close_turn [OF close ok] wf turn Rx_Closing close show ?thesis
    by (auto intro!: conc_wf_rx split: close_result.splits)
qed (use turn in simp)

lemma settle_fields [simp]:
  "c_actor (settle s) = c_actor s" "c_monitor (settle s) = c_monitor s" "c_rx (settle s) = c_rx s"
  "heap (c_node (settle s)) = heap (c_node s)" "streams (c_node (settle s)) = streams (c_node s)"
  by (simp_all add: settle_def)

lemma conc_wf_act:
  assumes "conc_wf s" "act send x s = Some s'" "fresh s s'"
  shows "conc_wf s'"
proof -
  from assms(2) obtain t where t: "perform send x s = Some t" "s' = settle t"
    by (auto simp: act_def split: if_splits)
  with assms(3) have "fresh s t" by (simp add: fresh_def)
  with t(1) assms(1) have "conc_wf t"
    by (cases x) (auto intro: conc_wf_accept_frame conc_wf_begin_sweep conc_wf_actor_turn conc_wf_monitor_turn
        conc_wf_rx_turn split: if_splits)
  then show ?thesis by (simp add: t(2) conc_wf_settle)
qed

lemma conc_wf_start: "node_wf n \<Longrightarrow> heap n = [] \<Longrightarrow> conc_wf (conc_start n)"
  by (simp add: conc_wf_def conc_start_def fds_apart_def)

lemma conc_wf_interleaving: "interleaving send s xs s' \<Longrightarrow> conc_wf s \<Longrightarrow> conc_wf s'"
  by (induction rule: interleaving.induct) (auto intro: conc_wf_act)

text \<open>Schedules that run are interleavings.\<close>

lemma interleaving_trans:
  "interleaving send s' ys s'' \<Longrightarrow> interleaving send s xs s' \<Longrightarrow> interleaving send s (xs @ ys) s''"
  by (induction rule: interleaving.induct)
    (auto simp flip: append_assoc intro: interleaving.intros)

lemma run_interleaving: "run send xs s = Some s' \<Longrightarrow> interleaving send s xs s'"
proof (induction xs arbitrary: s)
  case (Cons x xs)
  then obtain t where t: "act send x s = Some t" "fresh s t" "run send xs t = Some s'"
    by (auto split: option.splits if_splits)
  from interleaving_trans [OF Cons.IH [OF t(3)] then_act [OF at_start t(1,2)]] show ?case by simp
qed (auto intro: at_start)

text \<open>The configuration is constant, and no section calls \<^verbatim>\<open>std::terminate\<close> by itself.\<close>

lemma config_close_take [simp]:
  "config (snd (close_take io c i reason n)) = config n"
  "terminated (snd (close_take io c i reason n)) = terminated n"
  by (simp_all add: close_take_def Let_def split: option.split)

lemma config_close_turn:
  "close_turn send io caller rxs p n = Some (r, n') \<Longrightarrow> config n' = config n \<and> terminated n' = terminated n"
  by (cases p) (auto simp: close_release_def case_prod_beta split: option.splits if_splits)

lemma config_perform:
  assumes "perform send x s = Some s'"
  shows "config (c_node s') = config (c_node s) \<and> terminated (c_node s') = terminated (c_node s)"
proof (cases x)
  case (Frame io c f)
  with assms show ?thesis
    by (auto simp: accept_frame_def accept_open_def accept_data_def Let_def
        split: frame.splits if_splits option.splits)
next
  case (Actor io)
  with assms show ?thesis
    by (cases "c_actor s") (auto simp: open_check_def open_connect_def open_ack_def Let_def case_prod_beta
        dest: config_close_turn split: if_splits option.splits close_result.splits close_pc.splits)
next
  case (Monitor io)
  with assms show ?thesis
    by (cases "(send, io, c_monitor s, s)" rule: monitor_turn.cases)
      (auto dest!: config_close_turn split: option.splits close_result.splits)
next
  case (Rx a io r)
  with assms show ?thesis
    by (cases "c_rx s ! a") (auto simp: Let_def case_prod_beta dest: config_close_turn
        split: if_splits option.splits close_result.splits rx_result.splits)
qed (use assms in \<open>auto simp: begin_sweep_def Let_def split: if_splits\<close>)

lemma config_interleaving: "interleaving send s xs s' \<Longrightarrow> config (c_node s') = config (c_node s)"
proof (induction rule: interleaving.induct)
  case (then_act s xs s' x s'')
  from then_act(2) obtain t where "perform send x s' = Some t" "s'' = settle t"
    by (auto simp: act_def split: if_splits)
  with then_act(4) config_perform [of send x s' t] show ?case by (simp add: settle_def)
qed simp

section \<open>Who gets rid of a thread handle\<close>

text \<open>A joinable handle belongs to a registered stream or to one that some thread is closing; the
  receive thread of a stream that is being opened has not run yet.\<close>

fun actor_closes :: "nat \<Rightarrow> actor_pc \<Rightarrow> bool" where
  "actor_closes a (Actor_Closing p reply) \<longleftrightarrow> close_holds a p"
| "actor_closes a _ \<longleftrightarrow> False"

fun unstarted :: "nat \<Rightarrow> actor_pc \<Rightarrow> bool" where
  "unstarted a (Open_Ack c i b) \<longleftrightarrow> b = a"
| "unstarted a (Open_Start c i b) \<longleftrightarrow> b = a"
| "unstarted a _ \<longleftrightarrow> False"

definition closes :: "nat \<Rightarrow> 't conc \<Rightarrow> bool" where
  "closes a s \<longleftrightarrow> actor_closes a (c_actor s) \<or> monitor_holds a (c_monitor s) \<or> (\<exists>b < length (c_rx s). rx_holds a (c_rx s ! b))"

definition handles_ok :: "'t conc \<Rightarrow> bool" where
  "handles_ok s \<longleftrightarrow>
     (\<forall>a < length (heap (c_node s)). st_rx_thread (heap (c_node s) ! a) = Joinable \<longrightarrow>
        a \<in> snd ` set (streams (c_node s)) \<or> closes a s)
     \<and> (\<forall>a < length (c_rx s). unstarted a (c_actor s) \<longrightarrow> c_rx s ! a = Rx_Off)"

text \<open>Most sections touch neither the table nor a handle.\<close>

definition same_handles :: "'t node \<Rightarrow> 't node \<Rightarrow> bool" where
  "same_handles n n' \<longleftrightarrow> streams n' = streams n \<and> map st_rx_thread (heap n') = map st_rx_thread (heap n)"

lemma same_handles_simps [simp]:
  "same_handles n n"
  "same_handles n (reply_error send c i m n)"
  "same_handles n (open_failed (reply_error send c i m n))"
  "same_handles n (snd (sendToClient send c b n))"
  "same_handles n (open_ack send c i n)"
  "same_handles n (n\<lparr>recently_closed := rc\<rparr>)"
  "same_handles n (snd (push_data send c i buf n))"
  by (simp_all add: same_handles_def open_ack_def)

lemma same_handles_stamp [simp]:
  "a < length (heap n) \<Longrightarrow> same_handles n (set_stream a ((heap n ! a)\<lparr>st_last_activity_ms := t\<rparr>) n)"
  "a < length (heap n) \<Longrightarrow> same_handles n (set_stream a ((heap n ! a)\<lparr>st_last_activity_ms := t\<rparr>) (n\<lparr>ops := tr\<rparr>))"
  by (simp_all add: same_handles_def map_update list_update_same_conv)

lemma same_handles_nth:
  assumes "same_handles n n'"
  shows "length (heap n') = length (heap n)" "a < length (heap n) \<Longrightarrow> st_rx_thread (heap n' ! a) = st_rx_thread (heap n ! a)"
  using assms unfolding same_handles_def by (metis length_map, metis length_map nth_map)

lemma handles_ok_local:
  assumes "handles_ok s" "same_handles (c_node s) (c_node s')" "length (c_rx s') = length (c_rx s)"
    "\<And>a. a < length (heap (c_node s)) \<Longrightarrow> closes a s \<Longrightarrow> closes a s'"
    "\<And>a. a < length (c_rx s) \<Longrightarrow> unstarted a (c_actor s') \<Longrightarrow> c_rx s' ! a = Rx_Off"
  shows "handles_ok s'"
  using assms same_handles_nth [OF assms(2)] by (auto simp: handles_ok_def same_handles_def)


text \<open>A thread that closes a stream keeps the object until its handle is joined or detached.\<close>

lemma close_turn_handles:
  assumes turn: "close_turn send io caller rxs p n = Some (r, n')" and ok: "close_ok n p" "node_wf n"
    and a: "a < length (heap n)" "st_rx_thread (heap n' ! a) = Joinable"
  shows "st_rx_thread (heap n ! a) = Joinable \<and>
    (a \<in> snd ` set (streams n) \<or> close_holds a p \<longrightarrow>
     a \<in> snd ` set (streams n') \<or> (\<exists>q. r = Close_On q \<and> close_holds a q))"
proof (cases p)
  case (Close_Take c i reason)
  show ?thesis
  proof (cases "map_of (streams n) (keyFor c i)")
    case None
    with turn Close_Take a show ?thesis by (auto simp: close_take_def Let_def)
  next
    case (Some b)
    from ok(2) have "snd ` set (AList.delete (keyFor c i) (streams n)) = snd ` set (streams n) - {b}"
      by (intro addresses_delete [OF _ Some, of "heap n"]) (simp add: node_wf_def)
    moreover have "streams n' = AList.delete (keyFor c i) (streams n)" "heap n' = heap n"
        "r = Close_On (Close_Release c i b)"
      using Some turn Close_Take by (auto simp: close_take_def Let_def)
    ultimately show ?thesis using Close_Take a by (cases "a = b") simp_all
  qed
next
  case (Close_Release c i b)
  with turn a have "st_rx_thread (heap n ! a) = Joinable" "streams n' = streams n"
    by (cases "b = a"; auto simp: close_release_def split: if_splits)+
  with Close_Release turn show ?thesis by auto
next
  case (Close_Join b)
  with turn a show ?thesis
    by (cases "b = a") (auto split: if_splits)
qed

lemma handles_ok_closing:
  assumes "handles_ok s" "length (heap (c_node s')) = length (heap (c_node s))" "length (c_rx s') = length (c_rx s)"
    and "\<And>a. a < length (heap (c_node s)) \<Longrightarrow> st_rx_thread (heap (c_node s') ! a) = Joinable \<Longrightarrow>
      st_rx_thread (heap (c_node s) ! a) = Joinable \<and>
      (a \<in> snd ` set (streams (c_node s)) \<or> closes a s \<longrightarrow> a \<in> snd ` set (streams (c_node s')) \<or> closes a s')"
    and "\<And>a. a < length (c_rx s) \<Longrightarrow> unstarted a (c_actor s') \<Longrightarrow> c_rx s' ! a = Rx_Off"
  shows "handles_ok s'"
  using assms(1,4,5) unfolding handles_ok_def assms(2,3) by blast

text \<open>The two steps that lose a handle: registering a stream id that is still open, and storing the
  handle in a stream that has been closed since its registration.\<close>

definition reopens :: "'t conc \<Rightarrow> bool" where
  "reopens s \<longleftrightarrow>
     (case c_actor s of Open_Register c i fd \<Rightarrow> map_of (streams (c_node s)) (keyFor c i) \<noteq> None | _ \<Rightarrow> False)"

definition stores_late :: "'t conc \<Rightarrow> bool" where
  "stores_late s \<longleftrightarrow> (case c_actor s of Open_Assign a \<Rightarrow> a \<notin> snd ` set (streams (c_node s)) | _ \<Rightarrow> False)"

lemma closes_actor [simp]:
  "closes a (s\<lparr>c_actor := p, c_node := n\<rparr>) \<longleftrightarrow> actor_closes a p \<or> closes a (s\<lparr>c_actor := Ready\<rparr>)"
  by (simp add: closes_def)

lemma closes_ready: "\<not> actor_closes a (c_actor s) \<Longrightarrow> closes a s \<Longrightarrow> closes a (s\<lparr>c_actor := p\<rparr>)"
  by (simp add: closes_def)

lemma handles_ok_close_turn:
  assumes ok: "handles_ok s" "node_wf (c_node s)" "close_ok (c_node s) p"
    and turn: "close_turn send io caller (c_rx s) p (c_node s) = Some (r, n)"
    and same: "same_handles n (c_node s')" "length (c_rx s') = length (c_rx s)"
    and closing: "\<And>b. closes b s \<Longrightarrow> \<not> close_holds b p \<Longrightarrow> closes b s'"
      "\<And>b q. r = Close_On q \<Longrightarrow> close_holds b q \<Longrightarrow> closes b s'"
    and starts: "\<And>a. a < length (c_rx s) \<Longrightarrow> unstarted a (c_actor s') \<Longrightarrow> c_rx s' ! a = Rx_Off"
  shows "handles_ok s'"
proof (rule handles_ok_closing [OF ok(1)])
  have len: "length (heap n) = length (heap (c_node s))"
    using quiet_heap [OF quiet_close_turn(1) [OF turn ok(3,2)]] .
  with same_handles_nth(1) [OF same(1)] show "length (heap (c_node s')) = length (heap (c_node s))" by simp
  fix a assume a: "a < length (heap (c_node s))" "st_rx_thread (heap (c_node s') ! a) = Joinable"
  have "st_rx_thread (heap n ! a) = Joinable" "streams (c_node s') = streams n"
    using a same_handles_nth(2) [OF same(1), of a] len same(1) by (simp_all add: same_handles_def)
  with close_turn_handles [OF turn ok(3,2) a(1)] closing
  show "st_rx_thread (heap (c_node s) ! a) = Joinable \<and>
      (a \<in> snd ` set (streams (c_node s)) \<or> closes a s \<longrightarrow> a \<in> snd ` set (streams (c_node s')) \<or> closes a s')"
    by (cases "close_holds a p") auto
qed (use same starts in auto)

lemma handles_ok_unstarted: "handles_ok s \<Longrightarrow> a < length (c_rx s) \<Longrightarrow> unstarted a (c_actor s) \<Longrightarrow> c_rx s ! a = Rx_Off"
  by (simp add: handles_ok_def)

lemma handles_ok_begin_sweep:
  assumes "handles_ok s" "begin_sweep io s = Some s'"
  shows "handles_ok s'"
  by (rule handles_ok_local [OF assms(1)])
    (use assms in \<open>auto simp: begin_sweep_def Let_def closes_def intro: handles_ok_unstarted split: if_splits\<close>)

lemma handles_ok_monitor_turn:
  assumes ok: "handles_ok s" "conc_wf s" and turn: "monitor_turn send io (c_monitor s) s = Some s'"
  shows "handles_ok s'"
proof (cases "c_monitor s")
  case (Sweeping later)
  with assms show ?thesis
    by (cases later) (auto intro!: handles_ok_local [OF ok(1)] simp: closes_def handles_ok_unstarted)
next
  case (Monitor_Closing p later)
  obtain r n where close: "close_turn send io None (c_rx s) p (c_node s) = Some (r, n)"
    using turn Monitor_Closing by (auto split: option.splits)
  show ?thesis
    using ok turn Monitor_Closing close
    by (intro handles_ok_close_turn [OF ok(1) _ _ close])
      (auto simp: conc_wf_def closes_def handles_ok_def split: close_result.splits)
qed (use turn in simp)

lemma closes_rx:
  assumes "a < length (c_rx s)"
  shows "closes b s \<Longrightarrow> \<not> rx_holds b (c_rx s ! a) \<Longrightarrow> closes b (s\<lparr>c_rx := (c_rx s)[a := p], c_node := n\<rparr>)"
    and "rx_holds b p \<Longrightarrow> closes b (s\<lparr>c_rx := (c_rx s)[a := p], c_node := n\<rparr>)"
  using assms unfolding closes_def by (fastforce simp: nth_list_update, auto)

lemma handles_ok_rx_step:
  assumes ok: "handles_ok s" and a: "a < length (c_rx s)" and "\<And>b. \<not> rx_holds b (c_rx s ! a)"
    and "c_rx s ! a \<noteq> Rx_Off" "same_handles (c_node s) n"
  shows "handles_ok (s\<lparr>c_rx := (c_rx s)[a := p], c_node := n\<rparr>)"
proof (rule handles_ok_local [OF ok])
  show "closes b (s\<lparr>c_rx := (c_rx s)[a := p], c_node := n\<rparr>)" if "closes b s" for b
    using assms(3) that by (intro closes_rx [OF a])
  show "c_rx (s\<lparr>c_rx := (c_rx s)[a := p], c_node := n\<rparr>) ! b = Rx_Off"
    if "b < length (c_rx s)" "unstarted b (c_actor (s\<lparr>c_rx := (c_rx s)[a := p], c_node := n\<rparr>))" for b
    using that assms by (cases "b = a") (auto simp: handles_ok_def)
qed (use assms in simp_all)

lemma handles_ok_rx_turn:
  assumes ok: "handles_ok s" "conc_wf s" and a: "a < length (c_rx s)"
    and turn: "rx_turn send io r a (c_rx s ! a) s = Some s'"
  shows "handles_ok s'"
proof (cases "c_rx s ! a")
  case Rx_Off
  with turn show ?thesis by simp
next
  case (Rx_Closing p)
  obtain r' n where close: "close_turn send io (Some a) (c_rx s) p (c_node s) = Some (r', n)"
    using turn Rx_Closing by (auto split: option.splits)
  obtain q where s': "s' = s\<lparr>c_rx := (c_rx s)[a := q], c_node := n\<rparr>" "\<And>p. r' = Close_On p \<Longrightarrow> q = Rx_Closing p"
    using turn Rx_Closing close by (cases r') auto
  have wf: "node_wf (c_node s)" "close_ok (c_node s) p"
    using ok(2) a Rx_Closing by (auto simp: conc_wf_def)
  show ?thesis
    by (rule handles_ok_close_turn [OF ok(1) wf close])
      (use ok(1) a Rx_Closing s' closes_rx [OF a] in \<open>auto simp: handles_ok_def nth_list_update\<close>)
next
  case (Rx_Push buf)
  have "same_handles (c_node s) n" if "push_data send c i buf (c_node s) = (k, n)" for c i k n
    using same_handles_simps(7) [of "c_node s" send c i buf] that by simp
  with ok(1) a turn Rx_Push show ?thesis
    by (auto intro!: handles_ok_rx_step split: prod.splits)
next
  case Rx_Test
  with handles_ok_rx_step [OF ok(1) a, of "c_node s"] turn show ?thesis by (auto simp: Let_def)
next
  case (Rx_Recv fd)
  have "a < length (heap (c_node s))" using ok(2) a by (simp add: conc_wf_def)
  with handles_ok_rx_step [OF ok(1) a, of "c_node s"] Rx_Recv ok(1) a turn show ?thesis
    by (auto intro!: handles_ok_rx_step split: rx_result.splits)
qed

lemma handles_ok_register:
  assumes ok: "handles_ok s" "conc_wf s" and pc: "c_actor s = Open_Register c i fd" "\<not> reopens s"
  shows "handles_ok (s\<lparr>c_actor := Open_Ack c i (length (heap (c_node s))),
    c_node := register_stream io c i fd (c_node s), c_rx := c_rx s @ [Rx_Off]\<rparr>)" (is "handles_ok ?s'")
proof -
  let ?n = "c_node s" and ?n' = "register_stream io c i fd (c_node s)"
  have len: "length (c_rx s) = length (heap ?n)" using ok(2) by (simp add: conc_wf_def)
  have "map_of (streams ?n) (keyFor c i) = None" using pc by (simp add: reopens_def)
  then have table: "snd ` set (streams ?n) \<subseteq> snd ` set (streams ?n')"
    by (auto simp: addresses_update_fresh)
  have closes: "closes a ?s'" if "closes a s" for a
    using that pc(1) by (auto simp: closes_def nth_append intro: less_SucI)
  have "a \<in> snd ` set (streams ?n) \<or> closes a s"
    if "a < Suc (length (heap ?n))" "st_rx_thread (heap ?n' ! a) = Joinable" for a
    using that ok(1) by (cases "a < length (heap ?n)") (auto simp: handles_ok_def nth_append)
  with table closes have "a \<in> snd ` set (streams ?n') \<or> closes a ?s'"
    if "a < Suc (length (heap ?n))" "st_rx_thread (heap ?n' ! a) = Joinable" for a
    using that by blast
  then show ?thesis
    unfolding handles_ok_def by (simp add: len nth_append)
qed

text \<open>Sections of the actor thread outside \<open>closeStream\<close>.\<close>

lemma handles_ok_actor:
  assumes "handles_ok s" "same_handles (c_node s) n" "\<And>a. \<not> actor_closes a (c_actor s)"
    "\<And>a. unstarted a p \<Longrightarrow> unstarted a (c_actor s)"
  shows "handles_ok (s\<lparr>c_actor := p, c_node := n\<rparr>)"
  using assms by (intro handles_ok_local [OF assms(1)]) (auto simp: handles_ok_def intro: closes_ready)

lemma handles_ok_actor_here:
  assumes "handles_ok s" "\<And>a. \<not> actor_closes a (c_actor s)" "\<And>a. unstarted a p \<Longrightarrow> unstarted a (c_actor s)"
  shows "handles_ok (s\<lparr>c_actor := p\<rparr>)"
  using handles_ok_actor [OF assms(1) _ assms(2,3), of "c_node s" p] by simp

lemma open_check_handles: "open_check send c i host port n = (p, n') \<Longrightarrow> same_handles n n' \<and> \<not> unstarted a p"
  by (auto simp: open_check_def client_count_def same_handles_def split: option.splits if_splits)

lemma open_connect_handles:
  "open_connect send io c i host port n = Some (p, n') \<Longrightarrow> same_handles n n' \<and> \<not> unstarted a p"
  by (auto simp: open_connect_def same_handles_def Let_def split: option.splits if_splits)

lemma handles_ok_start:
  assumes ok: "handles_ok s" "conc_wf s" and pc: "c_actor s = Open_Start c i a"
  shows "handles_ok (s\<lparr>c_actor := Open_Assign a, c_rx := (c_rx s)[a := Rx_Test]\<rparr>)"
proof (rule handles_ok_local [OF ok(1)])
  have a: "a < length (c_rx s)" using ok(2) pc by (simp add: conc_wf_def)
  then have "c_rx s ! a = Rx_Off" using ok(1) pc by (simp add: handles_ok_unstarted)
  with a closes_rx(1) [OF a, of _ "c_node s" Rx_Test] pc
  show "closes b (s\<lparr>c_actor := Open_Assign a, c_rx := (c_rx s)[a := Rx_Test]\<rparr>)" if "closes b s" for b
    using that by (simp add: closes_def)
qed simp_all

lemma handles_ok_assign:
  assumes ok: "handles_ok s" and pc: "c_actor s = Open_Assign a" "\<not> stores_late s"
  shows "handles_ok (s\<lparr>c_actor := Ready, c_node := start_rx a (c_node s)\<rparr>)"
proof -
  have "a \<in> snd ` set (streams (c_node s))" using pc by (simp add: stores_late_def)
  then have "b \<in> snd ` set (streams (c_node s)) \<or> closes b (s\<lparr>c_actor := Ready, c_node := start_rx a (c_node s)\<rparr>)"
    if "b < length (heap (c_node s))" "st_rx_thread (heap (start_rx a (c_node s)) ! b) = Joinable" for b
    using that ok pc(1) by (cases "b = a") (auto simp: handles_ok_def closes_def)
  then show ?thesis unfolding handles_ok_def by simp
qed

lemma handles_ok_actor_turn:
  assumes ok: "handles_ok s" "conc_wf s" and turn: "actor_turn send io (c_actor s) s = Some s'"
    and fine: "\<not> reopens s" "\<not> stores_late s"
  shows "handles_ok s'"
proof (cases "c_actor s")
  case (Open_Check c i host port)
  with ok(1) turn show ?thesis
    by (auto dest: open_check_handles intro!: handles_ok_actor split: prod.splits)
next
  case (Open_Connect c i host port)
  with ok(1) turn show ?thesis
    by (auto dest: open_connect_handles intro!: handles_ok_actor split: option.splits)
next
  case (Open_Register c i fd)
  with handles_ok_register [OF ok Open_Register fine(1), of io] turn show ?thesis by simp
next
  case (Open_Start c i a)
  with handles_ok_start [OF ok Open_Start] ok(1) turn show ?thesis
    by (auto intro!: handles_ok_actor split: option.splits)
next
  case (Open_Assign a)
  with handles_ok_assign [OF ok(1) Open_Assign fine(2)] turn show ?thesis by simp
next
  case (Data_Send c i a fd payload)
  with ok have "a < length (heap (c_node s))" by (simp add: conc_wf_def)
  with ok(1) turn Data_Send show ?thesis
    by (auto simp: Let_def intro!: handles_ok_actor handles_ok_actor_here split: if_splits)
next
  case (Actor_Closing p reply)
  obtain r n where close: "close_turn send io None (c_rx s) p (c_node s) = Some (r, n)"
    using turn Actor_Closing by (auto split: option.splits)
  have wf: "node_wf (c_node s)" "close_ok (c_node s) p" using ok(2) Actor_Closing by (auto simp: conc_wf_def)
  show ?thesis
    by (rule handles_ok_close_turn [OF ok(1) wf close])
      (use turn Actor_Closing close in \<open>auto simp: closes_def split: close_result.splits close_pc.splits if_splits\<close>)
qed (use ok(1) turn in \<open>auto simp: Let_def intro!: handles_ok_actor handles_ok_actor_here split: if_splits\<close>)

lemma handles_ok_accept_frame:
  assumes "handles_ok s" "accept_frame send io c f s = Some s'"
  shows "handles_ok s'"
proof -
  have ready: "c_actor s = Ready" using assms(2) by (auto simp: accept_frame_def split: if_splits)
  have opens: "same_handles (c_node s) n \<and> \<not> unstarted a p"
    if "accept_open send c i host port token (c_node s) = (p, n)" for a i host port token p n
    using that by (auto simp: accept_open_def Let_def split: if_splits)
  have sends: "same_handles (c_node s) n \<and> \<not> unstarted a p"
    if "accept_data send io c i payload (c_node s) = (p, n)" for a i payload p n
    using that by (auto simp: accept_data_def split: if_splits option.splits)
  have step: "handles_ok (s\<lparr>c_actor := p, c_node := n\<rparr>)" if "\<And>a. same_handles (c_node s) n \<and> \<not> unstarted a p" for p n
    using assms(1) that ready by (intro handles_ok_actor) auto
  show ?thesis
    using assms(2) ready step [OF opens] step [OF sends] step [of "c_node s"]
    by (cases f) (auto simp: accept_frame_def split: prod.splits)
qed


lemma settle_handles:
  assumes "handles_ok s"
  shows "settle s = s"
proof -
  have "held a s" if "a < length (heap (c_node s))" "st_rx_thread (heap (c_node s) ! a) = Joinable" for a
  proof -
    have "actor_closes a p \<Longrightarrow> actor_holds a p" for p by (cases p) auto
    with assms that show ?thesis
      by (auto simp: handles_ok_def closes_def held_def list_ex_iff)
  qed
  then show ?thesis by (auto simp: settle_def list_ex_iff)
qed

lemma handles_ok_act:
  assumes ok: "handles_ok s" "conc_wf s" and act: "act send x s = Some s'"
    and fine: "\<And>io. x = Actor io \<Longrightarrow> \<not> reopens s \<and> \<not> stores_late s"
  shows "handles_ok s' \<and> \<not> terminated (c_node s')"
proof -
  from act obtain t where t: "perform send x s = Some t" "s' = settle t" "\<not> terminated (c_node s)"
    by (auto simp: act_def split: if_splits)
  from t(1) ok fine have "handles_ok t"
    by (cases x) (auto intro: handles_ok_accept_frame handles_ok_begin_sweep handles_ok_actor_turn
        handles_ok_monitor_turn handles_ok_rx_turn split: if_splits)
  with t config_perform [OF t(1)] show ?thesis by (simp add: settle_handles)
qed

definition loses_handle :: "'t conc \<Rightarrow> bool" where
  "loses_handle s \<longleftrightarrow> reopens s \<or> stores_late s"

lemma handles_ok_interleaving:
  assumes "interleaving send s xs s'" "conc_wf s" "handles_ok s" "\<not> terminated (c_node s)"
  shows "handles_ok s' \<and> \<not> terminated (c_node s') \<or>
    (\<exists>ys io zs u. xs = ys @ Actor io # zs \<and> interleaving send s ys u \<and> loses_handle u)"
  using assms
proof (induction rule: interleaving.induct)
  case (then_act s xs s' x s'')
  consider (safe) "handles_ok s'" "\<not> terminated (c_node s')"
    | (lost) ys io zs u where "xs = ys @ Actor io # zs" "interleaving send s ys u" "loses_handle u"
    using then_act by blast
  then show ?case
  proof cases
    case safe
    have "conc_wf s'" using conc_wf_interleaving then_act by blast
    with safe then_act(2) handles_ok_act [of s' send x s''] show ?thesis
      using then_act(1) unfolding loses_handle_def by blast
  next
    case lost
    then have "xs @ [x] = ys @ Actor io # (zs @ [x])" by simp
    with lost show ?thesis by blast
  qed
qed simp


section \<open>The theorems about interleavings\<close>

text \<open>The sections of an OPEN that succeeds, up to the start of the receive thread.\<close>

definition open_sections :: "io \<Rightarrow> string \<Rightarrow> action list" where
  "open_sections io c = Frame io c (Open_Frame 5 ''h'' 443 []) # replicate 5 (Actor io)"

text \<open>The target closes the connection at once: the receive thread runs through \<open>closeStream\<close>
  before the actor thread has stored its handle.\<close>

definition target_hangs_up :: "action list" where
  "target_hangs_up = open_sections sample_io ''c'' @ replicate 5 (Rx 0 sample_io Rx_End) @ [Actor sample_io]"

text \<open>The receive thread of the first client has loaded its descriptor when the idle monitor closes
  it; the connection of the second client gets the same number.\<close>

definition late_io :: io where "late_io = sample_io\<lparr>io_now := 100000\<rparr>"

definition reused_descriptor :: "action list" where
  "reused_descriptor = open_sections sample_io ''a'' @ [Actor sample_io, Rx 0 sample_io Rx_End, Wake late_io,
     Monitor late_io, Monitor late_io, Monitor late_io] @ open_sections late_io ''b'' @ [Actor late_io]"

lemma conc_wf_reachable:
  assumes "interleaving send (conc_start (EgressNode cfg t)) xs s"
  shows "conc_wf s" and "config (c_node s) = cfg"
proof -
  have "conc_wf (conc_start (EgressNode cfg t))"
    by (rule conc_wf_start [OF node_wf_initial]) (simp add: EgressNode_def)
  with assms show "conc_wf s" by (rule conc_wf_interleaving)
  show "config (c_node s) = cfg"
    using config_interleaving [OF assms] by (simp add: conc_start_def EgressNode_def)
qed

lemma runE:
  assumes "map_option P (run send xs s) = Some True"
  obtains s' where "interleaving send s xs s'" "P s'"
proof -
  from assms obtain s' where "run send xs s = Some s'" "P s'" by auto
  with that run_interleaving show thesis by blast
qed

text \<open>
  C0. However the actor thread, the idle monitor and the receive threads interleave between the
  sections in which they hold the lock, the stream table stays consistent (one entry per key, each
  entry an open object of that client and stream id) and no client has more than \<open>max_streams\<close>
  streams, although \<open>handleOpen\<close> tests the limit and registers the stream in two sections.
\<close>

theorem threads_invariant:
  assumes "interleaving send (conc_start (EgressNode cfg t)) xs s"
  shows "node_wf (c_node s) \<and> length (streams_of c (c_node s)) \<le> unat (max_streams cfg)"
  using conc_wf_reachable [OF assms]
  by (auto simp: conc_wf_def node_wf_def word_le_nat_alt intro: order_trans)

theorem threads_invariant_witness:
  "\<exists>s. interleaving sample_send (conc_start sample_start) reused_descriptor s \<and> node_wf (c_node s)
     \<and> length (streams_of ''b'' (c_node s)) \<le> 100"
proof -
  have "map_option (\<lambda>s. True) (run sample_send reused_descriptor (conc_start sample_start)) = Some True"
    by code_simp
  then obtain s where s: "interleaving sample_send (conc_start sample_start) reused_descriptor s"
    by (rule runE)
  from threads_invariant [OF s [unfolded sample_start_def], of "''b''"] s show ?thesis
    by (auto simp: default_config_def)
qed

text \<open>
  C0. Bytes that a client sends reach no other stream, in any interleaving: when \<open>handleData\<close> has
  loaded a descriptor and is about to write, the only object that can have that descriptor open is
  the stream the frame named, even if the stream has been closed in the meantime.
\<close>

theorem data_never_crosses:
  assumes "interleaving send (conc_start (EgressNode cfg t)) xs s"
    and "c_actor s = Data_Send c i a fd payload"
    and "b < length (heap (c_node s))" and "st_fd (heap (c_node s) ! b) = fd"
  shows "b = a \<and> st_client_id (heap (c_node s) ! b) = c \<and> st_stream_id (heap (c_node s) ! b) = i"
proof -
  have "actor_ok (c_node s) (Data_Send c i a fd payload)"
    using conc_wf_reachable(1) [OF assms(1)] assms(2) by (simp add: conc_wf_def)
  with assms(3,4) show ?thesis by auto
qed

definition small_payloads :: Config where
  "small_payloads = default_config\<lparr>egress := (egress default_config)\<lparr>max_payload_bytes := 4\<rparr>\<rparr>"

theorem data_never_crosses_witness:
  "\<exists>s. interleaving sample_send (conc_start (EgressNode small_payloads []))
         (reused_descriptor @ [Frame late_io ''b'' (Data_Frame 5 [1, 2]), Actor late_io]) s
     \<and> c_actor s = Data_Send ''b'' 5 1 7 [1, 2] \<and> st_client_id (heap (c_node s) ! 1) = ''b''"
proof -
  let ?P = "\<lambda>s. c_actor s = Data_Send ''b'' 5 1 7 [1, 2] \<and> length (heap (c_node s)) = 2
    \<and> st_fd (heap (c_node s) ! 1) = 7"
  have "map_option ?P (run sample_send (reused_descriptor @ [Frame late_io ''b'' (Data_Frame 5 [1, 2]), Actor late_io])
      (conc_start (EgressNode small_payloads []))) = Some True"
    by code_simp
  then obtain s where s: "interleaving sample_send (conc_start (EgressNode small_payloads []))
      (reused_descriptor @ [Frame late_io ''b'' (Data_Frame 5 [1, 2]), Actor late_io]) s" "?P s"
    by (rule runE)
  from data_never_crosses [OF s(1), of "''b''" 5 1 7 "[1, 2]" 1] s(2)
  have "st_client_id (heap (c_node s) ! 1) = ''b''" by simp
  with s show ?thesis by blast
qed

text \<open>
  C0. The process dies in \<open>std::terminate\<close> only if \<open>handleOpen\<close> loses a thread handle: by
  registering a stream id that is still open, or by storing the handle of the receive thread in a
  stream that has been closed since its registration. In every interleaving without such a step
  each joinable handle belongs to a registered stream or to one that a thread is closing, which
  then joins or detaches it before the object is destroyed.
\<close>

theorem terminate_causes:
  assumes "interleaving send (conc_start (EgressNode cfg t)) xs s" "terminated (c_node s)"
  shows "\<exists>ys io zs u. xs = ys @ Actor io # zs \<and> interleaving send (conc_start (EgressNode cfg t)) ys u
    \<and> loses_handle u"
proof -
  have "handles_ok (conc_start (EgressNode cfg t))" "\<not> terminated (c_node (conc_start (EgressNode cfg t)))"
    by (simp_all add: handles_ok_def conc_start_def EgressNode_def)
  with handles_ok_interleaving [OF assms(1) conc_wf_reachable(1) [OF at_start]] assms(2) show ?thesis by blast
qed

theorem terminate_causes_witness:
  "\<exists>ys io zs u. target_hangs_up = ys @ Actor io # zs \<and> interleaving sample_send (conc_start sample_start) ys u
     \<and> loses_handle u"
proof -
  have "map_option (\<lambda>s. terminated (c_node s)) (run sample_send target_hangs_up (conc_start sample_start)) = Some True"
    by code_simp
  then obtain s where "interleaving sample_send (conc_start sample_start) target_hangs_up s" "terminated (c_node s)"
    by (rule runE)
  with terminate_causes [of sample_send default_config "[]"] show ?thesis by (simp add: sample_start_def)
qed



end
